theory Spec2Isabelle
  imports Main "HOL-Library.Sublist" "HOL-Library.List_Lexorder" "HOL-Library.Product_Lexorder"
begin

section \<open>Semantic versions, as the version calculator uses the semver package\<close>

text \<open>
  The version calculator works on version strings and calls \<^verbatim>\<open>semver.parse\<close>,
  \<^verbatim>\<open>semver.prerelease\<close>, \<^verbatim>\<open>semver.inc\<close> and \<^verbatim>\<open>semver.gt\<close>. The package is an
  external dependency; its strict (non-loose) behaviour is written out here: a version string
  is parsed into a \<^verbatim>\<open>SemVer\<close> object, incremented and compared as an object, and printed
  back by \<^verbatim>\<open>format\<close>. JavaScript strings are modelled as byte strings (ASCII), JavaScript
  \<^verbatim>\<open>null\<close>/\<^verbatim>\<open>undefined\<close> results as \<open>None\<close>, a thrown \<^verbatim>\<open>TypeError\<close> as \<open>Inl TypeError\<close>.
  Build metadata is validated by the parser and then dropped: no function used here reads it.
  Numeric prerelease identifiers of \<open>2^53 - 1\<close> and more stay strings in the package and are
  compared there after conversion to floating point, which \<open>to_double\<close> writes out.
\<close>

datatype pre_id = Num nat | Alnum string

record SemVer =
  major :: nat
  minor :: nat
  patch :: nat
  prerelease :: "pre_id list"

definition MAX_LENGTH :: nat where
  "MAX_LENGTH = 256"

definition MAX_SAFE_INTEGER :: nat where
  "MAX_SAFE_INTEGER = 9007199254740991"

subsection \<open>Characters and numbers\<close>

definition digit_val :: "char \<Rightarrow> nat option" where
  "digit_val c =
     (if 48 \<le> (of_char c :: nat) \<and> (of_char c :: nat) \<le> 57 then Some (of_char c - 48) else None)"

definition is_digit :: "char \<Rightarrow> bool" where
  "is_digit c = (digit_val c \<noteq> None)"

definition is_letter_or_dash :: "char \<Rightarrow> bool" where
  "is_letter_or_dash c =
     ((97 \<le> (of_char c :: nat) \<and> (of_char c :: nat) \<le> 122)
      \<or> (65 \<le> (of_char c :: nat) \<and> (of_char c :: nat) \<le> 90)
      \<or> c = CHR ''-'')"

definition is_space :: "char \<Rightarrow> bool" where
  "is_space c = ((of_char c :: nat) = 32 \<or> (9 \<le> (of_char c :: nat) \<and> (of_char c :: nat) \<le> 13))"

text \<open>\<^verbatim>\<open>+s\<close> on a string of decimal digits.\<close>

fun digits_value :: "nat \<Rightarrow> string \<Rightarrow> nat" where
  "digits_value acc [] = acc"
| "digits_value acc (c # cs) = digits_value (10 * acc + (case digit_val c of Some d \<Rightarrow> d | None \<Rightarrow> 0)) cs"

definition digit_char :: "nat \<Rightarrow> char" where
  "digit_char d = ''0123456789'' ! d"

text \<open>
  The decimal text of a number, as a template literal or \<^verbatim>\<open>join\<close> prints it;
  \<open>digit_char\<close> is only applied to numbers below ten.
\<close>

fun show_nat :: "nat \<Rightarrow> string" where
  "show_nat n = (if n < 10 then [digit_char n] else show_nat (n div 10) @ [digit_char (n mod 10)])"

declare show_nat.simps [simp del]

text \<open>\<^verbatim>\<open>s.split(c)\<close>: the pieces between the occurrences of \<open>c\<close>, empty pieces kept.\<close>

fun split_on :: "char \<Rightarrow> string \<Rightarrow> string list" where
  "split_on c [] = [[]]"
| "split_on c (x # xs) =
     (if x = c then [] # split_on c xs
      else (case split_on c xs of [] \<Rightarrow> [[x]] | p # ps \<Rightarrow> (x # p) # ps))"

text \<open>\<^verbatim>\<open>xs.join(sep)\<close>.\<close>

fun join :: "string \<Rightarrow> string list \<Rightarrow> string" where
  "join sep [] = []"
| "join sep [x] = x"
| "join sep (x # y # ys) = x @ sep @ join sep (y # ys)"

definition trim :: "string \<Rightarrow> string" where
  "trim s = rev (dropWhile is_space (rev (dropWhile is_space s)))"

subsection \<open>Parsing: the \<^verbatim>\<open>SemVer\<close> constructor in strict mode\<close>

text \<open>
  \<^verbatim>\<open>NUMERICIDENTIFIER = 0|[1-9]\d*\<close>: the three main components, which must not exceed
  \<^verbatim>\<open>MAX_SAFE_INTEGER\<close>.
\<close>

definition numeric_identifier :: "string \<Rightarrow> nat option" where
  "numeric_identifier s =
     (if s = [] \<or> \<not> list_all is_digit s then None
      else if hd s = CHR ''0'' \<and> length s > 1 then None
      else Some (digits_value 0 s))"

text \<open>
  \<^verbatim>\<open>PRERELEASEIDENTIFIER\<close>: a numeric identifier, or a non-empty word over letters, digits
  and the dash with at least one non-digit. An all-digit identifier below
  \<^verbatim>\<open>MAX_SAFE_INTEGER\<close> becomes a number, any other stays a string.
\<close>

definition prerelease_identifier :: "string \<Rightarrow> pre_id option" where
  "prerelease_identifier s =
     (if s = [] \<or> \<not> list_all (\<lambda>c. is_digit c \<or> is_letter_or_dash c) s then None
      else if list_all is_digit s then
        (if hd s = CHR ''0'' \<and> length s > 1 then None
         else if digits_value 0 s < MAX_SAFE_INTEGER then Some (Num (digits_value 0 s))
         else Some (Alnum s))
      else Some (Alnum s))"

definition build_identifier :: "string \<Rightarrow> bool" where
  "build_identifier s = (s \<noteq> [] \<and> list_all (\<lambda>c. is_digit c \<or> is_letter_or_dash c) s)"

text \<open>All of a list of optional values, or nothing.\<close>

fun those_ids :: "'a option list \<Rightarrow> 'a list option" where
  "those_ids [] = Some []"
| "those_ids (None # xs) = None"
| "those_ids (Some x # xs) = (case those_ids xs of None \<Rightarrow> None | Some ys \<Rightarrow> Some (x # ys))"

text \<open>The main part \<^verbatim>\<open>MAJOR.MINOR.PATCH\<close>.\<close>

definition parse_main :: "string \<Rightarrow> (nat \<times> nat \<times> nat) option" where
  "parse_main s =
     (case map numeric_identifier (split_on CHR ''.'' s) of
        [Some a, Some b, Some c] \<Rightarrow>
          (if a > MAX_SAFE_INTEGER \<or> b > MAX_SAFE_INTEGER \<or> c > MAX_SAFE_INTEGER then None
           else Some (a, b, c))
      | _ \<Rightarrow> None)"

text \<open>The text before the first occurrence of a character, and the text after it, if any.\<close>

definition cut_at :: "char \<Rightarrow> string \<Rightarrow> string \<times> string option" where
  "cut_at c s =
     (takeWhile (\<lambda>x. x \<noteq> c) s,
      (case dropWhile (\<lambda>x. x \<noteq> c) s of [] \<Rightarrow> None | _ # r \<Rightarrow> Some r))"

text \<open>
  \<^verbatim>\<open>semver.parse(version)\<close>: \<open>None\<close> is \<^verbatim>\<open>null\<close>. The string is refused when longer than
  \<^verbatim>\<open>MAX_LENGTH\<close>, then trimmed and matched against
  \<^verbatim>\<open>^v?MAIN(-PRERELEASE)?(\+BUILD)?$\<close>.
\<close>

definition parse :: "string \<Rightarrow> SemVer option" where
  "parse version =
     (if length version > MAX_LENGTH then None
      else
        let t = trim version;
            t' = (case t of c # r \<Rightarrow> if c = CHR ''v'' then r else t | [] \<Rightarrow> t);
            (body, build) = cut_at CHR ''+'' t';
            (mainpart, pre) = cut_at CHR ''-'' body
        in
          if (case build of None \<Rightarrow> False
              | Some b \<Rightarrow> \<not> list_all build_identifier (split_on CHR ''.'' b)) then None
          else
            (case parse_main mainpart of
               None \<Rightarrow> None
             | Some (a, b, c) \<Rightarrow>
                 (case pre of
                    None \<Rightarrow> Some \<lparr>major = a, minor = b, patch = c, prerelease = []\<rparr>
                  | Some p \<Rightarrow>
                      (case those_ids (map prerelease_identifier (split_on CHR ''.'' p)) of
                         None \<Rightarrow> None
                       | Some ids \<Rightarrow> Some \<lparr>major = a, minor = b, patch = c, prerelease = ids\<rparr>))))"

subsection \<open>Printing: \<^verbatim>\<open>SemVer.format\<close>\<close>

fun show_identifier :: "pre_id \<Rightarrow> string" where
  "show_identifier (Num n) = show_nat n"
| "show_identifier (Alnum s) = s"

definition format :: "SemVer \<Rightarrow> string" where
  "format v =
     show_nat (major v) @ ''.'' @ show_nat (minor v) @ ''.'' @ show_nat (patch v)
     @ (if prerelease v = [] then [] else ''-'' @ join ''.'' (map show_identifier (prerelease v)))"

text \<open>\<^verbatim>\<open>semver.prerelease(version)\<close>: the prerelease components, or \<^verbatim>\<open>null\<close>.\<close>

definition semver_prerelease :: "string \<Rightarrow> pre_id list option" where
  "semver_prerelease version =
     (case parse version of
        None \<Rightarrow> None
      | Some v \<Rightarrow> if prerelease v = [] then None else Some (prerelease v))"

subsection \<open>Comparison: \<^verbatim>\<open>SemVer.compare\<close>\<close>

text \<open>Strings compare by code units, as JavaScript's \<^verbatim>\<open><\<close> does.\<close>

fun str_less :: "string \<Rightarrow> string \<Rightarrow> bool" where
  "str_less [] [] = False"
| "str_less [] (y # ys) = True"
| "str_less (x # xs) [] = False"
| "str_less (x # xs) (y # ys) =
     ((of_char x :: nat) < of_char y \<or> (x = y \<and> str_less xs ys))"

text \<open>
  \<^verbatim>\<open>+s\<close> as a JavaScript number: the double nearest to the integer, ties going to the even
  significand. An integer below \<open>2^53\<close> is a double; above, the low bits that do not fit
  the 53 bits of the significand are rounded away. The integers met here have at most
  \<^verbatim>\<open>MAX_LENGTH\<close> digits and stay below the largest double.
\<close>

fun dropped_bits :: "nat \<Rightarrow> nat" where
  "dropped_bits n = (if n < 9007199254740992 then 0 else Suc (dropped_bits (n div 2)))"

declare dropped_bits.simps [simp del]

definition to_double :: "nat \<Rightarrow> nat" where
  "to_double n =
     (let e = dropped_bits n; q = n div 2 ^ e; r = n mod 2 ^ e in
      if 2 * r < 2 ^ e \<or> (2 * r = 2 ^ e \<and> even q) then q * 2 ^ e else (q + 1) * 2 ^ e)"

text \<open>
  \<^verbatim>\<open>compareIdentifiers(a, b)\<close>: two numeric identifiers compare as numbers, a numeric one
  is below a non-numeric one, two non-numeric ones compare as strings. An identifier counts
  as numeric when its text is all digits; the text of a numeric identifier that stayed a
  string is converted by \<^verbatim>\<open>+a\<close>, so two such identifiers with the same double are equal.
\<close>

fun numeric_value :: "pre_id \<Rightarrow> nat option" where
  "numeric_value (Num n) = Some (to_double n)"
| "numeric_value (Alnum s) =
     (if s \<noteq> [] \<and> list_all is_digit s then Some (to_double (digits_value 0 s)) else None)"

definition compareIdentifiers :: "pre_id \<Rightarrow> pre_id \<Rightarrow> int" where
  "compareIdentifiers a b =
     (case (numeric_value a, numeric_value b) of
        (Some m, Some n) \<Rightarrow> (if m = n then 0 else if m < n then -1 else 1)
      | (Some m, None) \<Rightarrow> -1
      | (None, Some n) \<Rightarrow> 1
      | (None, None) \<Rightarrow>
          (if show_identifier a = show_identifier b then 0
           else if str_less (show_identifier a) (show_identifier b) then -1 else 1))"

definition compareNumbers :: "nat \<Rightarrow> nat \<Rightarrow> int" where
  "compareNumbers a b = (if a = b then 0 else if a < b then -1 else 1)"

definition compareMain :: "SemVer \<Rightarrow> SemVer \<Rightarrow> int" where
  "compareMain a b =
     (if compareNumbers (major a) (major b) \<noteq> 0 then compareNumbers (major a) (major b)
      else if compareNumbers (minor a) (minor b) \<noteq> 0 then compareNumbers (minor a) (minor b)
      else compareNumbers (patch a) (patch b))"

text \<open>
  The loop of \<^verbatim>\<open>comparePre\<close> over the two identifier lists: the first pair of identifiers
  that are not identical decides, also when \<^verbatim>\<open>compareIdentifiers\<close> finds them equal.
\<close>

fun comparePre_loop :: "pre_id list \<Rightarrow> pre_id list \<Rightarrow> int" where
  "comparePre_loop [] [] = 0"
| "comparePre_loop (a # as) [] = 1"
| "comparePre_loop [] (b # bs) = -1"
| "comparePre_loop (a # as) (b # bs) =
     (if a = b then comparePre_loop as bs else compareIdentifiers a b)"

definition comparePre :: "SemVer \<Rightarrow> SemVer \<Rightarrow> int" where
  "comparePre a b =
     (if prerelease a \<noteq> [] \<and> prerelease b = [] then -1
      else if prerelease a = [] \<and> prerelease b \<noteq> [] then 1
      else if prerelease a = [] \<and> prerelease b = [] then 0
      else comparePre_loop (prerelease a) (prerelease b))"

definition compare :: "SemVer \<Rightarrow> SemVer \<Rightarrow> int" where
  "compare a b = (if compareMain a b \<noteq> 0 then compareMain a b else comparePre a b)"

text \<open>
  Precedence is a linear order on the versions whose identifiers are compared exactly: a
  parsed number, or a string that is not all digits. \<open>version_key\<close> maps such a version into
  a lexicographic product that orders as \<^verbatim>\<open>compare\<close> does: the three numbers, then the
  versions with a prerelease part before those without, then the identifiers, a number
  before a string.
\<close>

fun exact_identifier :: "pre_id \<Rightarrow> bool" where
  "exact_identifier (Num n) = (n < MAX_SAFE_INTEGER)"
| "exact_identifier (Alnum s) = (\<not> list_all is_digit s)"

definition exact_version :: "SemVer \<Rightarrow> bool" where
  "exact_version v = list_all exact_identifier (prerelease v)"

fun identifier_key :: "pre_id \<Rightarrow> nat \<times> nat \<times> nat list" where
  "identifier_key (Num n) = (0, n, [])"
| "identifier_key (Alnum s) = (1, 0, map of_char s)"

definition version_key ::
  "SemVer \<Rightarrow> nat \<times> nat \<times> nat \<times> nat \<times> (nat \<times> nat \<times> nat list) list" where
  "version_key v =
     (major v, minor v, patch v, if prerelease v = [] then 1 else 0,
      map identifier_key (prerelease v))"

definition order_sign :: "'a::linorder \<Rightarrow> 'a \<Rightarrow> int" where
  "order_sign x y = (if x = y then 0 else if x < y then -1 else 1)"

datatype error = TypeError

text \<open>
  \<^verbatim>\<open>semver.gt(a, b)\<close> on strings: both are parsed, and a string that is no version throws.
\<close>

definition semver_gt :: "string \<Rightarrow> string \<Rightarrow> error + bool" where
  "semver_gt a b =
     (case (parse a, parse b) of
        (Some x, Some y) \<Rightarrow> Inr (compare x y > 0)
      | _ \<Rightarrow> Inl TypeError)"

subsection \<open>Increment: \<^verbatim>\<open>SemVer.inc\<close>\<close>

datatype release_type = Major | Minor | Patch | Premajor | Preminor | Prepatch | Prerelease

text \<open>
  The case \<^verbatim>\<open>'pre'\<close> with no identifier and no identifier base: the rightmost numeric
  identifier is incremented; with none to increment, \<open>0\<close> is appended.
\<close>

fun inc_rightmost :: "pre_id list \<Rightarrow> pre_id list option" where
  "inc_rightmost [] = None"
| "inc_rightmost (x # xs) =
     (case inc_rightmost xs of
        Some ys \<Rightarrow> Some (x # ys)
      | None \<Rightarrow> (case x of Num n \<Rightarrow> Some (Num (n + 1) # xs) | Alnum s \<Rightarrow> None))"

definition inc_pre :: "SemVer \<Rightarrow> SemVer" where
  "inc_pre v =
     (if prerelease v = [] then v\<lparr>prerelease := [Num 0]\<rparr>
      else (case inc_rightmost (prerelease v) of
              Some ids \<Rightarrow> v\<lparr>prerelease := ids\<rparr>
            | None \<Rightarrow> v\<lparr>prerelease := prerelease v @ [Num 0]\<rparr>))"

definition inc_patch :: "SemVer \<Rightarrow> SemVer" where
  "inc_patch v =
     (if prerelease v = [] then v\<lparr>patch := patch v + 1\<rparr> else v)\<lparr>prerelease := []\<rparr>"

definition SemVer_inc :: "SemVer \<Rightarrow> release_type \<Rightarrow> SemVer" where
  "SemVer_inc v release =
     (case release of
        Premajor \<Rightarrow> inc_pre (v\<lparr>prerelease := [], patch := 0, minor := 0, major := major v + 1\<rparr>)
      | Preminor \<Rightarrow> inc_pre (v\<lparr>prerelease := [], patch := 0, minor := minor v + 1\<rparr>)
      | Prepatch \<Rightarrow> inc_pre (inc_patch (v\<lparr>prerelease := []\<rparr>))
      | Prerelease \<Rightarrow> inc_pre (if prerelease v = [] then inc_patch v else v)
      | Major \<Rightarrow>
          (if minor v \<noteq> 0 \<or> patch v \<noteq> 0 \<or> prerelease v = [] then v\<lparr>major := major v + 1\<rparr> else v)
            \<lparr>minor := 0, patch := 0, prerelease := []\<rparr>
      | Minor \<Rightarrow>
          (if patch v \<noteq> 0 \<or> prerelease v = [] then v\<lparr>minor := minor v + 1\<rparr> else v)
            \<lparr>patch := 0, prerelease := []\<rparr>
      | Patch \<Rightarrow> inc_patch v)"

text \<open>
  \<^verbatim>\<open>semver.inc(version, release)\<close>: the text of the incremented version, \<^verbatim>\<open>null\<close> when
  the string is no version.
\<close>

definition semver_inc :: "string \<Rightarrow> release_type \<Rightarrow> string option" where
  "semver_inc version release =
     (case parse version of None \<Rightarrow> None | Some v \<Rightarrow> Some (format (SemVer_inc v release)))"

section \<open>The version calculator (\<^verbatim>\<open>lib/get-next-version.js\<close>)\<close>

text \<open>
  The code of the module stands in \<^verbatim>\<open>src/lib/definitions/constants.js\<close>, after the
  constants (lines 19 to 92).
\<close>

text \<open>
  The lookup \<^verbatim>\<open>{major: "minor", minor: "patch", patch: "patch"}[release] ?? release\<close>.
\<close>

fun dampen :: "release_type \<Rightarrow> release_type" where
  "dampen Major = Minor"
| "dampen Minor = Patch"
| "dampen Patch = Patch"
| "dampen release = release"

text \<open>
  \<^verbatim>\<open>inc(version, release)\<close>: destructuring the \<^verbatim>\<open>null\<close> of a string that is no version
  throws.
\<close>

definition inc :: "string \<Rightarrow> release_type \<Rightarrow> error + string option" where
  "inc version release =
     (case parse version of
        None \<Rightarrow> Inl TypeError
      | Some v \<Rightarrow> Inr (semver_inc version (if major v = 0 then dampen release else release)))"

subsection \<open>Data of the calculator\<close>

text \<open>
  A channel is a name or \<^verbatim>\<open>null\<close> (the default channel); \<open>None\<close> also stands for a channel
  that is \<^verbatim>\<open>undefined\<close>.
\<close>

type_synonym channel = "string option"

record tag =
  gitTag :: string
  version :: string
  channels :: "channel list"

datatype branch_type = ReleaseBranch | MaintenanceBranch | PrereleaseBranch

text \<open>
  A classified branch. \<open>b_prerelease\<close> is the prerelease identifier printed into the version,
  \<open>b_range\<close> and \<open>b_mergeRange\<close> are the ranges the orchestrator checks, \<open>b_channel\<close> the channel
  the branch releases to.
\<close>

record branch =
  b_name :: string
  b_type :: branch_type
  b_prerelease :: string
  b_channel :: channel
  b_range :: "string option"
  b_mergeRange :: "string option"
  b_tags :: "tag list"

text \<open>The last release; every field is \<^verbatim>\<open>undefined\<close> when there is none.\<close>

record lastRelease =
  lr_version :: "string option"
  lr_channels :: "channel list"
  lr_gitTag :: "string option"
  lr_gitHead :: "string option"

text \<open>The options the calculator reads; \<open>None\<close> is an option left \<^verbatim>\<open>undefined\<close>.\<close>

record options =
  respectPackageJsonVersion :: "bool option"
  firstRelease :: "string option"
  prereleaseIdentifierBase :: "string option"

text \<open>What the calculator destructures from the context.\<close>

record version_context =
  vc_branch :: branch
  vc_type :: release_type
  vc_channel :: channel
  vc_lastRelease :: lastRelease
  vc_packageVersion :: "string option"
  vc_options :: options

definition DEFAULT_FIRST_RELEASE :: string where
  "DEFAULT_FIRST_RELEASE = ''1.0.0''"

definition DEFAULT_PRERELEASE_IDENTIFIER_BASE :: string where
  "DEFAULT_PRERELEASE_IDENTIFIER_BASE = ''1''"

subsection \<open>Helpers of \<^verbatim>\<open>lib/utils.js\<close>\<close>

text \<open>
  Modelled from the spec: \<^verbatim>\<open>lib/utils.js\<close> is not among the sources, so
  \<^verbatim>\<open>tagsToVersions\<close>, \<^verbatim>\<open>getLatestVersion\<close>, \<^verbatim>\<open>highest\<close> and \<^verbatim>\<open>isSameChannel\<close> follow
  how the calculator calls them and what the specification says of them: the versions of a
  tag list; the highest version of a list by semver precedence, prerelease versions included
  when the flag \<^verbatim>\<open>withPrerelease\<close> is set (the first of several equal ones; \<^verbatim>\<open>undefined\<close>
  for an empty list); the semver-greater of two versions, an absent one losing; and "the
  channel name the new release targets already appears in the channel list". The highest
  version is found by one scan of the list that keeps the best version so far; on versions
  whose identifiers are compared exactly, where precedence is a linear order, this is the
  first element of the list sorted from the highest down.
\<close>

definition tagsToVersions :: "tag list \<Rightarrow> string list" where
  "tagsToVersions tags = map version tags"

fun latest_from :: "string \<Rightarrow> string list \<Rightarrow> error + string" where
  "latest_from best [] = Inr best"
| "latest_from best (v # vs) =
     (case semver_gt v best of
        Inl e \<Rightarrow> Inl e
      | Inr g \<Rightarrow> latest_from (if g then v else best) vs)"

definition getLatestVersion :: "string list \<Rightarrow> bool \<Rightarrow> error + string option" where
  "getLatestVersion versions withPrerelease =
     (case filter (\<lambda>v. withPrerelease \<or> semver_prerelease v = None) versions of
        [] \<Rightarrow> Inr None
      | v # vs \<Rightarrow> (case latest_from v vs of Inl e \<Rightarrow> Inl e | Inr r \<Rightarrow> Inr (Some r)))"

definition highest :: "string option \<Rightarrow> string option \<Rightarrow> error + string option" where
  "highest version1 version2 =
     (case (version1, version2) of
        (Some a, Some b) \<Rightarrow>
          (case semver_gt a b of Inl e \<Rightarrow> Inl e | Inr g \<Rightarrow> Inr (Some (if g then a else b)))
      | (Some a, None) \<Rightarrow> Inr (Some a)
      | (None, v2) \<Rightarrow> Inr v2)"

definition isSameChannel :: "channel \<Rightarrow> channel \<Rightarrow> bool" where
  "isSameChannel channel otherChannel = (channel = otherChannel)"

subsection \<open>\<^verbatim>\<open>getNextVersion\<close>\<close>

text \<open>A value printed inside a template literal: \<^verbatim>\<open>null\<close> and \<^verbatim>\<open>undefined\<close> print their names.\<close>

definition text_of :: "string \<Rightarrow> string option \<Rightarrow> string" where
  "text_of absent v = (case v of None \<Rightarrow> absent | Some s \<Rightarrow> s)"

text \<open>The suffix \<^verbatim>\<open>-${branch.prerelease}.${prereleaseIdentifierBase}\<close>.\<close>

definition prerelease_suffix :: "version_context \<Rightarrow> string" where
  "prerelease_suffix ctx =
     ''-'' @ b_prerelease (vc_branch ctx) @ ''.''
     @ (case prereleaseIdentifierBase (vc_options ctx) of
          None \<Rightarrow> DEFAULT_PRERELEASE_IDENTIFIER_BASE | Some b \<Rightarrow> b)"

text \<open>
  The condition of the inner \<^verbatim>\<open>if\<close>: the last release is a prerelease and one of its channels
  is the channel of the next release.
\<close>

definition continues_prerelease :: "version_context \<Rightarrow> string \<Rightarrow> bool" where
  "continues_prerelease ctx lv =
     (semver_prerelease lv \<noteq> None
      \<and> list_ex (\<lambda>lastReleaseChannel. isSameChannel lastReleaseChannel (vc_channel ctx))
           (lr_channels (vc_lastRelease ctx)))"

text \<open>The two arguments of \<^verbatim>\<open>highest\<close>, and the version of the \<^verbatim>\<open>else\<close> branch.\<close>

definition continuation_candidate :: "string \<Rightarrow> error + string option" where
  "continuation_candidate lv = inc lv Prerelease"

definition fresh_candidate :: "version_context \<Rightarrow> error + string" where
  "fresh_candidate ctx =
     (case getLatestVersion (tagsToVersions (b_tags (vc_branch ctx))) True of
        Inl e \<Rightarrow> Inl e
      | Inr None \<Rightarrow> Inl TypeError
      | Inr (Some latest) \<Rightarrow>
          (case inc latest (vc_type ctx) of
             Inl e \<Rightarrow> Inl e
           | Inr r \<Rightarrow> Inr (text_of ''null'' r @ prerelease_suffix ctx)))"

definition triplet_text :: "SemVer \<Rightarrow> string" where
  "triplet_text v = show_nat (major v) @ ''.'' @ show_nat (minor v) @ ''.'' @ show_nat (patch v)"

definition restart_candidate :: "version_context \<Rightarrow> SemVer \<Rightarrow> error + string" where
  "restart_candidate ctx v =
     (case inc (triplet_text v) (vc_type ctx) of
        Inl e \<Rightarrow> Inl e
      | Inr r \<Rightarrow> Inr (text_of ''null'' r @ prerelease_suffix ctx))"

text \<open>
  The default export. The result is the version, \<open>None\<close> when the code returns \<^verbatim>\<open>null\<close> or
  \<^verbatim>\<open>undefined\<close>, or the \<^verbatim>\<open>TypeError\<close> it throws. An empty version string is falsy, as a
  missing one is. The calls of the logger are left out.
\<close>

definition getNextVersion :: "version_context \<Rightarrow> error + string option" where
  "getNextVersion ctx =
     (case lr_version (vc_lastRelease ctx) of
        Some (c # cs) \<Rightarrow>
          (let lv = c # cs in
           case parse lv of
             None \<Rightarrow> Inl TypeError
           | Some v \<Rightarrow>
               if b_type (vc_branch ctx) = PrereleaseBranch then
                 (if continues_prerelease ctx lv then
                    (case continuation_candidate lv of
                       Inl e \<Rightarrow> Inl e
                     | Inr a \<Rightarrow>
                         (case fresh_candidate ctx of
                            Inl e \<Rightarrow> Inl e
                          | Inr b \<Rightarrow> highest a (Some b)))
                  else
                    (case restart_candidate ctx v of Inl e \<Rightarrow> Inl e | Inr r \<Rightarrow> Inr (Some r)))
               else inc lv (vc_type ctx))
      | _ \<Rightarrow>
          (let first =
                 (if respectPackageJsonVersion (vc_options ctx) = Some True then vc_packageVersion ctx
                  else (case firstRelease (vc_options ctx) of
                          None \<Rightarrow> Some DEFAULT_FIRST_RELEASE | Some f \<Rightarrow> Some f))
           in if b_type (vc_branch ctx) = PrereleaseBranch
              then Inr (Some (text_of ''undefined'' first @ prerelease_suffix ctx))
              else Inr first))"

subsection \<open>Example contexts\<close>

text \<open>
  The contexts of the repository's tests of the calculator: a branch whose prerelease
  identifier is its name, with default options (first release \<^verbatim>\<open>1.0.0\<close>, identifier
  base \<^verbatim>\<open>1\<close>).
\<close>

definition example_tag :: "string \<Rightarrow> channel list \<Rightarrow> tag" where
  "example_tag v cs = \<lparr>gitTag = ''v'' @ v, version = v, channels = cs\<rparr>"

definition example_context ::
  "string \<Rightarrow> branch_type \<Rightarrow> tag list \<Rightarrow> release_type \<Rightarrow> channel \<Rightarrow> string \<Rightarrow> channel list
   \<Rightarrow> version_context" where
  "example_context nm ty tgs rt ch lv lch =
     \<lparr>vc_branch = \<lparr>b_name = nm, b_type = ty, b_prerelease = nm, b_channel = ch, b_range = None,
                    b_mergeRange = None, b_tags = tgs\<rparr>,
      vc_type = rt, vc_channel = ch,
      vc_lastRelease = \<lparr>lr_version = Some lv, lr_channels = lch, lr_gitTag = Some (''v'' @ lv),
                         lr_gitHead = None\<rparr>,
      vc_packageVersion = None,
      vc_options = \<lparr>respectPackageJsonVersion = None, firstRelease = None,
                      prereleaseIdentifierBase = None\<rparr>\<rparr>"

subsection \<open>The prerelease rule as the specification words it\<close>

text \<open>
  Rule 4 of the specification's version calculator, written from its words and not from the
  code, to be compared with \<open>getNextVersion\<close>: the fresh candidate bumps the highest
  \<^verbatim>\<open>major.minor.patch\<close> triplet among the branch's tags, prerelease suffixes ignored, by the
  (dampened) requested type and appends the suffix; the result is the semver-greater of
  the continuation candidate, where it applies, and the fresh candidate.
\<close>

definition spec_highest_triplet :: "tag list \<Rightarrow> SemVer option" where
  "spec_highest_triplet tags =
     fold (\<lambda>t best.
             case parse (version t) of
               None \<Rightarrow> best
             | Some w \<Rightarrow>
                 (case best of
                    None \<Rightarrow> Some (w\<lparr>prerelease := []\<rparr>)
                  | Some b \<Rightarrow> if compareMain w b > 0 then Some (w\<lparr>prerelease := []\<rparr>) else best))
          tags None"

definition spec_fresh_candidate :: "version_context \<Rightarrow> string option" where
  "spec_fresh_candidate ctx =
     (case spec_highest_triplet (b_tags (vc_branch ctx)) of
        None \<Rightarrow> None
      | Some w \<Rightarrow>
          Some (format (SemVer_inc w (if major w = 0 then dampen (vc_type ctx) else vc_type ctx))
                @ prerelease_suffix ctx))"

definition spec_prerelease_version :: "version_context \<Rightarrow> string \<Rightarrow> string option" where
  "spec_prerelease_version ctx lv =
     (case spec_fresh_candidate ctx of
        None \<Rightarrow> None
      | Some fresh \<Rightarrow>
          if continues_prerelease ctx lv then
            (case semver_inc lv Prerelease of
               None \<Rightarrow> Some fresh
             | Some continuation \<Rightarrow>
                 (case semver_gt continuation fresh of
                    Inr True \<Rightarrow> Some continuation
                  | _ \<Rightarrow> Some fresh))
          else Some fresh)"

section \<open>Branch classification and validation (\<^verbatim>\<open>lib/definitions/branches.js\<close>)\<close>

text \<open>
  A branch as the classifier sees it. The fields \<^verbatim>\<open>range\<close> and \<^verbatim>\<open>prerelease\<close> are JavaScript
  values: absent (\<^verbatim>\<open>null\<close> or \<^verbatim>\<open>undefined\<close>), a boolean or a string.
\<close>

datatype field_value = Absent | Flag bool | Text string

record branch_spec =
  bs_name :: string
  bs_range :: field_value
  bs_prerelease :: field_value

text \<open>
  Modelled from the spec: \<^verbatim>\<open>isMaintenanceRange\<close> of \<^verbatim>\<open>lib/utils.js\<close> is not among the
  sources. A maintenance range is "formatted like \<^verbatim>\<open>N.N.x\<close> or \<^verbatim>\<open>N.x\<close> (\<^verbatim>\<open>N\<close> is a
  number)"; \<^verbatim>\<open>N.x.x\<close> is accepted with them, as the option documentation of the type
  declarations lists it. The last component is always \<^verbatim>\<open>x\<close>.
\<close>

definition is_number_text :: "string \<Rightarrow> bool" where
  "is_number_text s = (s \<noteq> [] \<and> list_all is_digit s)"

definition is_x :: "string \<Rightarrow> bool" where
  "is_x s = (s = ''x'')"

definition isMaintenanceRange :: "string \<Rightarrow> bool" where
  "isMaintenanceRange s =
     (case split_on CHR ''.'' s of
        [a, b] \<Rightarrow> is_number_text a \<and> is_x b
      | [a, b, c] \<Rightarrow> is_number_text a \<and> (is_number_text b \<or> is_x b) \<and> is_x c
      | _ \<Rightarrow> False)"

text \<open>\<^verbatim>\<open>isMaintenanceRange\<close> applied to a field: a boolean is tested as its text and fails.\<close>

fun isMaintenanceRange_value :: "field_value \<Rightarrow> bool" where
  "isMaintenanceRange_value (Text s) = isMaintenanceRange s"
| "isMaintenanceRange_value _ = False"

text \<open>
  \<^verbatim>\<open>uniqBy(array, iteratee)\<close> of lodash: the first element of every key, in order. The keys
  seen so far are kept in a list.
\<close>

fun uniqBy_from :: "'k list \<Rightarrow> ('a \<Rightarrow> 'k) \<Rightarrow> 'a list \<Rightarrow> 'a list" where
  "uniqBy_from seen f [] = []"
| "uniqBy_from seen f (x # xs) =
     (if f x \<in> set seen then uniqBy_from seen f xs else x # uniqBy_from (f x # seen) f xs)"

definition uniqBy :: "('a \<Rightarrow> 'k) \<Rightarrow> 'a list \<Rightarrow> 'a list" where
  "uniqBy f xs = uniqBy_from [] f xs"

text \<open>A field read as a condition, as in \<^verbatim>\<open>Boolean(prerelease)\<close>.\<close>

fun truthy :: "field_value \<Rightarrow> bool" where
  "truthy Absent = False"
| "truthy (Flag b) = b"
| "truthy (Text s) = (s \<noteq> [])"

subsection \<open>\<^verbatim>\<open>maintenance\<close>\<close>

definition maintenance_filter :: "branch_spec \<Rightarrow> bool" where
  "maintenance_filter b =
     ((bs_range b \<noteq> Absent \<and> bs_range b \<noteq> Flag False) \<or> isMaintenanceRange (bs_name b))"

definition maintenance_branchValidator :: "branch_spec \<Rightarrow> bool" where
  "maintenance_branchValidator b =
     (if bs_range b = Absent then True else isMaintenanceRange_value (bs_range b))"

text \<open>
  \<^verbatim>\<open>semver.validRange\<close> is a function of the external semver package and is a parameter
  here: the normal form of a range, or \<^verbatim>\<open>null\<close> (\<open>None\<close>) for what is no range.
\<close>

definition maintenance_branchesValidator ::
  "(field_value \<Rightarrow> string option) \<Rightarrow> branch_spec list \<Rightarrow> bool" where
  "maintenance_branchesValidator validRange branches =
     (length (uniqBy (\<lambda>b. validRange (bs_range b)) branches) = length branches)"

subsection \<open>\<^verbatim>\<open>prerelease\<close>\<close>

definition prerelease_filter :: "branch_spec \<Rightarrow> bool" where
  "prerelease_filter b = (bs_prerelease b \<noteq> Absent \<and> bs_prerelease b \<noteq> Flag False)"

text \<open>
  The prerelease identifier printed into the first version: the branch name when the field
  is \<^verbatim>\<open>true\<close>, the text of the field otherwise.
\<close>

fun prerelease_text :: "string \<Rightarrow> field_value \<Rightarrow> string" where
  "prerelease_text nm (Flag True) = nm"
| "prerelease_text nm (Flag False) = ''false''"
| "prerelease_text nm Absent = ''undefined''"
| "prerelease_text nm (Text s) = s"

definition prerelease_branchValidator :: "string option \<Rightarrow> options \<Rightarrow> branch_spec \<Rightarrow> bool" where
  "prerelease_branchValidator packageVersion opts b =
     (let first =
            (if respectPackageJsonVersion opts = Some True then packageVersion
             else (case firstRelease opts of None \<Rightarrow> Some DEFAULT_FIRST_RELEASE | Some f \<Rightarrow> Some f));
          base = (case prereleaseIdentifierBase opts of
                    None \<Rightarrow> DEFAULT_PRERELEASE_IDENTIFIER_BASE | Some x \<Rightarrow> x)
      in truthy (bs_prerelease b)
         \<and> parse (text_of ''undefined'' first @ ''-''
                   @ prerelease_text (bs_name b) (bs_prerelease b) @ ''.'' @ base) \<noteq> None)"

definition prerelease_branchesValidator :: "branch_spec list \<Rightarrow> bool" where
  "prerelease_branchesValidator branches =
     (length (uniqBy bs_prerelease branches) = length branches)"

subsection \<open>\<^verbatim>\<open>release\<close>\<close>

definition release_filter :: "branch_spec \<Rightarrow> bool" where
  "release_filter b = (\<not> maintenance_filter b \<and> \<not> prerelease_filter b)"

definition release_branchesValidator :: "branch_spec list \<Rightarrow> bool" where
  "release_branchesValidator branches = (length branches \<le> 3 \<and> length branches > 0)"

subsection \<open>Validation of a branch set\<close>

text \<open>
  Modelled from the spec: \<^verbatim>\<open>lib/branches/normalize.js\<close> is not among the sources. The
  range of a maintenance branch is the declared one and is "inferred from \<^verbatim>\<open>name\<close>" when
  none is declared (\<^verbatim>\<open>range || name\<close>); the identifier of a prerelease branch is its field
  \<^verbatim>\<open>prerelease\<close>, the value \<^verbatim>\<open>true\<close> "meaning use the branch name as identifier". The other
  fields that normalisation computes (channel, tags, the bounds of the versions a branch may
  release) are not read by the validators.
\<close>

definition maintenance_range :: "branch_spec \<Rightarrow> field_value" where
  "maintenance_range b = (if truthy (bs_range b) then bs_range b else Text (bs_name b))"

definition preid :: "branch_spec \<Rightarrow> field_value" where
  "preid b = (if bs_prerelease b = Flag True then Text (bs_name b) else bs_prerelease b)"

definition normalize_maintenance :: "branch_spec list \<Rightarrow> branch_spec list" where
  "normalize_maintenance branches = map (\<lambda>b. b\<lparr>bs_range := maintenance_range b\<rparr>) branches"

definition normalize_prerelease :: "branch_spec list \<Rightarrow> branch_spec list" where
  "normalize_prerelease branches = map (\<lambda>b. b\<lparr>bs_prerelease := preid b\<rparr>) branches"

text \<open>
  Modelled from the spec: \<^verbatim>\<open>lib/branches/index.js\<close>, which applies the definitions above,
  is not among the sources. The specification's classifier takes the three partition rules
  "in priority order" (maintenance, prerelease, release), runs the validators of each
  category on its branches and makes the "failure of any validator" a fatal configuration
  error "enumerating every offending branch". The error lists, per category, the branches
  that fail the validator of a single branch, and the category itself when its validator
  of the whole list fails. The validator of a single branch sees the branch as declared,
  the validator of a list the normalised branches of the category.
\<close>

datatype branch_error =
  EMAINTENANCEBRANCH branch_spec | EMAINTENANCEBRANCHES "branch_spec list"
  | EPRERELEASEBRANCH branch_spec | EPRERELEASEBRANCHES "branch_spec list"
  | ERELEASEBRANCHES "branch_spec list"

definition maintenance_branches :: "branch_spec list \<Rightarrow> branch_spec list" where
  "maintenance_branches branches = filter maintenance_filter branches"

definition prerelease_branches :: "branch_spec list \<Rightarrow> branch_spec list" where
  "prerelease_branches branches =
     filter (\<lambda>b. \<not> maintenance_filter b \<and> prerelease_filter b) branches"

definition release_branches :: "branch_spec list \<Rightarrow> branch_spec list" where
  "release_branches branches = filter release_filter branches"

definition validation_errors ::
  "(field_value \<Rightarrow> string option) \<Rightarrow> string option \<Rightarrow> options \<Rightarrow> branch_spec list
   \<Rightarrow> branch_error list" where
  "validation_errors validRange packageVersion opts branches =
     map EMAINTENANCEBRANCH
       (filter (\<lambda>b. \<not> maintenance_branchValidator b) (maintenance_branches branches))
     @ (if maintenance_branchesValidator validRange
             (normalize_maintenance (maintenance_branches branches)) then []
        else [EMAINTENANCEBRANCHES (normalize_maintenance (maintenance_branches branches))])
     @ map EPRERELEASEBRANCH
         (filter (\<lambda>b. \<not> prerelease_branchValidator packageVersion opts b)
            (prerelease_branches branches))
     @ (if prerelease_branchesValidator (normalize_prerelease (prerelease_branches branches)) then []
        else [EPRERELEASEBRANCHES (normalize_prerelease (prerelease_branches branches))])
     @ (if release_branchesValidator (release_branches branches) then []
        else [ERELEASEBRANCHES (release_branches branches)])"

definition accepted ::
  "(field_value \<Rightarrow> string option) \<Rightarrow> string option \<Rightarrow> options \<Rightarrow> branch_spec list \<Rightarrow> bool" where
  "accepted validRange packageVersion opts branches =
     (validation_errors validRange packageVersion opts branches = [])"

section \<open>The release pipeline (\<^verbatim>\<open>index.js\<close>)\<close>

subsection \<open>Errors\<close>

text \<open>
  A thrown value is one error or an \<^verbatim>\<open>AggregateError\<close> of several. An error made by
  \<^verbatim>\<open>getError\<close> carries the flag \<^verbatim>\<open>semanticRelease\<close> and its code; any other error (a failing
  git command, a \<^verbatim>\<open>TypeError\<close>, what a plugin throws) is named by a text.
\<close>

datatype failure = SemanticReleaseError string | OtherError string

datatype thrown = Single failure | AggregateError "failure list"

fun semanticRelease :: "failure \<Rightarrow> bool" where
  "semanticRelease (SemanticReleaseError code) = True"
| "semanticRelease (OtherError msg) = False"

definition getError :: "string \<Rightarrow> failure" where
  "getError code = SemanticReleaseError code"

text \<open>
  Modelled from the spec: \<^verbatim>\<open>extractErrors\<close> of \<^verbatim>\<open>lib/utils.js\<close> is not among the sources.
  It gives "the aggregated error set": the errors of an aggregate, a single error alone.
\<close>

fun extractErrors :: "thrown \<Rightarrow> failure list" where
  "extractErrors (AggregateError errors) = errors"
| "extractErrors (Single e) = [e]"

subsection \<open>Calls of collaborators and their trace\<close>

text \<open>
  Every place where \<^verbatim>\<open>run\<close> awaits a collaborator (a git command of \<^verbatim>\<open>lib/git.js\<close>, a
  plugin step, a helper that reads the repository) is a site; the sites of the add-channel
  path are marked \<open>add\<close>. The trace of an execution lists the sites in the order they were
  called, each with whether the call returned or threw. The calls of the logger and the
  rendering of the release notes on the terminal are left out.
\<close>

datatype site =
  S_getConfig | S_verify | S_getGitAuthUrl | S_getBranches | S_verifyAuth | S_isBranchUpToDate
  | S_verifyConditions
  | S_add_getTagHead_next | S_add_getTagHead_current | S_add_getCommits | S_add_generateNotes
  | S_add_addNote | S_add_push | S_add_pushNotes | S_addChannel | S_add_success
  | S_getTagHead_last | S_getCommits | S_analyzeCommits | S_getGitHead
  | S_verifyRelease | S_generateNotes | S_prepare
  | S_tag | S_addNote | S_push | S_pushNotes | S_publish | S_success
  | S_fail "failure list"

datatype event = Returned site | Threw site | LogErrors thrown

fun site_of :: "event \<Rightarrow> site option" where
  "site_of (Returned s) = Some s"
| "site_of (Threw s) = Some s"
| "site_of (LogErrors e) = None"

text \<open>
  The git mutations of \<^verbatim>\<open>run\<close>: tag creation, note writes and pushes. The
  \<^verbatim>\<open>git push --dry-run\<close> of \<^verbatim>\<open>verifyAuth\<close> probes the remote and changes nothing, so
  it is none of them.
\<close>

definition mutation_site :: "site \<Rightarrow> bool" where
  "mutation_site s =
     (s = S_add_addNote \<or> s = S_add_push \<or> s = S_add_pushNotes
      \<or> s = S_tag \<or> s = S_addNote \<or> s = S_push \<or> s = S_pushNotes)"

definition is_mutation :: "event \<Rightarrow> bool" where
  "is_mutation e = (case site_of e of None \<Rightarrow> False | Some s \<Rightarrow> mutation_site s)"

subsection \<open>Data of the pipeline\<close>

type_synonym commit = string

record release =
  rel_name :: string
  rel_version :: "string option"
  rel_gitTag :: "string option"
  rel_channel :: channel

record nextRelease =
  nr_type :: release_type
  nr_channel :: channel
  nr_gitHead :: string
  nr_version :: "string option"
  nr_gitTag :: string
  nr_name :: string
  nr_notes :: string

text \<open>What \<^verbatim>\<open>getReleaseToAdd\<close> returns: the release to add to a channel and the one it follows.\<close>

record release_to_add =
  rta_lastRelease :: lastRelease
  rta_current_channels :: "channel list"
  rta_current_gitHead :: string
  rta_version :: string
  rta_channel :: channel
  rta_gitTag :: string
  rta_gitHead :: string

text \<open>
  The tag template \<^verbatim>\<open>tagFormat\<close> is kept as the text before and the text after its
  placeholder \<^verbatim>\<open>${version}\<close>; \<^verbatim>\<open>makeTag\<close> (of \<^verbatim>\<open>lib/utils.js\<close>) renders it, a version that is
  \<^verbatim>\<open>null\<close> printing as the empty text.
\<close>

record run_options =
  dryRun :: bool
  noCi :: bool
  publishOnPr :: bool
  tagFormat :: "string \<times> string"
  calculator_options :: options

definition makeTag :: "string \<times> string \<Rightarrow> string option \<Rightarrow> string" where
  "makeTag fmt v = fst fmt @ text_of [] v @ snd fmt"

record envCi =
  isCi :: bool
  ci_branch :: string
  prBranch :: string
  isPr :: bool

record run_input =
  in_envCi :: envCi
  in_options :: run_options
  in_packageVersion :: "string option"

text \<open>
  The collaborators: for every site whether the call throws, and what the calls return.
  \<^verbatim>\<open>semver.satisfies\<close>, \<^verbatim>\<open>semver.validRange\<close> and the helpers \<^verbatim>\<open>getReleaseToAdd\<close> and
  \<^verbatim>\<open>getLastRelease\<close> (not among the sources) are functions of this record.
  \<open>w_remoteBranches\<close> are the declared branches found on the remote, \<open>w_branches\<close> the same
  branches once normalised and given their tags.
\<close>

record world =
  throws :: "site \<Rightarrow> thrown option"
  w_repositoryUrl :: string
  w_remoteBranches :: "branch_spec list"
  w_validRange :: "field_value \<Rightarrow> string option"
  w_branches :: "branch list"
  w_isBranchUpToDate :: bool
  w_releaseToAdd :: "branch \<Rightarrow> release_to_add option"
  w_satisfies :: "string option \<Rightarrow> string option \<Rightarrow> bool"
  w_tagHead :: "string \<Rightarrow> string"
  w_add_commits :: "commit list"
  w_add_notes :: string
  w_addChannel :: "release list"
  w_getLastRelease :: "branch \<Rightarrow> lastRelease"
  w_commits :: "commit list"
  w_analyzeCommits :: "release_type option"
  w_gitHead :: string
  w_notes :: string
  w_publish :: "release list"

text \<open>
  The result of \<^verbatim>\<open>run\<close>: \<^verbatim>\<open>false\<close>, the object \<^verbatim>\<open>{ releases }\<close>, or the object picked from
  the context with \<^verbatim>\<open>lastRelease\<close>, \<^verbatim>\<open>commits\<close>, \<^verbatim>\<open>nextRelease\<close> and \<^verbatim>\<open>releases\<close>.
\<close>

datatype run_result =
  NoRelease
  | ReleasesOnly "release list"
  | Released lastRelease "commit list" nextRelease "release list"

subsection \<open>Sequencing\<close>

text \<open>
  A step gives the trace of its calls and either what it threw or its value. \<open>and_then\<close> runs
  a second step after a first that did not throw; \<open>call\<close> is an awaited call of a site.
\<close>

type_synonym 'a step = "event list \<times> (thrown + 'a)"

definition returns :: "'a \<Rightarrow> 'a step" where
  "returns v = ([], Inr v)"

definition throw :: "thrown \<Rightarrow> 'a step" where
  "throw e = ([], Inl e)"

definition call :: "world \<Rightarrow> site \<Rightarrow> 'a \<Rightarrow> 'a step" where
  "call w s v = (case throws w s of Some e \<Rightarrow> ([Threw s], Inl e) | None \<Rightarrow> ([Returned s], Inr v))"

definition and_then :: "'a step \<Rightarrow> ('a \<Rightarrow> 'b step) \<Rightarrow> 'b step" where
  "and_then m k =
     (case m of
        (t, Inl e) \<Rightarrow> (t, Inl e)
      | (t, Inr a) \<Rightarrow> (case k a of (t', r) \<Rightarrow> (t @ t', r)))"

subsection \<open>\<^verbatim>\<open>run\<close>\<close>

text \<open>
  The dry-run mode in force: the option, or forced when the run is not on a known CI and
  neither \<^verbatim>\<open>dryRun\<close> nor \<^verbatim>\<open>noCi\<close> is set.
\<close>

definition effective_dryRun :: "run_input \<Rightarrow> bool" where
  "effective_dryRun inp =
     (if \<not> isCi (in_envCi inp) \<and> \<not> dryRun (in_options inp) \<and> \<not> noCi (in_options inp) then True
      else dryRun (in_options inp))"

definition ciBranch :: "run_input \<Rightarrow> string" where
  "ciBranch inp = (if isPr (in_envCi inp) then prBranch (in_envCi inp) else ci_branch (in_envCi inp))"

text \<open>
  The permission probe: \<open>True\<close> when the run goes on, \<open>False\<close> when the local branch is behind
  the remote one and the run returns \<^verbatim>\<open>false\<close>.
\<close>

definition verify_auth :: "world \<Rightarrow> bool step" where
  "verify_auth w =
     (case throws w S_verifyAuth of
        None \<Rightarrow> ([Returned S_verifyAuth], Inr True)
      | Some error \<Rightarrow>
          (case throws w S_isBranchUpToDate of
             Some e \<Rightarrow>
               ([Threw S_verifyAuth, Threw S_isBranchUpToDate], Inl (Single (getError ''EGITNOPERMISSION'')))
           | None \<Rightarrow>
               if \<not> w_isBranchUpToDate w
               then ([Threw S_verifyAuth, Returned S_isBranchUpToDate], Inr False)
               else ([Threw S_verifyAuth, Returned S_isBranchUpToDate],
                     Inl (Single (getError ''EGITNOPERMISSION'')))))"

text \<open>
  Modelled from the spec: \<^verbatim>\<open>getBranches\<close> of \<^verbatim>\<open>lib/branches/index.js\<close> is not among the
  sources. The call expands and fetches the branches and resolves their tags, which may
  throw as any git command may, and then validates the branch set: "failure of any
  validator is a fatal configuration error enumerating every offending branch", an
  aggregate of one semantic-release error for each entry of \<open>validation_errors\<close>.
\<close>

fun branch_failure :: "branch_error \<Rightarrow> failure" where
  "branch_failure (EMAINTENANCEBRANCH b) = getError ''EMAINTENANCEBRANCH''"
| "branch_failure (EMAINTENANCEBRANCHES bs) = getError ''EMAINTENANCEBRANCHES''"
| "branch_failure (EPRERELEASEBRANCH b) = getError ''EPRERELEASEBRANCH''"
| "branch_failure (EPRERELEASEBRANCHES bs) = getError ''EPRERELEASEBRANCHES''"
| "branch_failure (ERELEASEBRANCHES bs) = getError ''ERELEASEBRANCHES''"

definition branch_errors :: "world \<Rightarrow> run_input \<Rightarrow> branch_error list" where
  "branch_errors w inp =
     validation_errors (w_validRange w) (in_packageVersion inp)
       (calculator_options (in_options inp)) (w_remoteBranches w)"

definition getBranches_error :: "world \<Rightarrow> run_input \<Rightarrow> thrown option" where
  "getBranches_error w inp =
     (case throws w S_getBranches of
        Some e \<Rightarrow> Some e
      | None \<Rightarrow>
          if length (branch_errors w inp) > 0
          then Some (AggregateError (map branch_failure (branch_errors w inp)))
          else None)"

definition getBranches :: "world \<Rightarrow> run_input \<Rightarrow> branch list step" where
  "getBranches w inp =
     (case getBranches_error w inp of
        Some e \<Rightarrow> ([Threw S_getBranches], Inl e)
      | None \<Rightarrow> ([Returned S_getBranches], Inr (w_branches w)))"

text \<open>The git mutations of a release, skipped in dry-run mode.\<close>

definition add_channel_mutations :: "world \<Rightarrow> bool \<Rightarrow> unit step" where
  "add_channel_mutations w dry =
     (if dry then returns ()
      else and_then (call w S_add_addNote ()) (\<lambda>_.
           and_then (call w S_add_push ()) (\<lambda>_.
           call w S_add_pushNotes ())))"

definition release_mutations :: "world \<Rightarrow> bool \<Rightarrow> unit step" where
  "release_mutations w dry =
     (if dry then returns ()
      else and_then (call w S_tag ()) (\<lambda>_.
           and_then (call w S_addNote ()) (\<lambda>_.
           and_then (call w S_push ()) (\<lambda>_.
           call w S_pushNotes ()))))"

text \<open>
  The add-channel path, from \<^verbatim>\<open>getReleaseToAdd\<close> to the \<^verbatim>\<open>AggregateError\<close> of the collected
  errors. It gives the releases accumulated and the branch with the tag it appended. The
  appended entry has the field \<^verbatim>\<open>channel\<close> where a resolved tag has \<^verbatim>\<open>channels\<close>; it is kept
  here as the one element of \<open>channels\<close>, which \<^verbatim>\<open>run\<close> does not read.
\<close>

definition add_channel :: "world \<Rightarrow> bool \<Rightarrow> branch \<Rightarrow> (release list \<times> branch) step" where
  "add_channel w dry br =
     (case w_releaseToAdd w br of
        None \<Rightarrow> returns ([], br)
      | Some rta \<Rightarrow>
          and_then (call w S_add_getTagHead_next (w_tagHead w (rta_gitHead rta))) (\<lambda>nextHead.
          and_then (call w S_add_getTagHead_current (w_tagHead w (rta_current_gitHead rta))) (\<lambda>currentHead.
            if (case b_mergeRange br of None \<Rightarrow> False | Some r \<Rightarrow> r \<noteq> [])
               \<and> \<not> w_satisfies w (Some (rta_version rta)) (b_mergeRange br)
            then throw (AggregateError [getError ''EINVALIDMAINTENANCEMERGE''])
            else
              and_then (call w S_add_getCommits (w_add_commits w)) (\<lambda>commits.
              and_then (call w S_add_generateNotes (w_add_notes w)) (\<lambda>notes.
              and_then (add_channel_mutations w dry) (\<lambda>_.
              and_then (call w S_addChannel (w_addChannel w)) (\<lambda>releases.
              and_then (call w S_add_success ()) (\<lambda>_.
                returns (releases,
                  br\<lparr>b_tags := b_tags br
                        @ [\<lparr>gitTag = rta_gitTag rta, version = rta_version rta,
                             channels = [rta_channel rta]\<rparr>]\<rparr>)))))))))"

text \<open>The context handed to the version calculator.\<close>

definition calculator_context ::
  "run_input \<Rightarrow> branch \<Rightarrow> lastRelease \<Rightarrow> release_type \<Rightarrow> channel \<Rightarrow> version_context" where
  "calculator_context inp br lr ty ch =
     \<lparr>vc_branch = br, vc_type = ty, vc_channel = ch, vc_lastRelease = lr,
      vc_packageVersion = in_packageVersion inp,
      vc_options = calculator_options (in_options inp)\<rparr>"

text \<open>
  The new-release path once the version is computed: the check against the range of the
  branch, the plugin steps, the git mutations, and the result.
\<close>

definition publish_release ::
  "world \<Rightarrow> run_input \<Rightarrow> branch \<Rightarrow> lastRelease \<Rightarrow> commit list \<Rightarrow> nextRelease \<Rightarrow> release list
   \<Rightarrow> run_result step" where
  "publish_release w inp br lr commits nr added =
     (if b_type br \<noteq> PrereleaseBranch \<and> \<not> w_satisfies w (nr_version nr) (b_range br)
      then throw (Single (getError ''EINVALIDNEXTVERSION''))
      else
        and_then (call w S_verifyRelease ()) (\<lambda>_.
        and_then (call w S_generateNotes (w_notes w)) (\<lambda>notes.
        and_then (call w S_prepare ()) (\<lambda>_.
        and_then (release_mutations w (effective_dryRun inp)) (\<lambda>_.
        and_then (call w S_publish (w_publish w)) (\<lambda>releases.
        and_then (call w S_success ()) (\<lambda>_.
          returns (Released lr commits (nr\<lparr>nr_notes := notes\<rparr>) (added @ releases)))))))))"

text \<open>The channel of the next release, \<^verbatim>\<open>context.branch.channel || null\<close>.\<close>

definition release_channel :: "branch \<Rightarrow> channel" where
  "release_channel br = (case b_channel br of Some (c # cs) \<Rightarrow> Some (c # cs) | _ \<Rightarrow> None)"

text \<open>
  The new-release path once commit analysis has given a bump type: the next version is
  computed, the tag name rendered, and the release checked and published.
\<close>

definition next_release ::
  "world \<Rightarrow> run_input \<Rightarrow> branch \<Rightarrow> lastRelease \<Rightarrow> commit list \<Rightarrow> release_type \<Rightarrow> string
   \<Rightarrow> release list \<Rightarrow> run_result step" where
  "next_release w inp br lr commits ty gitHead added =
     (case getNextVersion (calculator_context inp br lr ty (release_channel br)) of
        Inl TypeError \<Rightarrow> throw (Single (OtherError ''TypeError''))
      | Inr v \<Rightarrow>
          publish_release w inp br lr commits
            \<lparr>nr_type = ty, nr_channel = release_channel br, nr_gitHead = gitHead, nr_version = v,
             nr_gitTag = makeTag (tagFormat (in_options inp)) v,
             nr_name = makeTag (tagFormat (in_options inp)) v, nr_notes = []\<rparr>
            added)"

text \<open>
  The new-release path: last release, commits, commit analysis, and then either the "no
  release" outcome or the next release.
\<close>

definition new_release :: "world \<Rightarrow> run_input \<Rightarrow> branch \<Rightarrow> release list \<Rightarrow> run_result step" where
  "new_release w inp br added =
     and_then
       (case lr_gitHead (w_getLastRelease w br) of
          Some (c # cs) \<Rightarrow>
            and_then (call w S_getTagHead_last (w_tagHead w (c # cs))) (\<lambda>h.
              returns ((w_getLastRelease w br)\<lparr>lr_gitHead := Some h\<rparr>))
        | _ \<Rightarrow> returns (w_getLastRelease w br)) (\<lambda>lr.
     and_then (call w S_getCommits (w_commits w)) (\<lambda>commits.
     and_then (call w S_analyzeCommits (w_analyzeCommits w)) (\<lambda>type.
     and_then (call w S_getGitHead (w_gitHead w)) (\<lambda>gitHead.
       case type of
         None \<Rightarrow> returns (if length added > 0 then ReleasesOnly added else NoRelease)
       | Some ty \<Rightarrow> next_release w inp br lr commits ty gitHead added))))"

text \<open>\<^verbatim>\<open>run(context, plugins)\<close>.\<close>

definition run :: "world \<Rightarrow> run_input \<Rightarrow> run_result step" where
  "run w inp =
     (if isCi (in_envCi inp) \<and> isPr (in_envCi inp) \<and> \<not> noCi (in_options inp)
         \<and> \<not> publishOnPr (in_options inp)
      then returns NoRelease
      else
        and_then (call w S_verify ()) (\<lambda>_.
        and_then (call w S_getGitAuthUrl (w_repositoryUrl w)) (\<lambda>repositoryUrl.
        and_then (getBranches w inp) (\<lambda>branches.
          case find (\<lambda>b. b_name b = ciBranch inp) branches of
            None \<Rightarrow> returns NoRelease
          | Some br \<Rightarrow>
              and_then (verify_auth w) (\<lambda>allowed.
                if \<not> allowed then returns NoRelease
                else
                  and_then (call w S_verifyConditions ()) (\<lambda>_.
                  and_then (add_channel w (effective_dryRun inp) br) (\<lambda>(added, br').
                    new_release w inp br' added)))))))"

subsection \<open>The default export\<close>

text \<open>
  \<^verbatim>\<open>callFail\<close>: the Fail step is called with the errors of the thrown value that carry the
  flag \<^verbatim>\<open>semanticRelease\<close>, when there is one; what the step throws is logged.
\<close>

definition callFail :: "world \<Rightarrow> thrown \<Rightarrow> event list" where
  "callFail w err =
     (let errors = filter semanticRelease (extractErrors err) in
      if length errors > 0 then
        (case throws w (S_fail errors) of
           None \<Rightarrow> [Returned (S_fail errors)]
         | Some error \<Rightarrow> [Threw (S_fail errors), LogErrors error])
      else [])"

text \<open>
  The default export: the configuration is loaded, \<^verbatim>\<open>run\<close> is called, and what \<^verbatim>\<open>run\<close>
  throws goes through \<^verbatim>\<open>callFail\<close> and \<^verbatim>\<open>logErrors\<close> before it is thrown again.
\<close>

definition semantic_release :: "world \<Rightarrow> run_input \<Rightarrow> run_result step" where
  "semantic_release w inp =
     (case throws w S_getConfig of
        Some error \<Rightarrow> ([Threw S_getConfig, LogErrors error], Inl error)
      | None \<Rightarrow>
          (case run w inp of
             (t, Inr result) \<Rightarrow> (Returned S_getConfig # t, Inr result)
           | (t, Inl error) \<Rightarrow>
               (Returned S_getConfig # t @ callFail w error @ [LogErrors error], Inl error)))"

subsection \<open>Predicates on traces\<close>

text \<open>Every mutation in a trace comes after a returned call of VerifyConditions.\<close>

fun guarded :: "bool \<Rightarrow> event list \<Rightarrow> bool" where
  "guarded seen [] = True"
| "guarded seen (e # es) =
     (if is_mutation e then seen \<and> guarded seen es
      else guarded (seen \<or> e = Returned S_verifyConditions) es)"

text \<open>A trace without a call of the Publish step.\<close>

definition no_publish :: "event list \<Rightarrow> bool" where
  "no_publish t = list_all (\<lambda>e. site_of e \<noteq> Some S_publish) t"

text \<open>
  Every call of the Publish step in a trace comes after a returned tag creation and a
  returned push that follows it.
\<close>

definition publish_ordered :: "event list \<Rightarrow> bool" where
  "publish_ordered t =
     (\<forall>e. e \<in> set t \<and> site_of e = Some S_publish \<longrightarrow> subseq [Returned S_tag, Returned S_push, e] t)"

subsection \<open>Example runs\<close>

text \<open>
  The end-to-end example of the specification: a CI run on the release branch \<^verbatim>\<open>master\<close>
  with no tag, where commit analysis yields \<^verbatim>\<open>minor\<close>, no collaborator fails, and
  \<^verbatim>\<open>semver.satisfies("1.0.0", ">=1.0.0")\<close> holds. The only declared branch is \<^verbatim>\<open>master\<close>, so
  that \<^verbatim>\<open>semver.validRange\<close> is not called.
\<close>

definition example_branch :: branch where
  "example_branch =
     \<lparr>b_name = ''master'', b_type = ReleaseBranch, b_prerelease = [], b_channel = None,
      b_range = Some ''>=1.0.0'', b_mergeRange = None, b_tags = []\<rparr>"

definition example_release :: release where
  "example_release =
     \<lparr>rel_name = ''registry'', rel_version = Some ''1.0.0'', rel_gitTag = Some ''v1.0.0'',
      rel_channel = None\<rparr>"

definition example_world :: world where
  "example_world =
     \<lparr>throws = (\<lambda>s. None),
      w_repositoryUrl = ''https://example.com/repo.git'',
      w_remoteBranches = [\<lparr>bs_name = ''master'', bs_range = Absent, bs_prerelease = Absent\<rparr>],
      w_validRange = (\<lambda>r. None),
      w_branches = [example_branch],
      w_isBranchUpToDate = True,
      w_releaseToAdd = (\<lambda>b. None),
      w_satisfies = (\<lambda>v r. v = Some ''1.0.0'' \<and> r = Some ''>=1.0.0''),
      w_tagHead = (\<lambda>r. r),
      w_add_commits = [],
      w_add_notes = [],
      w_addChannel = [],
      w_getLastRelease =
        (\<lambda>b. \<lparr>lr_version = None, lr_channels = [], lr_gitTag = None, lr_gitHead = None\<rparr>),
      w_commits = [''feat: a feature''],
      w_analyzeCommits = Some Minor,
      w_gitHead = ''abc123'',
      w_notes = ''notes'',
      w_publish = [example_release]\<rparr>"

definition example_input :: run_input where
  "example_input =
     \<lparr>in_envCi = \<lparr>isCi = True, ci_branch = ''master'', prBranch = [], isPr = False\<rparr>,
      in_options =
        \<lparr>dryRun = False, noCi = False, publishOnPr = False, tagFormat = (''v'', []),
         calculator_options =
           \<lparr>respectPackageJsonVersion = None, firstRelease = None,
            prereleaseIdentifierBase = None\<rparr>\<rparr>,
      in_packageVersion = None\<rparr>"

subsection \<open>Example branch sets\<close>

text \<open>
  The branches of the default configuration: two maintenance branches declared by their
  names alone, a release branch, and two prerelease branches whose identifier is their
  name. \<open>example_validRange\<close> gives the normal forms that \<^verbatim>\<open>semver.validRange\<close> gives the two
  ranges of the examples.
\<close>

definition example_validRange :: "field_value \<Rightarrow> string option" where
  "example_validRange r =
     (if r = Text ''1.x'' then Some ''>=1.0.0 <2.0.0-0''
      else if r = Text ''2.x'' then Some ''>=2.0.0 <3.0.0-0''
      else None)"

definition example_branch_set :: "branch_spec list" where
  "example_branch_set =
     [\<lparr>bs_name = ''1.x'', bs_range = Absent, bs_prerelease = Absent\<rparr>,
      \<lparr>bs_name = ''2.x'', bs_range = Absent, bs_prerelease = Absent\<rparr>,
      \<lparr>bs_name = ''master'', bs_range = Absent, bs_prerelease = Absent\<rparr>,
      \<lparr>bs_name = ''beta'', bs_range = Absent, bs_prerelease = Flag True\<rparr>,
      \<lparr>bs_name = ''alpha'', bs_range = Absent, bs_prerelease = Flag True\<rparr>]"

text \<open>
  Branch sets that validation refuses: a prerelease branch whose identifier is no semver
  identifier; two prerelease branches with the identifier \<^verbatim>\<open>beta\<close>, one by its name; two
  maintenance branches with the range \<^verbatim>\<open>1.x\<close>, one by its name; four release branches.
\<close>

definition invalid_identifier_branch_set :: "branch_spec list" where
  "invalid_identifier_branch_set =
     [\<lparr>bs_name = ''master'', bs_range = Absent, bs_prerelease = Absent\<rparr>,
      \<lparr>bs_name = ''beta'', bs_range = Absent, bs_prerelease = Text ''rc_1''\<rparr>]"

definition duplicate_identifier_branch_set :: "branch_spec list" where
  "duplicate_identifier_branch_set =
     [\<lparr>bs_name = ''master'', bs_range = Absent, bs_prerelease = Absent\<rparr>,
      \<lparr>bs_name = ''beta'', bs_range = Absent, bs_prerelease = Flag True\<rparr>,
      \<lparr>bs_name = ''preview'', bs_range = Absent, bs_prerelease = Text ''beta''\<rparr>]"

definition duplicate_range_branch_set :: "branch_spec list" where
  "duplicate_range_branch_set =
     [\<lparr>bs_name = ''1.x'', bs_range = Absent, bs_prerelease = Absent\<rparr>,
      \<lparr>bs_name = ''old'', bs_range = Text ''1.x'', bs_prerelease = Absent\<rparr>,
      \<lparr>bs_name = ''master'', bs_range = Absent, bs_prerelease = Absent\<rparr>]"

definition four_release_branch_set :: "branch_spec list" where
  "four_release_branch_set =
     [\<lparr>bs_name = ''master'', bs_range = Absent, bs_prerelease = Absent\<rparr>,
      \<lparr>bs_name = ''next'', bs_range = Absent, bs_prerelease = Absent\<rparr>,
      \<lparr>bs_name = ''next-major'', bs_range = Absent, bs_prerelease = Absent\<rparr>,
      \<lparr>bs_name = ''latest'', bs_range = Absent, bs_prerelease = Absent\<rparr>]"

definition default_options :: options where
  "default_options =
     \<lparr>respectPackageJsonVersion = None, firstRelease = None, prereleaseIdentifierBase = None\<rparr>"

text \<open>The example run with the two maintenance branches of the same range declared.\<close>

definition duplicate_range_world :: world where
  "duplicate_range_world =
     example_world
       \<lparr>w_remoteBranches := duplicate_range_branch_set, w_validRange := example_validRange\<rparr>"

text \<open>
  A run on a release branch whose range ends below \<^verbatim>\<open>2.0.0\<close> (a higher release branch
  exists), with the last release \<^verbatim>\<open>1.0.0\<close> and commits that ask for a major release;
  \<^verbatim>\<open>semver.satisfies("2.0.0", ">=1.0.0 <2.0.0")\<close> does not hold. The function \<open>w_satisfies\<close> of
  the examples is right on the arguments the examples call it with.
\<close>

definition bounded_release_branch :: branch where
  "bounded_release_branch =
     \<lparr>b_name = ''master'', b_type = ReleaseBranch, b_prerelease = [], b_channel = None,
      b_range = Some ''>=1.0.0 <2.0.0'', b_mergeRange = None,
      b_tags = [\<lparr>gitTag = ''v1.0.0'', version = ''1.0.0'', channels = [None]\<rparr>]\<rparr>"

definition out_of_range_world :: world where
  "out_of_range_world =
     example_world
       \<lparr>w_branches := [bounded_release_branch],
        w_getLastRelease :=
          (\<lambda>b. \<lparr>lr_version = Some ''1.0.0'', lr_channels = [None], lr_gitTag = Some ''v1.0.0'',
                 lr_gitHead = Some ''v1.0.0''\<rparr>),
        w_analyzeCommits := Some Major\<rparr>"

text \<open>
  A run that adds the release \<^verbatim>\<open>1.0.0\<close>, published on the channel \<^verbatim>\<open>next\<close>, to the default
  channel of \<^verbatim>\<open>master\<close>, and in which commit analysis finds nothing to release.
\<close>

definition promoted_branch :: branch where
  "promoted_branch =
     \<lparr>b_name = ''master'', b_type = ReleaseBranch, b_prerelease = [], b_channel = None,
      b_range = Some ''>=1.0.0'', b_mergeRange = None,
      b_tags = [\<lparr>gitTag = ''v1.0.0'', version = ''1.0.0'', channels = [Some ''next'']\<rparr>]\<rparr>"

definition add_channel_world :: world where
  "add_channel_world =
     example_world
       \<lparr>w_branches := [promoted_branch],
        w_releaseToAdd :=
          (\<lambda>b. Some \<lparr>rta_lastRelease =
                        \<lparr>lr_version = None, lr_channels = [], lr_gitTag = None, lr_gitHead = None\<rparr>,
                      rta_current_channels = [Some ''next''], rta_current_gitHead = ''v1.0.0'',
                      rta_version = ''1.0.0'', rta_channel = None, rta_gitTag = ''v1.0.0'',
                      rta_gitHead = ''v1.0.0''\<rparr>),
        w_addChannel := [example_release],
        w_getLastRelease :=
          (\<lambda>b. \<lparr>lr_version = Some ''1.0.0'', lr_channels = [Some ''next'', None],
                 lr_gitTag = Some ''v1.0.0'', lr_gitHead = Some ''v1.0.0''\<rparr>),
        w_analyzeCommits := None\<rparr>"

text \<open>The calls of the Fail step in a trace.\<close>

fun fail_site :: "site \<Rightarrow> bool" where
  "fail_site (S_fail errors) = True"
| "fail_site s = False"

definition fail_calls :: "event list \<Rightarrow> event list" where
  "fail_calls t = filter (\<lambda>e. case site_of e of Some s \<Rightarrow> fail_site s | None \<Rightarrow> False) t"

text \<open>
  Two runs in which the VerifyConditions step fails: with an error that is no
  semantic-release error; and with an aggregate of a semantic-release error and another
  error, the Fail step failing in its turn. In a third run the configuration cannot be
  loaded: \<^verbatim>\<open>getConfig\<close> throws a semantic-release error.
\<close>

definition plugin_failure_world :: world where
  "plugin_failure_world =
     example_world\<lparr>throws :=
       (\<lambda>s. if s = S_verifyConditions then Some (Single (OtherError ''ECONNREFUSED'')) else None)\<rparr>"

definition mixed_failure_world :: world where
  "mixed_failure_world =
     example_world\<lparr>throws :=
       (\<lambda>s. if s = S_verifyConditions
            then Some (AggregateError [SemanticReleaseError ''ENONPMTOKEN'', OtherError ''ECONNREFUSED''])
            else if s = S_fail [SemanticReleaseError ''ENONPMTOKEN'']
            then Some (Single (OtherError ''ETIMEDOUT''))
            else None)\<rparr>"

definition config_failure_world :: world where
  "config_failure_world =
     example_world\<lparr>throws :=
       (\<lambda>s. if s = S_getConfig then Some (Single (SemanticReleaseError ''EPLUGINSCONF'')) else None)\<rparr>"

section \<open>Notes and tags (\<^verbatim>\<open>lib/git.js\<close>, \<^verbatim>\<open>lib/branches/get-tags.js\<close>)\<close>

subsection \<open>JSON values and the deep merge of lodash\<close>

text \<open>
  A parsed note is a JSON value. An object is the list of its properties; the order of the
  list is not the enumeration order of JavaScript, and no property is read by position.
  Numbers are kept as integers, which the channel lists of notes do not contain.
\<close>

datatype json =
  JNull | JBool bool | JNum int | JStr string | JArr "json list" | JObj "(string \<times> json) list"

text \<open>\<^verbatim>\<open>object[key] = value\<close> on the property list.\<close>

fun assign :: "string \<Rightarrow> json \<Rightarrow> (string \<times> json) list \<Rightarrow> (string \<times> json) list" where
  "assign k v [] = [(k, v)]"
| "assign k v ((k', v') # ps) = (if k' = k then (k, v) # ps else (k', v') # assign k v ps)"

text \<open>
  An object that lodash takes for array-like: it has a property \<^verbatim>\<open>length\<close> that is a
  non-negative number.
\<close>

definition array_like :: "(string \<times> json) list \<Rightarrow> bool" where
  "array_like ps = (case map_of ps ''length'' of Some (JNum n) \<Rightarrow> 0 \<le> n | _ \<Rightarrow> False)"

text \<open>Arrays and objects, the values that \<^verbatim>\<open>isObject\<close> of lodash accepts.\<close>

fun is_object :: "json \<Rightarrow> bool" where
  "is_object (JArr xs) = True"
| "is_object (JObj ps) = True"
| "is_object v = False"

text \<open>
  \<^verbatim>\<open>merge(object, source)\<close> of lodash (4.17.21) on JSON values. \<open>merge_value d s\<close> is the value that
  \<^verbatim>\<open>baseMerge\<close> assigns to a key whose value is \<open>d\<close> in the destination (\<open>None\<close> when the key is
  missing there) and \<open>s\<close> in the source: a source value that is no object is assigned as it
  is; a source array is merged, index by index, into the destination array, or into a new
  array when the destination value is none; a source object is merged, key by key, into the
  destination object, or into a new object when the destination value is no object. The
  result \<open>None\<close> marks the two cases in which lodash builds a value that is no JSON value (an
  array with named properties, from merging an object into an array, and the copy of an
  array-like object); they are outside this model. A source property \<^verbatim>\<open>__proto__\<close> whose
  value is an array or an object is skipped.
\<close>

fun merge_value :: "json option \<Rightarrow> json \<Rightarrow> json option"
  and merge_elems :: "json list \<Rightarrow> json list \<Rightarrow> json list option"
  and merge_props :: "(string \<times> json) list \<Rightarrow> (string \<times> json) list \<Rightarrow> (string \<times> json) list option"
  where
  "merge_value d JNull = Some JNull"
| "merge_value d (JBool b) = Some (JBool b)"
| "merge_value d (JNum n) = Some (JNum n)"
| "merge_value d (JStr s) = Some (JStr s)"
| "merge_value d (JArr ss) =
     (case d of
        Some (JArr ds) \<Rightarrow> map_option JArr (merge_elems ds ss)
      | Some (JObj dp) \<Rightarrow> if array_like dp then None else map_option JArr (merge_elems [] ss)
      | _ \<Rightarrow> map_option JArr (merge_elems [] ss))"
| "merge_value d (JObj sp) =
     (case d of
        Some (JObj dp) \<Rightarrow> map_option JObj (merge_props dp sp)
      | Some (JArr ds) \<Rightarrow> None
      | _ \<Rightarrow> map_option JObj (merge_props [] sp))"
| "merge_elems ds [] = Some ds"
| "merge_elems ds (s # ss) =
     (case merge_value (case ds of [] \<Rightarrow> None | d # _ \<Rightarrow> Some d) s of
        None \<Rightarrow> None
      | Some v \<Rightarrow> (case merge_elems (tl ds) ss of None \<Rightarrow> None | Some vs \<Rightarrow> Some (v # vs)))"
| "merge_props dp [] = Some dp"
| "merge_props dp (p # sp) =
     (if fst p = ''__proto__'' \<and> is_object (snd p) then merge_props dp sp
      else (case merge_value (map_of dp (fst p)) (snd p) of
              None \<Rightarrow> None
            | Some v \<Rightarrow> merge_props (assign (fst p) v dp) sp))"

text \<open>
  The merge of two notes. Notes are written as objects (\<^verbatim>\<open>addNote\<close> writes
  \<^verbatim>\<open>{"channels": [...]}\<close>); the merge of a note that is no object is outside this model.
\<close>

fun merge :: "json \<Rightarrow> json \<Rightarrow> json option" where
  "merge (JObj dp) (JObj sp) = map_option JObj (merge_props dp sp)"
| "merge object source = None"

subsection \<open>\<^verbatim>\<open>getNote\<close>\<close>

text \<open>
  What \<^verbatim>\<open>git notes show\<close> gives: the note, or a failure with its exit code (\<open>None\<close> when the
  failure has none). \<^verbatim>\<open>JSON.parse\<close> is a parameter: \<open>None\<close> is its \<^verbatim>\<open>SyntaxError\<close>.
\<close>

datatype git_output = Stdout string | Failed "nat option"

datatype note_error = GitError "nat option" | SyntaxError

text \<open>
  An outcome is what a function throws, the value it returns, or a mark that the value is
  outside the model of \<open>merge\<close>.
\<close>

datatype 'a outcome = Thrown note_error | Value 'a | Unmodelled

text \<open>\<^verbatim>\<open>handleError\<close>: a missing note (exit code 1) reads as the text of the empty object.\<close>

definition handleError :: "git_output \<Rightarrow> note_error + string" where
  "handleError out =
     (case out of
        Stdout s \<Rightarrow> Inr s
      | Failed code \<Rightarrow> if code = Some 1 then Inr ''{}'' else Inl (GitError code))"

text \<open>The \<^verbatim>\<open>catch\<close> around the merge.\<close>

definition note_catch :: "note_error \<Rightarrow> json outcome" where
  "note_catch error = (if error = GitError (Some 1) then Value (JObj []) else Thrown error)"

definition getNote :: "(string \<Rightarrow> json option) \<Rightarrow> git_output \<Rightarrow> git_output \<Rightarrow> json outcome" where
  "getNote json_parse legacy current =
     (case handleError legacy of
        Inl e \<Rightarrow> note_catch e
      | Inr a \<Rightarrow>
          (case json_parse a of
             None \<Rightarrow> note_catch SyntaxError
           | Some x \<Rightarrow>
               (case handleError current of
                  Inl e \<Rightarrow> note_catch e
                | Inr b \<Rightarrow>
                    (case json_parse b of
                       None \<Rightarrow> note_catch SyntaxError
                     | Some y \<Rightarrow> (case merge x y of None \<Rightarrow> Unmodelled | Some z \<Rightarrow> Value z)))))"

subsection \<open>The tag resolver\<close>

text \<open>
  The regular expression of the tag template: the template is rendered with a space for
  the version, and the first space of the rendering becomes the group \<^verbatim>\<open>(.+)\<close>. The text
  before that space and the text after it are the two literal parts of the expression.
\<close>

definition tagRegexp :: "string \<times> string \<Rightarrow> string \<times> string" where
  "tagRegexp fmt =
     (let rendered = fst fmt @ '' '' @ snd fmt
      in (takeWhile (\<lambda>c. c \<noteq> CHR '' '') rendered, tl (dropWhile (\<lambda>c. c \<noteq> CHR '' '') rendered)))"

text \<open>
  \<^verbatim>\<open>tag.match(tagRegexp)\<close>: the expression is anchored at the start only, and the group is
  greedy: the version is the longest non-empty text after the first literal part that the
  second literal part follows. Tag names hold no line terminator, so the dot matches every
  character of them.
\<close>

definition match_tag :: "string \<times> string \<Rightarrow> string \<Rightarrow> string option" where
  "match_tag fmt tag =
     (let (before, after) = tagRegexp fmt; rest = drop (length before) tag
      in if take (length before) tag \<noteq> before then None
         else map_option (\<lambda>n. take n rest)
                (find (\<lambda>n. take (length after) (drop n rest) = after)
                   (rev [1..<Suc (length rest)])))"

text \<open>\<^verbatim>\<open>semver.clean\<close> and \<^verbatim>\<open>semver.valid\<close>.\<close>

definition semver_clean :: "string \<Rightarrow> string option" where
  "semver_clean v =
     map_option format (parse (dropWhile (\<lambda>c. c = CHR ''='' \<or> c = CHR ''v'') (trim v)))"

definition semver_valid :: "string option \<Rightarrow> string option" where
  "semver_valid v = (case v of None \<Rightarrow> None | Some s \<Rightarrow> map_option format (parse s))"

text \<open>
  The test \<^verbatim>\<open>version && semver.valid(semver.clean(version))\<close> on the match of a tag: the
  version of a tag that is kept.
\<close>

definition tag_version :: "string \<times> string \<Rightarrow> string \<Rightarrow> string option" where
  "tag_version fmt tag =
     (case match_tag fmt tag of
        None \<Rightarrow> None
      | Some v \<Rightarrow>
          if v \<noteq> [] \<and> (case semver_valid (semver_clean v) of None \<Rightarrow> False | Some s \<Rightarrow> s \<noteq> [])
          then Some v else None)"

text \<open>Falsy JSON values, and \<^verbatim>\<open>note.channels || [null]\<close>.\<close>

fun falsy :: "json \<Rightarrow> bool" where
  "falsy JNull = True"
| "falsy (JBool b) = (\<not> b)"
| "falsy (JNum n) = (n = 0)"
| "falsy (JStr s) = (s = [])"
| "falsy v = False"

definition channels_of :: "json \<Rightarrow> json" where
  "channels_of note =
     (case note of
        JObj ps \<Rightarrow>
          (case map_of ps ''channels'' of
             None \<Rightarrow> JArr [JNull]
           | Some c \<Rightarrow> if falsy c then JArr [JNull] else c)
      | _ \<Rightarrow> JArr [JNull])"

record resolved_tag =
  rt_gitTag :: string
  rt_version :: string
  rt_channels :: json

text \<open>
  The inner reduction over the tags of one branch; \<open>notes tag\<close> gives what git shows for
  the legacy note and for the note of the tag.
\<close>

fun resolve_tags ::
  "(string \<Rightarrow> json option) \<Rightarrow> (string \<Rightarrow> git_output \<times> git_output) \<Rightarrow> string \<times> string
   \<Rightarrow> resolved_tag list \<Rightarrow> string list \<Rightarrow> resolved_tag list outcome" where
  "resolve_tags json_parse notes fmt branchTags [] = Value branchTags"
| "resolve_tags json_parse notes fmt branchTags (tag # tags) =
     (case tag_version fmt tag of
        None \<Rightarrow> resolve_tags json_parse notes fmt branchTags tags
      | Some v \<Rightarrow>
          (case getNote json_parse (fst (notes tag)) (snd (notes tag)) of
             Thrown e \<Rightarrow> Thrown e
           | Unmodelled \<Rightarrow> Unmodelled
           | Value note \<Rightarrow>
               resolve_tags json_parse notes fmt
                 (branchTags @ [\<lparr>rt_gitTag = tag, rt_version = v, rt_channels = channels_of note\<rparr>])
                 tags))"

text \<open>
  The ref whose tags are listed: \<^verbatim>\<open>HEAD\<close> for a branch name that contains a pull request
  ref \<^verbatim>\<open>refs/pull/<digits>/merge\<close>.
\<close>

definition pull_ref_here :: "string \<Rightarrow> bool" where
  "pull_ref_here s =
     (take 10 s = ''refs/pull/''
      \<and> takeWhile is_digit (drop 10 s) \<noteq> []
      \<and> take 6 (dropWhile is_digit (drop 10 s)) = ''/merge'')"

definition tags_ref :: "string \<Rightarrow> string" where
  "tags_ref name = (if list_ex pull_ref_here (suffixes name) then ''HEAD'' else name)"

text \<open>
  The default export of \<^verbatim>\<open>get-tags.js\<close>: every branch with its resolved tags, in order;
  \<open>git_tags ref\<close> is the list that \<^verbatim>\<open>getTags\<close> gives for a ref, or the failure of the command.
\<close>

fun getTags ::
  "(string \<Rightarrow> json option) \<Rightarrow> (string \<Rightarrow> note_error + string list)
   \<Rightarrow> (string \<Rightarrow> git_output \<times> git_output) \<Rightarrow> string \<times> string
   \<Rightarrow> (branch_spec \<times> resolved_tag list) list \<Rightarrow> branch_spec list
   \<Rightarrow> (branch_spec \<times> resolved_tag list) list outcome" where
  "getTags json_parse git_tags notes fmt resolved [] = Value resolved"
| "getTags json_parse git_tags notes fmt resolved (b # bs) =
     (case git_tags (tags_ref (bs_name b)) of
        Inl e \<Rightarrow> Thrown e
      | Inr tags \<Rightarrow>
          (case resolve_tags json_parse notes fmt [] tags of
             Thrown e \<Rightarrow> Thrown e
           | Unmodelled \<Rightarrow> Unmodelled
           | Value branchTags \<Rightarrow> getTags json_parse git_tags notes fmt (resolved @ [(b, branchTags)]) bs))"

subsection \<open>Example notes\<close>

text \<open>\<^verbatim>\<open>JSON.parse\<close> on the note texts of the examples.\<close>

definition example_json_parse :: "string \<Rightarrow> json option" where
  "example_json_parse s =
     (if s = ''{}'' then Some (JObj [])
      else if s = ''{\"channels\":[\"a\"]}'' then Some (JObj [(''channels'', JArr [JStr ''a''])])
      else if s = ''{\"channels\":[\"b\"]}'' then Some (JObj [(''channels'', JArr [JStr ''b''])])
      else if s = ''{\"channels\":[\"a\",\"c\"]}''
        then Some (JObj [(''channels'', JArr [JStr ''a'', JStr ''c''])])
      else if s = ''{\"channels\":[null,\"next\"]}''
        then Some (JObj [(''channels'', JArr [JNull, JStr ''next''])])
      else None)"

text \<open>
  The notes of the example: the tag \<^verbatim>\<open>v1.1.0\<close> has a note of its own with the channels
  \<^verbatim>\<open>[null, "next"]\<close>, no other note exists.
\<close>

definition example_notes :: "string \<Rightarrow> git_output \<times> git_output" where
  "example_notes tag =
     (if tag = ''v1.1.0'' then (Failed (Some 1), Stdout ''{\"channels\":[null,\"next\"]}'')
      else (Failed (Some 1), Failed (Some 1)))"

section \<open>Verification\<close>

subsection \<open>Evaluation of the model on concrete inputs\<close>

lemmas semver_eval =
  parse_def parse_main_def numeric_identifier_def is_digit_def digit_val_def
  MAX_SAFE_INTEGER_def MAX_LENGTH_def trim_def is_space_def cut_at_def
  prerelease_identifier_def build_identifier_def is_letter_or_dash_def format_def
  show_nat.simps digit_char_def semver_inc_def SemVer_inc_def inc_pre_def inc_patch_def
  semver_gt_def compare_def compareMain_def comparePre_def compareNumbers_def
  compareIdentifiers_def semver_prerelease_def to_double_def dropped_bits.simps

lemmas calculator_eval =
  inc_def getNextVersion_def continues_prerelease_def continuation_candidate_def
  fresh_candidate_def restart_candidate_def triplet_text_def prerelease_suffix_def
  text_of_def highest_def isSameChannel_def getLatestVersion_def tagsToVersions_def
  DEFAULT_FIRST_RELEASE_def DEFAULT_PRERELEASE_IDENTIFIER_BASE_def

lemmas branches_eval =
  accepted_def validation_errors_def maintenance_branches_def prerelease_branches_def
  release_branches_def maintenance_filter_def prerelease_filter_def release_filter_def
  maintenance_branchValidator_def maintenance_branchesValidator_def
  prerelease_branchValidator_def prerelease_branchesValidator_def release_branchesValidator_def
  isMaintenanceRange_def is_number_text_def is_x_def uniqBy_def text_of_def
  maintenance_range_def preid_def normalize_maintenance_def normalize_prerelease_def
  DEFAULT_FIRST_RELEASE_def DEFAULT_PRERELEASE_IDENTIFIER_BASE_def

subsection \<open>Printing and parsing numbers and triplets\<close>

lemma below_ten:
  "d < 10 \<Longrightarrow> d = 0 \<or> d = 1 \<or> d = 2 \<or> d = 3 \<or> d = 4 \<or> d = 5 \<or> d = 6 \<or> d = 7 \<or> d = 8 \<or> d = (9::nat)"
  by arith

lemma is_digit_digit_char: "d < 10 \<Longrightarrow> is_digit (digit_char d)"
  by (drule below_ten) (auto simp: digit_char_def is_digit_def digit_val_def)

lemma digit_val_digit_char: "d < 10 \<Longrightarrow> digit_val (digit_char d) = Some d"
  by (drule below_ten) (auto simp: digit_char_def digit_val_def)

lemma digit_char_nonzero: "0 < d \<Longrightarrow> d < 10 \<Longrightarrow> digit_char d \<noteq> CHR ''0''"
  by (drule below_ten) (auto simp: digit_char_def)

lemma show_nat_nonempty: "show_nat n \<noteq> []"
  by (subst show_nat.simps) simp

lemma show_nat_digits: "list_all is_digit (show_nat n)"
proof (induction n rule: show_nat.induct)
  case (1 n)
  show ?case
  proof (cases "n < 10")
    case True
    then show ?thesis by (subst show_nat.simps) (simp add: is_digit_digit_char)
  next
    case False
    with 1 show ?thesis by (subst show_nat.simps) (simp add: is_digit_digit_char)
  qed
qed

lemma hd_show_nat: "0 < n \<Longrightarrow> hd (show_nat n) \<noteq> CHR ''0''"
proof (induction n rule: show_nat.induct)
  case (1 n)
  show ?case
  proof (cases "n < 10")
    case True
    with 1(2) show ?thesis by (subst show_nat.simps) (simp add: digit_char_nonzero)
  next
    case False
    then have "0 < n div 10" by simp
    with 1(1) False have "hd (show_nat (n div 10)) \<noteq> CHR ''0''" by simp
    with False show ?thesis by (subst show_nat.simps) (simp add: show_nat_nonempty)
  qed
qed

lemma length_show_nat_small: "n < 10 \<Longrightarrow> length (show_nat n) = 1"
  by (subst show_nat.simps) simp

lemma no_leading_zero: "\<not> (hd (show_nat n) = CHR ''0'' \<and> length (show_nat n) > 1)"
proof (cases "n < 10")
  case True
  then show ?thesis by (simp add: length_show_nat_small)
next
  case False
  then have "0 < n" by simp
  then show ?thesis by (simp add: hd_show_nat)
qed

lemma digits_value_append:
  "digits_value acc (xs @ [c]) = 10 * digits_value acc xs + (case digit_val c of Some d \<Rightarrow> d | None \<Rightarrow> 0)"
  by (induction xs arbitrary: acc) simp_all

lemma digits_value_show_nat: "digits_value 0 (show_nat n) = n"
proof (induction n rule: show_nat.induct)
  case (1 n)
  show ?case
  proof (cases "n < 10")
    case True
    then show ?thesis by (subst show_nat.simps) (simp add: digit_val_digit_char)
  next
    case False
    with 1 show ?thesis
      by (subst show_nat.simps) (simp add: digits_value_append digit_val_digit_char)
  qed
qed

lemma numeric_identifier_show_nat: "numeric_identifier (show_nat n) = Some n"
  using no_leading_zero [of n]
  by (simp add: numeric_identifier_def show_nat_nonempty show_nat_digits digits_value_show_nat)

lemma length_show_nat: "n < 10 ^ k \<Longrightarrow> 0 < k \<Longrightarrow> length (show_nat n) \<le> k"
proof (induction n arbitrary: k rule: show_nat.induct)
  case (1 n)
  show ?case
  proof (cases "n < 10")
    case True
    with 1(3) show ?thesis by (simp add: length_show_nat_small)
  next
    case False
    from 1(3) obtain j where k: "k = Suc j" by (cases k) auto
    from False 1(2) k have j: "0 < j" by (cases j) auto
    from 1(2) k have "n div 10 < 10 ^ j" by (simp add: less_mult_imp_div_less mult.commute)
    with 1(1) False j have "length (show_nat (n div 10)) \<le> j" by simp
    with False k show ?thesis by (subst show_nat.simps) simp
  qed
qed

lemma split_on_none: "c \<notin> set a \<Longrightarrow> split_on c a = [a]"
  by (induction a) auto

lemma split_on_first: "c \<notin> set a \<Longrightarrow> split_on c (a @ c # rest) = a # split_on c rest"
  by (induction a) auto

lemma digit_chars: "list_all is_digit s \<Longrightarrow> CHR ''.'' \<notin> set s \<and> CHR ''-'' \<notin> set s \<and> CHR ''+'' \<notin> set s
   \<and> CHR ''v'' \<notin> set s \<and> (\<forall>c\<in>set s. \<not> is_space c)"
  by (induction s) (auto simp: is_digit_def digit_val_def is_space_def split: if_splits)


lemma parse_main_triplet:
  assumes "a \<le> MAX_SAFE_INTEGER" "b \<le> MAX_SAFE_INTEGER" "c \<le> MAX_SAFE_INTEGER"
  shows "parse_main (show_nat a @ ''.'' @ show_nat b @ ''.'' @ show_nat c) = Some (a, b, c)"
proof -
  have d: "CHR ''.'' \<notin> set (show_nat n)" for n
    using digit_chars [OF show_nat_digits [of n]] by simp
  have "split_on CHR ''.'' (show_nat a @ ''.'' @ show_nat b @ ''.'' @ show_nat c)
        = [show_nat a, show_nat b, show_nat c]"
    using d by (simp add: split_on_first split_on_none)
  with assms show ?thesis
    by (simp add: parse_main_def numeric_identifier_show_nat)
qed

lemma trim_id: "s \<noteq> [] \<Longrightarrow> \<not> is_space (hd s) \<Longrightarrow> \<not> is_space (last s) \<Longrightarrow> trim s = s"
proof -
  assume s: "s \<noteq> []" and h: "\<not> is_space (hd s)" and l: "\<not> is_space (last s)"
  from s h have 1: "dropWhile is_space s = s" by (cases s) auto
  from s have "rev s \<noteq> []" by simp
  moreover from s l have "\<not> is_space (hd (rev s))" by (simp add: hd_rev)
  ultimately have "dropWhile is_space (rev s) = rev s" by (cases "rev s") auto
  with 1 show ?thesis by (simp add: trim_def)
qed

lemma cut_at_none: "c \<notin> set s \<Longrightarrow> cut_at c s = (s, None)"
  by (induction s) (auto simp: cut_at_def)

lemma MAX_SAFE_INTEGER_less: "n \<le> MAX_SAFE_INTEGER \<Longrightarrow> n < 10 ^ 16"
  by (simp add: MAX_SAFE_INTEGER_def)

lemma parse_triplet_text:
  assumes "major v \<le> MAX_SAFE_INTEGER" "minor v \<le> MAX_SAFE_INTEGER" "patch v \<le> MAX_SAFE_INTEGER"
  shows "parse (triplet_text v)
         = Some \<lparr>major = major v, minor = minor v, patch = patch v, prerelease = []\<rparr>"
proof -
  let ?A = "show_nat (major v)" and ?B = "show_nat (minor v)" and ?C = "show_nat (patch v)"
  let ?T = "?A @ ''.'' @ ?B @ ''.'' @ ?C"
  have T: "triplet_text v = ?T" by (simp add: triplet_text_def)
  have dA: "list_all is_digit ?A" and dB: "list_all is_digit ?B" and dC: "list_all is_digit ?C"
    by (rule show_nat_digits)+
  have len: "length ?T \<le> MAX_LENGTH"
    using length_show_nat [OF MAX_SAFE_INTEGER_less [OF assms(1)]]
      length_show_nat [OF MAX_SAFE_INTEGER_less [OF assms(2)]]
      length_show_nat [OF MAX_SAFE_INTEGER_less [OF assms(3)]]
    by (simp add: MAX_LENGTH_def)
  have hd: "hd ?T = hd ?A" and ne: "?T \<noteq> []" and last: "last ?T = last ?C"
    by (simp_all add: show_nat_nonempty)
  have hdA: "hd ?A \<in> set ?A" and lastC: "last ?C \<in> set ?C"
    by (simp_all add: show_nat_nonempty)
  have nsp: "\<not> is_space (hd ?T)" "\<not> is_space (last ?T)"
    using digit_chars [OF dA] digit_chars [OF dC] hdA lastC hd last by auto
  have trim: "trim ?T = ?T" by (rule trim_id [OF ne nsp])
  have nv: "hd ?T \<noteq> CHR ''v''"
    using digit_chars [OF dA] hdA hd by auto
  have t': "(case ?T of c # r \<Rightarrow> if c = CHR ''v'' then r else ?T | [] \<Rightarrow> ?T) = ?T"
    using nv ne by (cases ?T) auto
  have plus: "CHR ''+'' \<notin> set ?T" and dash: "CHR ''-'' \<notin> set ?T"
    using digit_chars [OF dA] digit_chars [OF dB] digit_chars [OF dC] by auto
  have pm: "parse_main ?T = Some (major v, minor v, patch v)"
    by (rule parse_main_triplet [OF assms])
  show ?thesis
    unfolding T parse_def using len
    by (simp only: trim t' cut_at_none [OF plus] cut_at_none [OF dash] pm Let_def split
        option.case if_False not_less [symmetric] simp_thms)
qed

lemma parse_main_bounds:
  "parse_main s = Some (a, b, c) \<Longrightarrow> a \<le> MAX_SAFE_INTEGER \<and> b \<le> MAX_SAFE_INTEGER \<and> c \<le> MAX_SAFE_INTEGER"
  by (auto simp: parse_main_def split: list.splits option.splits if_splits)

lemma parse_bounds:
  "parse s = Some v \<Longrightarrow> major v \<le> MAX_SAFE_INTEGER \<and> minor v \<le> MAX_SAFE_INTEGER \<and> patch v \<le> MAX_SAFE_INTEGER"
  by (auto simp: parse_def Let_def split: if_splits option.splits prod.splits dest!: parse_main_bounds)


lemma of_char_eq_iff: "((of_char x :: nat) = of_char y) = (x = y)"
  using inj_of_char [where ?'a = nat] by (auto dest: injD)

lemma str_less_antisym: "a \<noteq> b \<Longrightarrow> str_less a b = (\<not> str_less b a)"
proof (induction a b rule: str_less.induct)
  case (4 x xs y ys)
  show ?case
  proof (cases "x = y")
    case True
    with 4 show ?thesis by simp
  next
    case False
    then have "(of_char x :: nat) \<noteq> of_char y" by (simp add: of_char_eq_iff)
    then have "((of_char x :: nat) < of_char y) = (\<not> (of_char y :: nat) < of_char x)" by arith
    with False show ?thesis by simp
  qed
qed simp_all

lemma compareIdentifiers_antisym: "compareIdentifiers a b = - compareIdentifiers b a"
proof (cases "numeric_value a")
  case None
  note a = this
  show ?thesis
  proof (cases "numeric_value b")
    case None
    show ?thesis
    proof (cases "show_identifier a = show_identifier b")
      case True
      with a None show ?thesis by (simp add: compareIdentifiers_def)
    next
      case False
      with a None str_less_antisym [OF False] show ?thesis
        by (simp add: compareIdentifiers_def)
    qed
  next
    case (Some n)
    with a show ?thesis by (simp add: compareIdentifiers_def)
  qed
next
  case (Some m)
  then show ?thesis by (cases "numeric_value b") (auto simp: compareIdentifiers_def)
qed

lemma comparePre_loop_antisym: "comparePre_loop xs ys = - comparePre_loop ys xs"
proof (induction xs ys rule: comparePre_loop.induct)
  case (4 a as b bs)
  then show ?case using compareIdentifiers_antisym [of a b] by auto
qed simp_all

lemma compareNumbers_antisym: "compareNumbers a b = - compareNumbers b a"
  by (simp add: compareNumbers_def)

lemma compareMain_antisym: "compareMain a b = - compareMain b a"
  using compareNumbers_antisym [of "major a" "major b"] compareNumbers_antisym [of "minor a" "minor b"]
    compareNumbers_antisym [of "patch a" "patch b"]
  by (simp add: compareMain_def)

lemma comparePre_antisym: "comparePre a b = - comparePre b a"
  using comparePre_loop_antisym [of "prerelease a" "prerelease b"]
  by (simp add: comparePre_def)

lemma compare_antisym: "compare a b = - compare b a"
  using compareMain_antisym [of a b] comparePre_antisym [of a b]
  by (simp add: compare_def)

lemma compare_refl: "compare a a = 0"
  using compare_antisym [of a a] by simp

lemma highest_greater:
  assumes "parse a = Some x" and "parse b = Some y"
  shows "\<exists>r z. highest (Some a) (Some b) = Inr (Some r) \<and> (r = a \<or> r = b) \<and> parse r = Some z
           \<and> 0 \<le> compare z x \<and> 0 \<le> compare z y"
proof (cases "0 < compare x y")
  case True
  with assms have "highest (Some a) (Some b) = Inr (Some a)"
    by (simp add: highest_def semver_gt_def)
  with assms True show ?thesis by (simp add: compare_refl)
next
  case False
  with assms have "highest (Some a) (Some b) = Inr (Some b)"
    by (simp add: highest_def semver_gt_def)
  moreover from False have "0 \<le> compare y x" using compare_antisym [of x y] by simp
  ultimately show ?thesis using assms by (simp add: compare_refl)
qed

lemma dropped_bits_small: "n < 9007199254740992 \<Longrightarrow> dropped_bits n = 0"
  by (simp add: dropped_bits.simps)

lemma to_double_small: "n < 9007199254740992 \<Longrightarrow> to_double n = n"
  by (simp add: to_double_def dropped_bits_small)

lemma str_less_key: "str_less s t = ((map of_char s :: nat list) < map of_char t)"
  by (induction s t rule: str_less.induct) (auto simp: of_char_eq_iff)

lemma map_of_char_eq: "((map of_char s :: nat list) = map of_char t) = (s = t)"
  using inj_of_char [where ?'a = nat] by (auto dest: inj_mapI [THEN injD])

lemma compareIdentifiers_key:
  assumes "exact_identifier a" and "exact_identifier b"
  shows "compareIdentifiers a b = order_sign (identifier_key a) (identifier_key b)"
proof (cases a)
  case (Num m)
  note a = this
  show ?thesis
  proof (cases b)
    case (Num n)
    with a assms show ?thesis
      by (auto simp: compareIdentifiers_def order_sign_def to_double_small MAX_SAFE_INTEGER_def)
  next
    case (Alnum t)
    with a assms show ?thesis
      by (auto simp: compareIdentifiers_def order_sign_def to_double_small MAX_SAFE_INTEGER_def)
  qed
next
  case (Alnum s)
  note a = this
  show ?thesis
  proof (cases b)
    case (Num n)
    with a assms show ?thesis
      by (auto simp: compareIdentifiers_def order_sign_def to_double_small MAX_SAFE_INTEGER_def)
  next
    case (Alnum t)
    with a assms show ?thesis
      by (auto simp: compareIdentifiers_def order_sign_def str_less_key map_of_char_eq)
  qed
qed

lemma identifier_key_inj: "(identifier_key a = identifier_key b) = (a = b)"
  by (cases a; cases b) (auto simp: map_of_char_eq)

lemma comparePre_loop_key:
  "list_all exact_identifier xs \<Longrightarrow> list_all exact_identifier ys \<Longrightarrow>
   comparePre_loop xs ys = order_sign (map identifier_key xs) (map identifier_key ys)"
proof (induction xs ys rule: comparePre_loop.induct)
  case (4 a as b bs)
  then show ?case
    by (auto simp: compareIdentifiers_key identifier_key_inj order_sign_def split: if_splits)
qed (simp_all add: order_sign_def)

lemma compare_key:
  assumes "exact_version a" and "exact_version b"
  shows "compare a b = order_sign (version_key a) (version_key b)"
  using assms comparePre_loop_key [of "prerelease a" "prerelease b"]
  by (auto simp: compare_def compareMain_def comparePre_def compareNumbers_def version_key_def
      exact_version_def order_sign_def split: if_splits)

lemma compare_le_key:
  assumes "exact_version a" and "exact_version b"
  shows "(0 \<le> compare a b) = (version_key b \<le> version_key a)"
  by (auto simp: compare_key [OF assms] order_sign_def)

lemma compare_gt_key:
  assumes "exact_version a" and "exact_version b"
  shows "(0 < compare a b) = (version_key b < version_key a)"
  by (auto simp: compare_key [OF assms] order_sign_def)

lemma compare_trans:
  assumes "exact_version a" and "exact_version b" and "exact_version c"
    and "0 \<le> compare a b" and "0 \<le> compare b c"
  shows "0 \<le> compare a c"
  using assms by (simp add: compare_le_key)

lemmas example_eval = example_tag_def example_context_def

subsection \<open>The prerelease increment under major-zero dampening\<close>

lemma inc_rightmost_last_number:
  "\<forall>m. Num m \<notin> set post \<Longrightarrow> inc_rightmost (pre @ Num n # post) = Some (pre @ Num (n + 1) # post)"
proof (induction pre)
  case Nil
  have "inc_rightmost post = None" using Nil
  proof (induction post)
    case (Cons a post)
    then show ?case by (cases a) auto
  qed simp
  then show ?case by simp
next
  case (Cons a pre)
  then show ?case by simp
qed

lemma parse_empty: "parse [] = None"
  by (simp add: semver_eval)

text \<open>
  C10. At a version whose major component is 0, \<^verbatim>\<open>inc\<close> increments by \<^verbatim>\<open>minor\<close> where
  \<^verbatim>\<open>major\<close> is requested, by \<^verbatim>\<open>patch\<close> where \<^verbatim>\<open>minor\<close> is requested and by \<^verbatim>\<open>patch\<close> where
  \<^verbatim>\<open>patch\<close> is requested; every other release type goes to \<^verbatim>\<open>semver.inc\<close> as it is,
  whatever the major component, and at a major component other than 0 so does every
  release type. So \<^verbatim>\<open>inc(version, "prerelease")\<close> is the plain semver increment, and the
  continuation candidate of a last release whose rightmost numeric prerelease identifier
  is \<open>n\<close> is that version with \<open>n + 1\<close> in its place.
\<close>

theorem dampening_leaves_prerelease_increment:
  assumes "parse lv = Some v"
  shows "(major v = 0 \<longrightarrow>
            inc lv Major = Inr (semver_inc lv Minor)
            \<and> inc lv Minor = Inr (semver_inc lv Patch)
            \<and> inc lv Patch = Inr (semver_inc lv Patch))
         \<and> (major v \<noteq> 0 \<longrightarrow> (\<forall>release. inc lv release = Inr (semver_inc lv release)))
         \<and> inc lv Premajor = Inr (semver_inc lv Premajor)
         \<and> inc lv Preminor = Inr (semver_inc lv Preminor)
         \<and> inc lv Prepatch = Inr (semver_inc lv Prepatch)
         \<and> inc lv Prerelease = Inr (semver_inc lv Prerelease)
         \<and> (\<forall>pre n post. prerelease v = pre @ Num n # post \<and> (\<forall>m. Num m \<notin> set post) \<longrightarrow>
                continuation_candidate lv
                = Inr (Some (format (v\<lparr>prerelease := pre @ Num (n + 1) # post\<rparr>))))"
proof -
  have pass: "inc lv Premajor = Inr (semver_inc lv Premajor)"
    "inc lv Preminor = Inr (semver_inc lv Preminor)"
    "inc lv Prepatch = Inr (semver_inc lv Prepatch)"
    "inc lv Prerelease = Inr (semver_inc lv Prerelease)"
    using assms by (simp_all add: inc_def)
  have zero: "inc lv Major = Inr (semver_inc lv Minor) \<and> inc lv Minor = Inr (semver_inc lv Patch)
      \<and> inc lv Patch = Inr (semver_inc lv Patch)" if "major v = 0"
    using assms that by (simp add: inc_def)
  have other: "inc lv release = Inr (semver_inc lv release)" if "major v \<noteq> 0" for release
    using assms that by (simp add: inc_def)
  have cont: "continuation_candidate lv
      = Inr (Some (format (v\<lparr>prerelease := pre @ Num (n + 1) # post\<rparr>)))"
    if "prerelease v = pre @ Num n # post \<and> (\<forall>m. Num m \<notin> set post)" for pre n post
  proof -
    from that have p: "prerelease v = pre @ Num n # post" and q: "\<forall>m. Num m \<notin> set post"
      by simp_all
    have "SemVer_inc v Prerelease = v\<lparr>prerelease := pre @ Num (n + 1) # post\<rparr>"
      using p inc_rightmost_last_number [OF q, of pre n]
      by (simp add: SemVer_inc_def inc_pre_def)
    then show ?thesis
      using assms pass(4) by (simp add: continuation_candidate_def semver_inc_def)
  qed
  from pass zero other cont show ?thesis by blast
qed

theorem dampening_leaves_prerelease_increment_witness:
  "parse ''0.1.2-beta.1''
     = Some \<lparr>major = 0, minor = 1, patch = 2, prerelease = [Alnum ''beta'', Num 1]\<rparr>
   \<and> inc ''0.1.2-beta.1'' Major = Inr (Some ''0.2.0'')
   \<and> inc ''0.1.2-beta.1'' Minor = Inr (Some ''0.1.2'')
   \<and> inc ''0.1.2-beta.1'' Patch = Inr (Some ''0.1.2'')
   \<and> inc ''0.1.2-beta.1'' Premajor = Inr (Some ''1.0.0-0'')
   \<and> inc ''0.1.2-beta.1'' Preminor = Inr (Some ''0.2.0-0'')
   \<and> inc ''0.1.2-beta.1'' Prepatch = Inr (Some ''0.1.3-0'')
   \<and> inc ''0.1.2-beta.1'' Prerelease = Inr (Some ''0.1.2-beta.2'')
   \<and> continuation_candidate ''0.1.2-beta.1'' = Inr (Some ''0.1.2-beta.2'')
   \<and> parse ''1.1.2'' = Some \<lparr>major = 1, minor = 1, patch = 2, prerelease = []\<rparr>
   \<and> inc ''1.1.2'' Major = Inr (Some ''2.0.0'')
   \<and> inc ''1.1.2'' Minor = Inr (Some ''1.2.0'')
   \<and> inc ''1.1.2'' Patch = Inr (Some ''1.1.3'')"
proof -
  let ?v = "\<lparr>major = 0, minor = 1, patch = 2, prerelease = [Alnum ''beta'', Num 1]\<rparr>"
  let ?u = "\<lparr>major = 1, minor = 1, patch = 2, prerelease = []\<rparr>"
  have p: "parse ''0.1.2-beta.1'' = Some ?v"
    by (simp add: semver_eval)
  have q: "parse ''1.1.2'' = Some ?u"
    by (simp add: semver_eval)
  have s: "semver_inc ''0.1.2-beta.1'' Minor = Some ''0.2.0''"
    "semver_inc ''0.1.2-beta.1'' Patch = Some ''0.1.2''"
    "semver_inc ''0.1.2-beta.1'' Premajor = Some ''1.0.0-0''"
    "semver_inc ''0.1.2-beta.1'' Preminor = Some ''0.2.0-0''"
    "semver_inc ''0.1.2-beta.1'' Prepatch = Some ''0.1.3-0''"
    "semver_inc ''0.1.2-beta.1'' Prerelease = Some ''0.1.2-beta.2''"
    by (simp_all add: semver_eval)
  have t: "semver_inc ''1.1.2'' Major = Some ''2.0.0''" "semver_inc ''1.1.2'' Minor = Some ''1.2.0''"
    "semver_inc ''1.1.2'' Patch = Some ''1.1.3''"
    by (simp_all add: semver_eval)
  have f: "format (?v\<lparr>prerelease := [Alnum ''beta''] @ Num (1 + 1) # []\<rparr>) = ''0.1.2-beta.2''"
    by (simp add: format_def show_nat.simps digit_char_def)
  have z: "major ?v = 0" "major ?u \<noteq> 0" "prerelease ?v = [Alnum ''beta''] @ Num 1 # []"
    "\<forall>m. Num m \<notin> set []"
    by simp_all
  from dampening_leaves_prerelease_increment [OF p] z
  have "inc ''0.1.2-beta.1'' Major = Inr (semver_inc ''0.1.2-beta.1'' Minor)"
    "inc ''0.1.2-beta.1'' Minor = Inr (semver_inc ''0.1.2-beta.1'' Patch)"
    "inc ''0.1.2-beta.1'' Patch = Inr (semver_inc ''0.1.2-beta.1'' Patch)"
    "inc ''0.1.2-beta.1'' Premajor = Inr (semver_inc ''0.1.2-beta.1'' Premajor)"
    "inc ''0.1.2-beta.1'' Preminor = Inr (semver_inc ''0.1.2-beta.1'' Preminor)"
    "inc ''0.1.2-beta.1'' Prepatch = Inr (semver_inc ''0.1.2-beta.1'' Prepatch)"
    "inc ''0.1.2-beta.1'' Prerelease = Inr (semver_inc ''0.1.2-beta.1'' Prerelease)"
    "continuation_candidate ''0.1.2-beta.1''
       = Inr (Some (format (?v\<lparr>prerelease := [Alnum ''beta''] @ Num (1 + 1) # []\<rparr>)))"
    by blast+
  then have a: "inc ''0.1.2-beta.1'' Major = Inr (Some ''0.2.0'')"
    "inc ''0.1.2-beta.1'' Minor = Inr (Some ''0.1.2'')"
    "inc ''0.1.2-beta.1'' Patch = Inr (Some ''0.1.2'')"
    "inc ''0.1.2-beta.1'' Premajor = Inr (Some ''1.0.0-0'')"
    "inc ''0.1.2-beta.1'' Preminor = Inr (Some ''0.2.0-0'')"
    "inc ''0.1.2-beta.1'' Prepatch = Inr (Some ''0.1.3-0'')"
    "inc ''0.1.2-beta.1'' Prerelease = Inr (Some ''0.1.2-beta.2'')"
    "continuation_candidate ''0.1.2-beta.1'' = Inr (Some ''0.1.2-beta.2'')"
    by (simp_all only: s f)
  from dampening_leaves_prerelease_increment [OF q] z
  have "inc ''1.1.2'' Major = Inr (semver_inc ''1.1.2'' Major)"
    "inc ''1.1.2'' Minor = Inr (semver_inc ''1.1.2'' Minor)"
    "inc ''1.1.2'' Patch = Inr (semver_inc ''1.1.2'' Patch)"
    by blast+
  then have b: "inc ''1.1.2'' Major = Inr (Some ''2.0.0'')" "inc ''1.1.2'' Minor = Inr (Some ''1.2.0'')"
    "inc ''1.1.2'' Patch = Inr (Some ''1.1.3'')"
    by (simp_all only: t)
  from p q a b show ?thesis by (simp only: simp_thms)
qed

subsection \<open>Major-zero dampening in the calculator\<close>

lemma latest_from_mem: "latest_from best vs = Inr r \<Longrightarrow> r \<in> set (best # vs)"
proof (induction vs arbitrary: best)
  case Nil
  then show ?case by simp
next
  case (Cons v vs)
  then show ?case by (auto split: sum.splits if_splits)
qed

lemma getLatestVersion_mem: "getLatestVersion vs flag = Inr (Some r) \<Longrightarrow> r \<in> set vs"
proof -
  assume a: "getLatestVersion vs flag = Inr (Some r)"
  let ?f = "filter (\<lambda>v. flag \<or> semver_prerelease v = None) vs"
  from a obtain x xs where f: "?f = x # xs" and l: "latest_from x xs = Inr r"
    by (auto simp: getLatestVersion_def split: list.splits sum.splits)
  from latest_from_mem [OF l] f have "r \<in> set ?f" by simp
  then show ?thesis by simp
qed

lemma latest_from_max:
  assumes "\<forall>v \<in> set (best # vs). \<exists>u. parse v = Some u \<and> exact_version u"
  shows "\<exists>r u. latest_from best vs = Inr r \<and> r \<in> set (best # vs) \<and> parse r = Some u
           \<and> (\<forall>v \<in> set (best # vs). \<forall>x. parse v = Some x \<longrightarrow> 0 \<le> compare u x)"
  using assms
proof (induction vs arbitrary: best)
  case Nil
  then show ?case by (auto simp: compare_refl)
next
  case (Cons v vs)
  from Cons.prems obtain x y where x: "parse v = Some x" "exact_version x"
    and y: "parse best = Some y" "exact_version y" by auto
  let ?b = "if 0 < compare x y then v else best"
  have step: "latest_from best (v # vs) = latest_from ?b vs"
    using x y by (simp add: semver_gt_def)
  have "\<forall>v \<in> set (?b # vs). \<exists>u. parse v = Some u \<and> exact_version u"
    using Cons.prems by auto
  from Cons.IH [OF this] obtain r u where r: "latest_from ?b vs = Inr r" "r \<in> set (?b # vs)"
    "parse r = Some u" "\<forall>v \<in> set (?b # vs). \<forall>x. parse v = Some x \<longrightarrow> 0 \<le> compare u x"
    by blast
  from r(2,3) Cons.prems have eu: "exact_version u" by (auto split: if_splits)
  have bu: "0 \<le> compare u (if 0 < compare x y then x else y)"
    using r(4) x y by (auto split: if_splits)
  have "0 \<le> compare u x \<and> 0 \<le> compare u y"
    using bu x(2) y(2) eu
    by (auto simp: compare_le_key compare_gt_key split: if_splits)
  with r x y show ?case
    unfolding step by (auto split: if_splits)
qed

lemma getLatestVersion_max:
  assumes "vs \<noteq> []" and "\<forall>v \<in> set vs. \<exists>u. parse v = Some u \<and> exact_version u"
  shows "\<exists>latest w. getLatestVersion vs True = Inr (Some latest) \<and> latest \<in> set vs
           \<and> parse latest = Some w
           \<and> (\<forall>v \<in> set vs. \<forall>x. parse v = Some x \<longrightarrow> 0 \<le> compare w x)"
proof -
  from assms(1) obtain b bs where vs: "vs = b # bs" by (cases vs) auto
  from latest_from_max [of b bs] assms(2) vs obtain r u where
    "latest_from b bs = Inr r" "r \<in> set (b # bs)" "parse r = Some u"
    "\<forall>v \<in> set (b # bs). \<forall>x. parse v = Some x \<longrightarrow> 0 \<le> compare u x"
    by blast
  then show ?thesis
    unfolding vs by (simp add: getLatestVersion_def)
qed

lemma inc_triplet_text:
  assumes "parse lv = Some v"
  shows "inc (triplet_text v) t
         = Inr (Some (format (SemVer_inc \<lparr>major = major v, minor = minor v, patch = patch v, prerelease = []\<rparr>
                                (if major v = 0 then dampen t else t))))"
  using parse_bounds [OF assms]
  by (simp add: inc_def semver_inc_def parse_triplet_text)

lemma prerelease_suffix_type: "prerelease_suffix (ctx\<lparr>vc_type := t\<rparr>) = prerelease_suffix ctx"
  by (simp add: prerelease_suffix_def)

lemma inc_minor_patch_major_zero:
  "parse s = Some v \<Longrightarrow> major v = 0 \<Longrightarrow> inc s Minor = inc s Patch"
  by (simp add: inc_def)

text \<open>
  C2 (amended). For a last release whose major component is 0, a requested \<^verbatim>\<open>major\<close> is
  incremented as a plain semver \<^verbatim>\<open>minor\<close> and a requested \<^verbatim>\<open>minor\<close> as a plain semver
  \<^verbatim>\<open>patch\<close>; and when every version tag of the branch has major component 0 as well, the
  calculator returns the same result for the requested bump \<^verbatim>\<open>minor\<close> as for \<^verbatim>\<open>patch\<close>.
\<close>

theorem major_zero_minor_as_patch:
  assumes "lr_version (vc_lastRelease ctx) = Some lv" and "parse lv = Some v" and "major v = 0"
    and "\<forall>t w. t \<in> set (b_tags (vc_branch ctx)) \<and> parse (version t) = Some w \<longrightarrow> major w = 0"
  shows "inc lv Major = Inr (semver_inc lv Minor)
         \<and> inc lv Minor = Inr (semver_inc lv Patch)
         \<and> inc lv Patch = Inr (semver_inc lv Patch)
         \<and> getNextVersion (ctx\<lparr>vc_type := Minor\<rparr>) = getNextVersion (ctx\<lparr>vc_type := Patch\<rparr>)"
proof -
  from assms(2) obtain c cs where lv: "lv = c # cs"
    by (cases lv) (auto simp: parse_empty)
  have incs: "inc lv Major = Inr (semver_inc lv Minor)" "inc lv Minor = Inr (semver_inc lv Patch)"
    "inc lv Patch = Inr (semver_inc lv Patch)"
    using assms(2,3) by (simp_all add: inc_def)
  have restart: "restart_candidate (ctx\<lparr>vc_type := Minor\<rparr>) v = restart_candidate (ctx\<lparr>vc_type := Patch\<rparr>) v"
    using assms(3) by (simp add: restart_candidate_def inc_triplet_text [OF assms(2)] prerelease_suffix_type)
  have fresh: "fresh_candidate (ctx\<lparr>vc_type := Minor\<rparr>) = fresh_candidate (ctx\<lparr>vc_type := Patch\<rparr>)"
  proof (cases "getLatestVersion (tagsToVersions (b_tags (vc_branch ctx))) True")
    case (Inl e)
    then show ?thesis by (simp add: fresh_candidate_def)
  next
    case (Inr r)
    show ?thesis
    proof (cases r)
      case None
      with Inr show ?thesis by (simp add: fresh_candidate_def)
    next
      case (Some latest)
      with Inr have "latest \<in> set (tagsToVersions (b_tags (vc_branch ctx)))"
        by (simp add: getLatestVersion_mem)
      then obtain t where t: "t \<in> set (b_tags (vc_branch ctx))" "latest = version t"
        by (auto simp: tagsToVersions_def)
      have "inc latest Minor = inc latest Patch"
      proof (cases "parse latest")
        case None
        then show ?thesis by (simp add: inc_def)
      next
        case (Some w)
        with t assms(4) have "major w = 0" by blast
        with Some show ?thesis by (simp add: inc_def)
      qed
      with Inr Some show ?thesis by (simp add: fresh_candidate_def prerelease_suffix_type cong: sum.case_cong)
    qed
  qed
  have cont: "continues_prerelease (ctx\<lparr>vc_type := Minor\<rparr>) lv = continues_prerelease (ctx\<lparr>vc_type := Patch\<rparr>) lv"
    by (simp add: continues_prerelease_def)
  have "getNextVersion (ctx\<lparr>vc_type := Minor\<rparr>) = getNextVersion (ctx\<lparr>vc_type := Patch\<rparr>)"
    using assms(1,2) incs restart fresh cont
    by (simp add: getNextVersion_def lv Let_def cong: sum.case_cong)
  with incs show ?thesis by simp
qed


theorem major_zero_minor_as_patch_witness:
  "parse ''v0.0.1-beta.1''
     = Some \<lparr>major = 0, minor = 0, patch = 1, prerelease = [Alnum ''beta'', Num 1]\<rparr>
   \<and> getNextVersion (example_context ''beta'' PrereleaseBranch
        [example_tag ''0.0.1-beta.1'' [Some ''beta'']] Minor (Some ''beta'') ''v0.0.1-beta.1'' [Some ''beta''])
       = Inr (Some ''0.0.1-beta.2'')
   \<and> getNextVersion (example_context ''beta'' PrereleaseBranch
        [example_tag ''0.0.1-beta.1'' [Some ''beta'']] Patch (Some ''beta'') ''v0.0.1-beta.1'' [Some ''beta''])
       = Inr (Some ''0.0.1-beta.2'')"
proof -
  let ?ctx = "example_context ''beta'' PrereleaseBranch
        [example_tag ''0.0.1-beta.1'' [Some ''beta'']] Patch (Some ''beta'') ''v0.0.1-beta.1'' [Some ''beta'']"
  have h1: "lr_version (vc_lastRelease ?ctx) = Some ''v0.0.1-beta.1''"
    by (simp add: example_eval)
  have h2: "parse ''v0.0.1-beta.1''
     = Some \<lparr>major = 0, minor = 0, patch = 1, prerelease = [Alnum ''beta'', Num 1]\<rparr>"
    by (simp add: semver_eval)
  have h3: "major \<lparr>major = 0, minor = 0, patch = 1, prerelease = [Alnum ''beta'', Num 1]\<rparr> = 0"
    by simp
  have h4: "\<forall>t w. t \<in> set (b_tags (vc_branch ?ctx)) \<and> parse (version t) = Some w \<longrightarrow> major w = 0"
    by (auto simp: example_eval semver_eval)
  have v: "getNextVersion ?ctx = Inr (Some ''0.0.1-beta.2'')"
    by (simp add: example_eval calculator_eval semver_eval)
  have u: "?ctx\<lparr>vc_type := Minor\<rparr> = example_context ''beta'' PrereleaseBranch
        [example_tag ''0.0.1-beta.1'' [Some ''beta'']] Minor (Some ''beta'') ''v0.0.1-beta.1'' [Some ''beta'']"
    "?ctx\<lparr>vc_type := Patch\<rparr> = ?ctx"
    by (simp_all add: example_eval)
  show ?thesis
    using major_zero_minor_as_patch [OF h1 h2 h3 h4] h2 v unfolding u by simp
qed

text \<open>
  C2 as stated fails: at the last release \<^verbatim>\<open>0.0.1\<close> on a release branch the requested bump
  \<^verbatim>\<open>major\<close> gives \<^verbatim>\<open>0.1.0\<close> and the requested bump \<^verbatim>\<open>minor\<close> gives \<^verbatim>\<open>0.0.2\<close>, as the
  repository's tests expect.
\<close>

theorem major_is_not_minor_at_major_zero:
  "getNextVersion (example_context ''master'' ReleaseBranch [example_tag ''0.0.1'' [None]]
      Major None ''0.0.1'' [None]) = Inr (Some ''0.1.0'')
   \<and> getNextVersion (example_context ''master'' ReleaseBranch [example_tag ''0.0.1'' [None]]
      Minor None ''0.0.1'' [None]) = Inr (Some ''0.0.2'')
   \<and> getNextVersion (example_context ''master'' ReleaseBranch [example_tag ''0.0.1'' [None]]
      Major None ''0.0.1'' [None])
     \<noteq> getNextVersion (example_context ''master'' ReleaseBranch [example_tag ''0.0.1'' [None]]
      Minor None ''0.0.1'' [None])"
  by (simp add: example_eval calculator_eval semver_eval)

subsection \<open>The prerelease branch rule\<close>

lemma continuation_candidate_inc_pre:
  assumes "parse lv = Some v" and "prerelease v \<noteq> []"
  shows "continuation_candidate lv = Inr (Some (format (inc_pre v)))"
  using assms by (simp add: continuation_candidate_def inc_def semver_inc_def SemVer_inc_def)

lemma fresh_candidate_latest:
  assumes "getLatestVersion (tagsToVersions (b_tags (vc_branch ctx))) True = Inr (Some latest)"
    and "parse latest = Some w"
  shows "fresh_candidate ctx
         = Inr (format (SemVer_inc w (if major w = 0 then dampen (vc_type ctx) else vc_type ctx))
                @ prerelease_suffix ctx)"
  using assms by (simp add: fresh_candidate_def inc_def semver_inc_def text_of_def)

lemma restart_candidate_triplet:
  assumes "parse lv = Some v"
  shows "restart_candidate ctx v
         = Inr (format (SemVer_inc \<lparr>major = major v, minor = minor v, patch = patch v, prerelease = []\<rparr>
                          (if major v = 0 then dampen (vc_type ctx) else vc_type ctx))
                @ prerelease_suffix ctx)"
  by (simp add: restart_candidate_def inc_triplet_text [OF assms] text_of_def)

lemma tags_latest:
  assumes "b_tags (vc_branch ctx) \<noteq> []"
    and "\<forall>t \<in> set (b_tags (vc_branch ctx)). \<exists>u. parse (version t) = Some u \<and> exact_version u"
  shows "\<exists>latest w. getLatestVersion (tagsToVersions (b_tags (vc_branch ctx))) True = Inr (Some latest)
           \<and> latest \<in> set (tagsToVersions (b_tags (vc_branch ctx))) \<and> parse latest = Some w
           \<and> (\<forall>t \<in> set (b_tags (vc_branch ctx)). \<forall>u. parse (version t) = Some u \<longrightarrow> 0 \<le> compare w u)"
proof -
  have "tagsToVersions (b_tags (vc_branch ctx)) \<noteq> []"
    using assms(1) by (simp add: tagsToVersions_def)
  moreover have "\<forall>v \<in> set (tagsToVersions (b_tags (vc_branch ctx))). \<exists>u. parse v = Some u \<and> exact_version u"
    using assms(2) by (auto simp: tagsToVersions_def)
  ultimately obtain latest w where
    "getLatestVersion (tagsToVersions (b_tags (vc_branch ctx))) True = Inr (Some latest)"
    "latest \<in> set (tagsToVersions (b_tags (vc_branch ctx)))" "parse latest = Some w"
    "\<forall>v \<in> set (tagsToVersions (b_tags (vc_branch ctx))). \<forall>x. parse v = Some x \<longrightarrow> 0 \<le> compare w x"
    using getLatestVersion_max by blast
  then show ?thesis by (auto simp: tagsToVersions_def)
qed

text \<open>
  C1 (amended). On a prerelease branch with a last release \<open>lv\<close>: when \<open>lv\<close> is a prerelease
  and one of its channels is the channel of the next release, the continuation candidate is
  \<open>lv\<close> with its prerelease counter incremented, the fresh candidate is the semver increment
  by the (dampened) requested type of the version that \<^verbatim>\<open>getLatestVersion\<close> picks among the
  branch's tags (prerelease versions included, so that the increment of a prerelease
  version may only drop its suffix) with the suffix \<^verbatim>\<open>-<identifier>.<base>\<close> appended, and
  the result is the continuation candidate when it is above the fresh candidate in semver
  precedence and the fresh candidate otherwise. The version picked is one of the tag
  versions and no tag version is above it, when the tag versions are versions whose
  identifiers are compared exactly (numeric prerelease identifiers below \<open>2^53 - 1\<close>).
  Otherwise the result is the last release's own \<^verbatim>\<open>major.minor.patch\<close> triplet incremented
  by the (dampened) requested type, with the suffix appended.
\<close>

theorem prerelease_branch_next_version:
  assumes "b_type (vc_branch ctx) = PrereleaseBranch"
    and "lr_version (vc_lastRelease ctx) = Some lv" and "parse lv = Some v"
  shows "(continues_prerelease ctx lv \<longrightarrow>
            continuation_candidate lv = Inr (Some (format (inc_pre v)))
            \<and> (\<forall>latest w. getLatestVersion (tagsToVersions (b_tags (vc_branch ctx))) True = Inr (Some latest)
                  \<and> parse latest = Some w \<longrightarrow>
                  fresh_candidate ctx
                  = Inr (format (SemVer_inc w (if major w = 0 then dampen (vc_type ctx) else vc_type ctx))
                         @ prerelease_suffix ctx))
            \<and> (b_tags (vc_branch ctx) \<noteq> []
                \<and> (\<forall>t \<in> set (b_tags (vc_branch ctx)). \<exists>u. parse (version t) = Some u \<and> exact_version u) \<longrightarrow>
                (\<exists>latest w. getLatestVersion (tagsToVersions (b_tags (vc_branch ctx))) True = Inr (Some latest)
                   \<and> latest \<in> set (tagsToVersions (b_tags (vc_branch ctx))) \<and> parse latest = Some w
                   \<and> (\<forall>t \<in> set (b_tags (vc_branch ctx)). \<forall>u. parse (version t) = Some u \<longrightarrow>
                          0 \<le> compare w u)))
            \<and> (\<forall>b x y. fresh_candidate ctx = Inr b \<and> parse (format (inc_pre v)) = Some x
                  \<and> parse b = Some y \<longrightarrow>
                  getNextVersion ctx
                  = Inr (Some (if 0 < compare x y then format (inc_pre v) else b))))
         \<and> (\<not> continues_prerelease ctx lv \<longrightarrow>
              getNextVersion ctx
              = Inr (Some (format (SemVer_inc
                                     \<lparr>major = major v, minor = minor v, patch = patch v, prerelease = []\<rparr>
                                     (if major v = 0 then dampen (vc_type ctx) else vc_type ctx))
                           @ prerelease_suffix ctx)))"
proof -
  from assms(3) obtain c cs where lv: "lv = c # cs"
    by (cases lv) (auto simp: parse_empty)
  have restart: "getNextVersion ctx
              = Inr (Some (format (SemVer_inc
                                     \<lparr>major = major v, minor = minor v, patch = patch v, prerelease = []\<rparr>
                                     (if major v = 0 then dampen (vc_type ctx) else vc_type ctx))
                           @ prerelease_suffix ctx))"
    if "\<not> continues_prerelease ctx lv"
    using that assms by (simp add: getNextVersion_def lv Let_def restart_candidate_triplet [OF assms(3)])
  have cont: "continuation_candidate lv = Inr (Some (format (inc_pre v)))"
    if "continues_prerelease ctx lv"
  proof -
    from that assms(3) have "prerelease v \<noteq> []"
      by (auto simp: continues_prerelease_def semver_prerelease_def split: if_splits)
    with assms(3) show ?thesis by (rule continuation_candidate_inc_pre)
  qed
  have greater: "getNextVersion ctx = Inr (Some (if 0 < compare x y then format (inc_pre v) else b))"
    if "continues_prerelease ctx lv" and "fresh_candidate ctx = Inr b"
      and "parse (format (inc_pre v)) = Some x" and "parse b = Some y" for b x y
  proof -
    have "getNextVersion ctx = highest (Some (format (inc_pre v))) (Some b)"
      using that(1,2) cont [OF that(1)] assms by (simp add: getNextVersion_def lv Let_def)
    with that(3,4) show ?thesis by (simp add: highest_def semver_gt_def)
  qed
  show ?thesis
    using restart cont greater fresh_candidate_latest tags_latest [of ctx] by blast
qed

theorem prerelease_branch_next_version_witness:
  "continues_prerelease
     (example_context ''beta'' PrereleaseBranch
        [example_tag ''1.0.0'' [None], example_tag ''1.0.1-beta.1'' [Some ''beta'']]
        Patch (Some ''beta'') ''1.0.1-beta.1'' [Some ''beta''])
     ''1.0.1-beta.1''
   \<and> continuation_candidate ''1.0.1-beta.1'' = Inr (Some ''1.0.1-beta.2'')
   \<and> getLatestVersion [''1.0.0'', ''1.0.1-beta.1''] True = Inr (Some ''1.0.1-beta.1'')
   \<and> 0 \<le> compare \<lparr>major = 1, minor = 0, patch = 1, prerelease = [Alnum ''beta'', Num 1]\<rparr>
              \<lparr>major = 1, minor = 0, patch = 0, prerelease = []\<rparr>
   \<and> fresh_candidate
     (example_context ''beta'' PrereleaseBranch
        [example_tag ''1.0.0'' [None], example_tag ''1.0.1-beta.1'' [Some ''beta'']]
        Patch (Some ''beta'') ''1.0.1-beta.1'' [Some ''beta'']) = Inr ''1.0.1-beta.1''
   \<and> getNextVersion
     (example_context ''beta'' PrereleaseBranch
        [example_tag ''1.0.0'' [None], example_tag ''1.0.1-beta.1'' [Some ''beta'']]
        Patch (Some ''beta'') ''1.0.1-beta.1'' [Some ''beta'']) = Inr (Some ''1.0.1-beta.2'')
   \<and> \<not> continues_prerelease
     (example_context ''alpha'' PrereleaseBranch [example_tag ''1.0.1-beta.1'' [Some ''beta'']]
        Patch (Some ''alpha'') ''1.0.1-beta.1'' [Some ''beta''])
     ''1.0.1-beta.1''
   \<and> getNextVersion
     (example_context ''alpha'' PrereleaseBranch [example_tag ''1.0.1-beta.1'' [Some ''beta'']]
        Patch (Some ''alpha'') ''1.0.1-beta.1'' [Some ''beta'']) = Inr (Some ''1.0.2-alpha.1'')"
proof -
  let ?beta = "example_context ''beta'' PrereleaseBranch
        [example_tag ''1.0.0'' [None], example_tag ''1.0.1-beta.1'' [Some ''beta'']]
        Patch (Some ''beta'') ''1.0.1-beta.1'' [Some ''beta'']"
  let ?alpha = "example_context ''alpha'' PrereleaseBranch [example_tag ''1.0.1-beta.1'' [Some ''beta'']]
        Patch (Some ''alpha'') ''1.0.1-beta.1'' [Some ''beta'']"
  let ?v = "\<lparr>major = 1, minor = 0, patch = 1, prerelease = [Alnum ''beta'', Num 1]\<rparr>"
  let ?u = "\<lparr>major = 1, minor = 0, patch = 0, prerelease = []\<rparr>"
  let ?x = "\<lparr>major = 1, minor = 0, patch = 1, prerelease = [Alnum ''beta'', Num 2]\<rparr>"
  have p: "parse ''1.0.1-beta.1'' = Some ?v"
    by (simp add: semver_eval)
  have p0: "parse ''1.0.0'' = Some ?u"
    by (simp add: semver_eval)
  have b1: "b_type (vc_branch ?beta) = PrereleaseBranch"
    and b2: "lr_version (vc_lastRelease ?beta) = Some ''1.0.1-beta.1''"
    and a1: "b_type (vc_branch ?alpha) = PrereleaseBranch"
    and a2: "lr_version (vc_lastRelease ?alpha) = Some ''1.0.1-beta.1''"
    by (simp_all add: example_eval)
  have tg: "b_tags (vc_branch ?beta)
      = [example_tag ''1.0.0'' [None], example_tag ''1.0.1-beta.1'' [Some ''beta'']]"
    "tagsToVersions [example_tag ''1.0.0'' [None], example_tag ''1.0.1-beta.1'' [Some ''beta'']]
      = [''1.0.0'', ''1.0.1-beta.1'']"
    by (simp_all add: example_eval tagsToVersions_def)
  have ex: "exact_version ?v" "exact_version ?u"
    by (simp_all add: exact_version_def MAX_SAFE_INTEGER_def is_digit_def digit_val_def)
  have tv: "b_tags (vc_branch ?beta) \<noteq> []
      \<and> (\<forall>t \<in> set (b_tags (vc_branch ?beta)). \<exists>u. parse (version t) = Some u \<and> exact_version u)"
    unfolding tg using p p0 ex by (simp add: example_tag_def)
  have cb: "continues_prerelease ?beta ''1.0.1-beta.1''"
    by (simp add: continues_prerelease_def semver_prerelease_def p isSameChannel_def example_eval)
  have ca: "\<not> continues_prerelease ?alpha ''1.0.1-beta.1''"
    by (simp add: continues_prerelease_def semver_prerelease_def p isSameChannel_def example_eval)
  have l: "getLatestVersion [''1.0.0'', ''1.0.1-beta.1''] True = Inr (Some ''1.0.1-beta.1'')"
    by (simp add: calculator_eval semver_eval)
  have f: "fresh_candidate ?beta = Inr ''1.0.1-beta.1''"
    by (simp add: example_eval calculator_eval semver_eval)
  have x: "parse (format (inc_pre ?v)) = Some ?x"
    by (simp add: semver_eval)
  have fv: "format (inc_pre ?v) = ''1.0.1-beta.2''"
    by (simp add: semver_eval)
  have gt: "0 < compare ?x ?v"
    by (simp add: semver_eval)
  note inst = prerelease_branch_next_version [OF b1 b2 p]
  from inst cb f x p
  have "getNextVersion ?beta = Inr (Some (if 0 < compare ?x ?v then format (inc_pre ?v) else ''1.0.1-beta.1''))"
    by blast
  with gt have gb: "getNextVersion ?beta = Inr (Some ''1.0.1-beta.2'')"
    by (simp only: fv if_True)
  from inst cb tv
  obtain latest w where m: "getLatestVersion (tagsToVersions (b_tags (vc_branch ?beta))) True = Inr (Some latest)"
    "parse latest = Some w"
    "\<forall>t \<in> set (b_tags (vc_branch ?beta)). \<forall>u. parse (version t) = Some u \<longrightarrow> 0 \<le> compare w u"
    by blast
  from m(1) l have "latest = ''1.0.1-beta.1''" by (simp add: tg)
  with m(2) p have w: "w = ?v" by simp
  from m(3) have "\<forall>t \<in> set [example_tag ''1.0.0'' [None], example_tag ''1.0.1-beta.1'' [Some ''beta'']].
      \<forall>u. parse (version t) = Some u \<longrightarrow> 0 \<le> compare w u"
    unfolding tg(1) .
  then have "\<forall>u. parse ''1.0.0'' = Some u \<longrightarrow> 0 \<le> compare w u"
    by (simp add: example_tag_def)
  with p0 have "0 \<le> compare w ?u" by blast
  then have mx: "0 \<le> compare ?v ?u" unfolding w .
  from prerelease_branch_next_version [OF a1 a2 p] ca
  have ga: "getNextVersion ?alpha = Inr (Some ''1.0.2-alpha.1'')"
    by (simp add: semver_eval example_eval prerelease_suffix_def DEFAULT_PRERELEASE_IDENTIFIER_BASE_def)
  from inst cb
  have "continuation_candidate ''1.0.1-beta.1'' = Inr (Some (format (inc_pre ?v)))"
    by blast
  then have cc: "continuation_candidate ''1.0.1-beta.1'' = Inr (Some ''1.0.1-beta.2'')"
    by (simp only: fv)
  from cb cc l mx f gb ca ga show ?thesis by (simp only: simp_thms)
qed

text \<open>
  Two numeric identifiers of \<open>2^53 - 1\<close> and more that have the same double compare as
  equal, and the comparison stops at them: the continuation candidate
  \<^verbatim>\<open>1.0.1-9007199254740993.6\<close> is not above the fresh candidate
  \<^verbatim>\<open>1.0.1-9007199254740992.1\<close>, which is the result.
\<close>

lemma candidates_equal_by_rounding:
  "to_double 9007199254740993 = 9007199254740992
   \<and> semver_gt ''1.0.1-9007199254740993.6'' ''1.0.1-9007199254740992.1'' = Inr False
   \<and> semver_gt ''1.0.1-9007199254740992.1'' ''1.0.1-9007199254740993.6'' = Inr False
   \<and> getNextVersion
       (example_context ''9007199254740992'' PrereleaseBranch
          [example_tag ''1.0.0'' [None],
           example_tag ''1.0.1-9007199254740993.5'' [Some ''9007199254740992'']]
          Patch (Some ''9007199254740992'') ''1.0.1-9007199254740993.5'' [Some ''9007199254740992''])
     = Inr (Some ''1.0.1-9007199254740992.1'')"
proof -
  have d: "to_double 9007199254740993 = 9007199254740992"
    "to_double 9007199254740992 = 9007199254740992"
    by (simp_all add: to_double_def dropped_bits.simps)
  have pa: "parse ''1.0.1-9007199254740993.6''
      = Some \<lparr>major = 1, minor = 0, patch = 1, prerelease = [Alnum ''9007199254740993'', Num 6]\<rparr>"
    and pb: "parse ''1.0.1-9007199254740992.1''
      = Some \<lparr>major = 1, minor = 0, patch = 1, prerelease = [Alnum ''9007199254740992'', Num 1]\<rparr>"
    and pc: "parse ''1.0.1-9007199254740993.5''
      = Some \<lparr>major = 1, minor = 0, patch = 1, prerelease = [Alnum ''9007199254740993'', Num 5]\<rparr>"
    and p0: "parse ''1.0.0'' = Some \<lparr>major = 1, minor = 0, patch = 0, prerelease = []\<rparr>"
    by (simp_all add: semver_eval)
  have n: "numeric_value (Alnum ''9007199254740993'') = Some 9007199254740992"
    "numeric_value (Alnum ''9007199254740992'') = Some 9007199254740992"
    by (simp_all add: is_digit_def digit_val_def d)
  have g: "semver_gt ''1.0.1-9007199254740993.6'' ''1.0.1-9007199254740992.1'' = Inr False"
    "semver_gt ''1.0.1-9007199254740992.1'' ''1.0.1-9007199254740993.6'' = Inr False"
    by (simp_all add: semver_gt_def pa pb compare_def compareMain_def comparePre_def
        compareNumbers_def compareIdentifiers_def n del: numeric_value.simps)
  have l: "getLatestVersion [''1.0.0'', ''1.0.1-9007199254740993.5''] True
      = Inr (Some ''1.0.1-9007199254740993.5'')"
    by (simp add: getLatestVersion_def semver_gt_def pc p0 compare_def compareMain_def
        compareNumbers_def)
  have i: "inc ''1.0.1-9007199254740993.5'' Prerelease = Inr (Some ''1.0.1-9007199254740993.6'')"
    "inc ''1.0.1-9007199254740993.5'' Patch = Inr (Some ''1.0.1'')"
    by (simp_all add: inc_def semver_inc_def pc SemVer_inc_def inc_pre_def inc_patch_def format_def
        show_nat.simps digit_char_def)
  have "getNextVersion
       (example_context ''9007199254740992'' PrereleaseBranch
          [example_tag ''1.0.0'' [None],
           example_tag ''1.0.1-9007199254740993.5'' [Some ''9007199254740992'']]
          Patch (Some ''9007199254740992'') ''1.0.1-9007199254740993.5'' [Some ''9007199254740992''])
     = Inr (Some ''1.0.1-9007199254740992.1'')"
    by (simp add: example_eval getNextVersion_def pc continues_prerelease_def semver_prerelease_def
        isSameChannel_def continuation_candidate_def fresh_candidate_def tagsToVersions_def l i
        text_of_def prerelease_suffix_def DEFAULT_PRERELEASE_IDENTIFIER_BASE_def highest_def g)
  with d(1) g show ?thesis by (simp only: simp_thms)
qed

text \<open>
  C1 as stated fails: with the single tag \<^verbatim>\<open>1.0.0-beta.1\<close> on channel \<^verbatim>\<open>beta\<close> and the
  requested bump \<^verbatim>\<open>minor\<close>, the bumped triplet of the claim gives \<^verbatim>\<open>1.1.0-beta.1\<close>, while
  the code returns \<^verbatim>\<open>1.0.0-beta.2\<close>, as the repository's test of this input expects.
\<close>

theorem fresh_candidate_is_not_bumped_triplet:
  "getNextVersion
     (example_context ''beta'' PrereleaseBranch [example_tag ''1.0.0-beta.1'' [Some ''beta'']]
        Minor (Some ''beta'') ''v1.0.0-beta.1'' [Some ''beta'']) = Inr (Some ''1.0.0-beta.2'')
   \<and> spec_prerelease_version
     (example_context ''beta'' PrereleaseBranch [example_tag ''1.0.0-beta.1'' [Some ''beta'']]
        Minor (Some ''beta'') ''v1.0.0-beta.1'' [Some ''beta''])
     ''v1.0.0-beta.1'' = Some ''1.1.0-beta.1''"
  by (simp add: example_eval calculator_eval semver_eval spec_prerelease_version_def
      spec_fresh_candidate_def spec_highest_triplet_def)

subsection \<open>Branch validators\<close>

lemma length_uniqBy_from_le: "length (uniqBy_from seen f xs) \<le> length xs"
  by (induction xs arbitrary: seen) (auto simp: le_SucI)

lemma length_uniqBy_from:
  "(length (uniqBy_from seen f xs) = length xs)
   = (distinct (map f xs) \<and> set (map f xs) \<inter> set seen = {})"
proof (induction xs arbitrary: seen)
  case Nil
  then show ?case by simp
next
  case (Cons x xs)
  show ?case
  proof (cases "f x \<in> set seen")
    case True
    have "length (uniqBy_from seen f xs) \<le> length xs" by (rule length_uniqBy_from_le)
    with True show ?thesis by auto
  next
    case False
    with Cons [of "f x # seen"] show ?thesis by auto
  qed
qed

lemma length_uniqBy: "(length (uniqBy f xs) = length xs) = distinct (map f xs)"
  by (simp add: uniqBy_def length_uniqBy_from)

subsection \<open>Traces of the pipeline\<close>

lemma fst_and_then:
  "fst (and_then m k) = fst m @ (case snd m of Inl e \<Rightarrow> [] | Inr a \<Rightarrow> fst (k a))"
  by (cases m) (auto simp: and_then_def split: sum.splits prod.splits)

lemma snd_and_then:
  "snd (and_then m k) = (case snd m of Inl e \<Rightarrow> Inl e | Inr a \<Rightarrow> snd (k a))"
  by (cases m) (auto simp: and_then_def split: sum.splits prod.splits)

lemma fst_call: "fst (call w s v) = [if throws w s = None then Returned s else Threw s]"
  by (simp add: call_def split: option.splits)

lemma snd_call: "snd (call w s v) = (case throws w s of None \<Rightarrow> Inr v | Some e \<Rightarrow> Inl e)"
  by (simp add: call_def split: option.splits)

lemma fst_getBranches:
  "fst (getBranches w inp)
   = [if getBranches_error w inp = None then Returned S_getBranches else Threw S_getBranches]"
  by (simp add: getBranches_def split: option.splits)

lemma snd_getBranches:
  "snd (getBranches w inp)
   = (case getBranches_error w inp of None \<Rightarrow> Inr (w_branches w) | Some e \<Rightarrow> Inl e)"
  by (simp add: getBranches_def split: option.splits)

lemma fst_returns: "fst (returns v) = []" and snd_returns: "snd (returns v) = Inr v"
  and fst_throw: "fst (throw e) = []" and snd_throw: "snd (throw e) = Inl e"
  by (simp_all add: returns_def throw_def)

lemmas step_simps =
  fst_and_then snd_and_then fst_call snd_call fst_getBranches snd_getBranches
  fst_returns snd_returns fst_throw snd_throw

lemma guarded_True: "guarded True t"
  by (induction t) auto

lemma guarded_append_quiet:
  "list_all (\<lambda>e. \<not> is_mutation e) t1 \<Longrightarrow> guarded seen (t1 @ Returned S_verifyConditions # t2)"
  by (induction t1 arbitrary: seen) (auto simp: guarded_True is_mutation_def mutation_site_def)

lemma guarded_quiet: "list_all (\<lambda>e. \<not> is_mutation e) t \<Longrightarrow> guarded seen t"
  by (induction t arbitrary: seen) auto

lemma guarded_nth:
  "guarded seen t \<Longrightarrow> i < length t \<Longrightarrow> is_mutation (t ! i)
   \<Longrightarrow> seen \<or> (\<exists>j<i. t ! j = Returned S_verifyConditions)"
proof (induction t arbitrary: seen i)
  case Nil
  then show ?case by simp
next
  case (Cons e es)
  show ?case
  proof (cases i)
    case 0
    with Cons.prems show ?thesis by (auto split: if_splits)
  next
    case (Suc n)
    show ?thesis
    proof (cases "is_mutation e")
      case True
      with Cons.prems show ?thesis by simp
    next
      case False
      with Cons.prems Suc have g: "guarded (seen \<or> e = Returned S_verifyConditions) es"
        and n: "n < length es" and m: "is_mutation (es ! n)" by auto
      from Cons.IH [OF g n m] consider "seen" | "e = Returned S_verifyConditions"
        | j where "j < n" "es ! j = Returned S_verifyConditions" by blast
      then show ?thesis
      proof cases
        case 1
        then show ?thesis by simp
      next
        case 2
        with Suc have "0 < i \<and> (e # es) ! 0 = Returned S_verifyConditions" by simp
        then show ?thesis by blast
      next
        case 3
        with Suc have "Suc j < i \<and> (e # es) ! Suc j = Returned S_verifyConditions" by simp
        then show ?thesis by blast
      qed
    qed
  qed
qed

lemma verify_auth_quiet: "list_all (\<lambda>e. \<not> is_mutation e) (fst (verify_auth w))"
  by (simp add: verify_auth_def is_mutation_def mutation_site_def split: option.splits)

lemma run_guarded: "guarded False (fst (run w inp))"
proof -
  have q: "\<not> is_mutation (Returned S_verify)" "\<not> is_mutation (Threw S_verify)"
    "\<not> is_mutation (Returned S_getGitAuthUrl)" "\<not> is_mutation (Threw S_getGitAuthUrl)"
    "\<not> is_mutation (Returned S_getBranches)" "\<not> is_mutation (Threw S_getBranches)"
    "\<not> is_mutation (Returned S_verifyConditions)" "\<not> is_mutation (Threw S_verifyConditions)"
    by (simp_all add: is_mutation_def mutation_site_def)
  let ?pre = "[Returned S_verify, Returned S_getGitAuthUrl, Returned S_getBranches] @ fst (verify_auth w)"
  have pre: "list_all (\<lambda>e. \<not> is_mutation e) ?pre"
    using verify_auth_quiet [of w] q by simp
  have through: "guarded False (?pre @ Returned S_verifyConditions # t)" for t
    by (rule guarded_append_quiet [OF pre])
  have stop: "guarded False (?pre @ [Threw S_verifyConditions])"
    by (rule guarded_quiet) (use pre q in simp)
  have stop': "guarded False ?pre"
    by (rule guarded_quiet [OF pre])
  show ?thesis
    using through stop stop' q
    by (auto simp: run_def step_simps split: option.splits sum.splits prod.splits)
qed


lemma no_publish_simps:
  "no_publish []" "no_publish (e # t) = (site_of e \<noteq> Some S_publish \<and> no_publish t)"
  "no_publish (t1 @ t2) = (no_publish t1 \<and> no_publish t2)"
  by (simp_all add: no_publish_def)

lemma no_publish_and_then:
  assumes "no_publish (fst m)" and "\<And>a. no_publish (fst (k a))"
  shows "no_publish (fst (and_then m k))"
  using assms by (cases "snd m") (simp_all add: fst_and_then no_publish_simps)

lemma no_publish_call: "s \<noteq> S_publish \<Longrightarrow> no_publish (fst (call w s v))"
  by (simp add: fst_call no_publish_simps)

lemma no_publish_getBranches: "no_publish (fst (getBranches w inp))"
  by (simp add: no_publish_def fst_getBranches)

lemma no_publish_returns: "no_publish (fst (returns v))" and no_publish_throw: "no_publish (fst (throw e))"
  by (simp_all add: fst_returns fst_throw no_publish_simps)

lemmas no_publish_intros = no_publish_and_then no_publish_call no_publish_returns no_publish_throw

lemma add_channel_mutations_no_publish: "no_publish (fst (add_channel_mutations w dry))"
  unfolding add_channel_mutations_def
  by (cases dry) (auto intro!: no_publish_intros)

lemma add_channel_no_publish: "no_publish (fst (add_channel w dry br))"
proof (cases "w_releaseToAdd w br")
  case None
  then show ?thesis by (simp add: add_channel_def no_publish_returns)
next
  case (Some rta)
  show ?thesis
    unfolding add_channel_def Some option.case
    apply (rule no_publish_and_then, simp add: no_publish_call)
    apply (rule no_publish_and_then, simp add: no_publish_call)
    apply (simp only: split: if_split)
    apply (intro conjI impI)
     apply (rule no_publish_throw)
    apply (intro no_publish_and_then add_channel_mutations_no_publish no_publish_returns)
        apply (simp_all add: no_publish_call)
    done
qed

lemma verify_auth_no_publish: "no_publish (fst (verify_auth w))"
  by (simp add: verify_auth_def no_publish_simps split: option.splits)

lemma publish_ordered_no_publish: "no_publish t \<Longrightarrow> publish_ordered t"
  by (auto simp: publish_ordered_def no_publish_def list_all_iff)

lemma publish_ordered_append:
  "no_publish t1 \<Longrightarrow> publish_ordered t2 \<Longrightarrow> publish_ordered (t1 @ t2)"
  by (auto simp: publish_ordered_def no_publish_def list_all_iff intro: list_emb_append2)

lemma publish_ordered_and_then:
  assumes "no_publish (fst m)" and "\<And>a. snd m = Inr a \<Longrightarrow> publish_ordered (fst (k a))"
  shows "publish_ordered (fst (and_then m k))"
proof (cases "snd m")
  case (Inl e)
  with assms(1) show ?thesis by (simp add: fst_and_then publish_ordered_no_publish)
next
  case (Inr a)
  with assms(1) assms(2) [OF Inr] show ?thesis by (simp add: fst_and_then publish_ordered_append)
qed

lemma release_mutations_wet_ok:
  "snd (release_mutations w False) = Inr u \<Longrightarrow>
   fst (release_mutations w False)
   = [Returned S_tag, Returned S_addNote, Returned S_push, Returned S_pushNotes]"
  by (simp add: release_mutations_def step_simps split: option.splits)

lemma release_mutations_no_publish: "no_publish (fst (release_mutations w dry))"
  by (simp add: release_mutations_def step_simps no_publish_simps split: option.splits)

lemma publish_tail_ordered:
  "publish_ordered
     ([Returned S_tag, Returned S_addNote, Returned S_push, Returned S_pushNotes]
      @ fst (and_then (call w S_publish rs) (\<lambda>releases. and_then (call w S_success ()) (\<lambda>_. returns (f releases)))))"
proof -
  let ?P = "if throws w S_publish = None then Returned S_publish else Threw S_publish"
  have "\<exists>rest. no_publish rest \<and>
      fst (and_then (call w S_publish rs) (\<lambda>releases. and_then (call w S_success ()) (\<lambda>_. returns (f releases))))
      = ?P # rest"
    by (simp add: step_simps no_publish_simps split: option.splits)
  then obtain rest where rest: "no_publish rest"
    and eq: "fst (and_then (call w S_publish rs) (\<lambda>releases. and_then (call w S_success ()) (\<lambda>_. returns (f releases))))
      = ?P # rest" by blast
  have sub: "subseq [Returned S_tag, Returned S_push, ?P]
      ([Returned S_tag, Returned S_addNote, Returned S_push, Returned S_pushNotes] @ ?P # rest)"
    by (simp add: list_emb_code)
  have "e = ?P" if "e \<in> set ([Returned S_tag, Returned S_addNote, Returned S_push, Returned S_pushNotes] @ ?P # rest)"
    and "site_of e = Some S_publish" for e
    using that rest by (auto simp: no_publish_def list_all_iff)
  with sub show ?thesis unfolding eq publish_ordered_def by blast
qed

lemma publish_release_ordered:
  assumes wet: "\<not> effective_dryRun inp"
  shows "publish_ordered (fst (publish_release w inp br lr commits nr added))"
proof (cases "b_type br \<noteq> PrereleaseBranch \<and> \<not> w_satisfies w (nr_version nr) (b_range br)")
  case True
  then show ?thesis
    by (simp add: publish_release_def fst_throw publish_ordered_no_publish no_publish_simps)
next
  case False
  have tail: "publish_ordered
     (fst (and_then (release_mutations w False) (\<lambda>_.
           and_then (call w S_publish (w_publish w)) (\<lambda>releases.
           and_then (call w S_success ()) (\<lambda>_. returns (g releases))))))" for g
  proof (cases "snd (release_mutations w False)")
    case (Inl e)
    then show ?thesis
      by (simp add: fst_and_then publish_ordered_no_publish release_mutations_no_publish)
  next
    case (Inr u)
    have "fst (and_then (release_mutations w False) (\<lambda>_.
           and_then (call w S_publish (w_publish w)) (\<lambda>releases.
           and_then (call w S_success ()) (\<lambda>_. returns (g releases)))))
        = [Returned S_tag, Returned S_addNote, Returned S_push, Returned S_pushNotes]
          @ fst (and_then (call w S_publish (w_publish w)) (\<lambda>releases.
                 and_then (call w S_success ()) (\<lambda>_. returns (g releases))))"
      using Inr release_mutations_wet_ok [OF Inr] by (subst fst_and_then) simp
    then show ?thesis by (simp only: publish_tail_ordered)
  qed
  from False wet show ?thesis
    unfolding publish_release_def
    apply (simp only: if_False simp_thms)
    apply (rule publish_ordered_and_then, simp add: no_publish_call)
    apply (rule publish_ordered_and_then, simp add: no_publish_call)
    apply (rule publish_ordered_and_then, simp add: no_publish_call)
    apply (rule tail)
    done
qed

lemma publish_ordered_Nil: "publish_ordered []"
  by (simp add: publish_ordered_def)

lemma next_release_ordered:
  "\<not> effective_dryRun inp \<Longrightarrow>
   publish_ordered (fst (next_release w inp br lr commits ty gitHead added))"
  by (simp add: next_release_def fst_throw publish_ordered_Nil publish_release_ordered
      split: sum.splits error.splits)

lemma new_release_ordered:
  assumes wet: "\<not> effective_dryRun inp"
  shows "publish_ordered (fst (new_release w inp br added))"
  unfolding new_release_def
  apply (rule publish_ordered_and_then)
   apply (simp add: step_simps no_publish_simps split: option.splits list.splits)
  apply (rule publish_ordered_and_then, simp add: no_publish_call)+
  apply (simp add: fst_returns publish_ordered_Nil next_release_ordered [OF wet]
      split: option.splits)
  done

lemma run_ordered:
  assumes wet: "\<not> effective_dryRun inp"
  shows "publish_ordered (fst (run w inp))"
proof (cases "isCi (in_envCi inp) \<and> isPr (in_envCi inp) \<and> \<not> noCi (in_options inp)
         \<and> \<not> publishOnPr (in_options inp)")
  case True
  then show ?thesis by (simp add: run_def fst_returns publish_ordered_Nil)
next
  case False
  then show ?thesis
    unfolding run_def
    apply (simp only: if_False)
    apply (rule publish_ordered_and_then, simp add: no_publish_call no_publish_getBranches)+
    apply (simp split: option.splits add: fst_returns publish_ordered_Nil)
    apply (intro allI impI)
    apply (rule publish_ordered_and_then, simp add: verify_auth_no_publish)
    apply (simp add: fst_returns publish_ordered_Nil)
    apply (intro impI)
    apply (rule publish_ordered_and_then, simp add: no_publish_call)
    apply (rule publish_ordered_and_then, simp add: add_channel_no_publish)
    apply (simp add: new_release_ordered [OF wet] split: prod.splits)
    done
qed


lemma list_all_and_then:
  assumes "list_all Q (fst m)" and "\<And>a. snd m = Inr a \<Longrightarrow> list_all Q (fst (k a))"
  shows "list_all Q (fst (and_then m k))"
  using assms by (cases "snd m") (simp_all add: fst_and_then)

lemma list_all_call: "Q (Returned s) \<Longrightarrow> Q (Threw s) \<Longrightarrow> list_all Q (fst (call w s v))"
  by (simp add: fst_call)

lemma list_all_getBranches:
  "Q (Returned S_getBranches) \<Longrightarrow> Q (Threw S_getBranches) \<Longrightarrow> list_all Q (fst (getBranches w inp))"
  by (simp add: fst_getBranches)

lemma list_all_returns: "list_all Q (fst (returns v))" and list_all_throw: "list_all Q (fst (throw e))"
  by (simp_all add: fst_returns fst_throw)

lemma not_mutation_simps:
  "\<not> is_mutation (Returned S_verify)" "\<not> is_mutation (Threw S_verify)"
  "\<not> is_mutation (Returned S_getGitAuthUrl)" "\<not> is_mutation (Threw S_getGitAuthUrl)"
  "\<not> is_mutation (Returned S_getBranches)" "\<not> is_mutation (Threw S_getBranches)"
  "\<not> is_mutation (Returned S_verifyConditions)" "\<not> is_mutation (Threw S_verifyConditions)"
  "\<not> is_mutation (Returned S_add_getTagHead_next)" "\<not> is_mutation (Threw S_add_getTagHead_next)"
  "\<not> is_mutation (Returned S_add_getTagHead_current)" "\<not> is_mutation (Threw S_add_getTagHead_current)"
  "\<not> is_mutation (Returned S_add_getCommits)" "\<not> is_mutation (Threw S_add_getCommits)"
  "\<not> is_mutation (Returned S_add_generateNotes)" "\<not> is_mutation (Threw S_add_generateNotes)"
  "\<not> is_mutation (Returned S_addChannel)" "\<not> is_mutation (Threw S_addChannel)"
  "\<not> is_mutation (Returned S_add_success)" "\<not> is_mutation (Threw S_add_success)"
  "\<not> is_mutation (Returned S_getTagHead_last)" "\<not> is_mutation (Threw S_getTagHead_last)"
  "\<not> is_mutation (Returned S_getCommits)" "\<not> is_mutation (Threw S_getCommits)"
  "\<not> is_mutation (Returned S_analyzeCommits)" "\<not> is_mutation (Threw S_analyzeCommits)"
  "\<not> is_mutation (Returned S_getGitHead)" "\<not> is_mutation (Threw S_getGitHead)"
  "\<not> is_mutation (Returned S_verifyRelease)" "\<not> is_mutation (Threw S_verifyRelease)"
  "\<not> is_mutation (Returned S_generateNotes)" "\<not> is_mutation (Threw S_generateNotes)"
  "\<not> is_mutation (Returned S_prepare)" "\<not> is_mutation (Threw S_prepare)"
  "\<not> is_mutation (Returned S_publish)" "\<not> is_mutation (Threw S_publish)"
  "\<not> is_mutation (Returned S_success)" "\<not> is_mutation (Threw S_success)"
  by (simp_all add: is_mutation_def mutation_site_def)

lemmas quiet_intros =
  list_all_and_then list_all_returns list_all_throw
  list_all_call [where Q = "\<lambda>e. \<not> is_mutation e"]

lemma add_channel_dry_quiet: "list_all (\<lambda>e. \<not> is_mutation e) (fst (add_channel w True br))"
proof (cases "w_releaseToAdd w br")
  case None
  then show ?thesis by (simp add: add_channel_def list_all_returns)
next
  case (Some rta)
  show ?thesis
    unfolding add_channel_def Some option.case add_channel_mutations_def if_True
    apply (rule list_all_and_then, simp add: list_all_call not_mutation_simps)
    apply (rule list_all_and_then, simp add: list_all_call not_mutation_simps)
    apply (simp only: split: if_split)
    apply (intro conjI impI)
     apply (rule list_all_throw)
    apply (intro quiet_intros)
             apply (simp_all add: not_mutation_simps)
    done
qed

lemma publish_release_dry_quiet:
  "effective_dryRun inp \<Longrightarrow>
   list_all (\<lambda>e. \<not> is_mutation e) (fst (publish_release w inp br lr commits nr added))"
  unfolding publish_release_def release_mutations_def
  apply (simp only: if_True split: if_split)
  apply (intro conjI impI)
   apply (rule list_all_throw)
  apply (intro quiet_intros)
            apply (simp_all add: not_mutation_simps)
  done

lemma next_release_dry_quiet:
  "effective_dryRun inp \<Longrightarrow>
   list_all (\<lambda>e. \<not> is_mutation e) (fst (next_release w inp br lr commits ty gitHead added))"
  by (simp add: next_release_def fst_throw publish_release_dry_quiet split: sum.splits error.splits)

lemma new_release_dry_quiet:
  assumes "effective_dryRun inp"
  shows "list_all (\<lambda>e. \<not> is_mutation e) (fst (new_release w inp br added))"
  unfolding new_release_def
  apply (rule list_all_and_then)
   apply (simp add: step_simps not_mutation_simps split: option.splits list.splits)
  apply (rule list_all_and_then, simp add: list_all_call not_mutation_simps)+
  apply (simp add: list_all_returns next_release_dry_quiet [OF assms] split: option.splits)
  done

lemma run_dry_quiet:
  assumes dry: "effective_dryRun inp"
  shows "list_all (\<lambda>e. \<not> is_mutation e) (fst (run w inp))"
proof (cases "isCi (in_envCi inp) \<and> isPr (in_envCi inp) \<and> \<not> noCi (in_options inp)
         \<and> \<not> publishOnPr (in_options inp)")
  case True
  then show ?thesis by (simp add: run_def fst_returns)
next
  case False
  then show ?thesis
    unfolding run_def
    apply (simp only: if_False)
    apply (rule list_all_and_then, simp add: list_all_call list_all_getBranches not_mutation_simps)+
    apply (simp split: option.splits add: fst_returns)
    apply (intro allI impI)
    apply (rule list_all_and_then, simp add: verify_auth_quiet)
    apply (simp add: fst_returns)
    apply (intro impI)
    apply (rule list_all_and_then, simp add: list_all_call not_mutation_simps)
    apply (rule list_all_and_then, simp add: add_channel_dry_quiet dry)
    apply (simp add: new_release_dry_quiet [OF dry] split: prod.splits)
    done
qed

text \<open>
  C3. In every execution of \<^verbatim>\<open>run\<close>, every git mutation (tag creation, note write, push)
  comes after a call of the VerifyConditions step that returned; outside dry-run mode every
  call of the Publish step comes after a returned tag creation and a returned push that
  follows it; and in dry-run mode there is no git mutation at all.
\<close>

theorem side_effects_ordered:
  "(\<forall>i<length (fst (run w inp)). is_mutation (fst (run w inp) ! i) \<longrightarrow>
      (\<exists>j<i. fst (run w inp) ! j = Returned S_verifyConditions))
   \<and> (\<forall>e. e \<in> set (fst (run w inp)) \<and> site_of e = Some S_publish \<and> \<not> effective_dryRun inp \<longrightarrow>
        subseq [Returned S_tag, Returned S_push, e] (fst (run w inp)))
   \<and> (effective_dryRun inp \<longrightarrow> list_all (\<lambda>e. \<not> is_mutation e) (fst (run w inp)))"
proof (intro conjI allI impI)
  fix i
  assume "i < length (fst (run w inp))" and "is_mutation (fst (run w inp) ! i)"
  with guarded_nth [OF run_guarded, of i w inp]
  show "\<exists>j<i. fst (run w inp) ! j = Returned S_verifyConditions" by simp
next
  fix e
  assume "e \<in> set (fst (run w inp)) \<and> site_of e = Some S_publish \<and> \<not> effective_dryRun inp"
  with run_ordered [of inp w]
  show "subseq [Returned S_tag, Returned S_push, e] (fst (run w inp))"
    by (simp add: publish_ordered_def)
next
  assume "effective_dryRun inp"
  then show "list_all (\<lambda>e. \<not> is_mutation e) (fst (run w inp))" by (rule run_dry_quiet)
qed

subsection \<open>The example run\<close>

lemmas run_eval =
  run_def new_release_def next_release_def release_channel_def publish_release_def
  add_channel_def release_mutations_def
  add_channel_mutations_def verify_auth_def calculator_context_def makeTag_def
  effective_dryRun_def ciBranch_def and_then_def call_def returns_def throw_def getError_def
  semantic_release_def callFail_def getBranches_def getBranches_error_def

lemma master_only_errors:
  "w_remoteBranches w = [\<lparr>bs_name = ''master'', bs_range = Absent, bs_prerelease = Absent\<rparr>]
   \<Longrightarrow> branch_errors w inp = []"
  by (simp add: branch_errors_def branches_eval is_digit_def digit_val_def)

lemmas example_run_eval =
  example_world_def example_input_def example_branch_def example_release_def master_only_errors

lemma example_run:
  "run example_world example_input =
     ([Returned S_verify, Returned S_getGitAuthUrl, Returned S_getBranches, Returned S_verifyAuth,
       Returned S_verifyConditions, Returned S_getCommits, Returned S_analyzeCommits,
       Returned S_getGitHead, Returned S_verifyRelease, Returned S_generateNotes, Returned S_prepare,
       Returned S_tag, Returned S_addNote, Returned S_push, Returned S_pushNotes,
       Returned S_publish, Returned S_success],
      Inr (Released \<lparr>lr_version = None, lr_channels = [], lr_gitTag = None, lr_gitHead = None\<rparr>
             [''feat: a feature'']
             \<lparr>nr_type = Minor, nr_channel = None, nr_gitHead = ''abc123'', nr_version = Some ''1.0.0'',
              nr_gitTag = ''v1.0.0'', nr_name = ''v1.0.0'', nr_notes = ''notes''\<rparr>
             [example_release]))"
  by (simp add: run_eval example_run_eval calculator_eval semver_eval)

theorem side_effects_ordered_witness:
  "\<not> effective_dryRun example_input
   \<and> Returned S_publish \<in> set (fst (run example_world example_input))
   \<and> subseq [Returned S_tag, Returned S_push, Returned S_publish] (fst (run example_world example_input))
   \<and> is_mutation (fst (run example_world example_input) ! 11)
   \<and> (\<exists>j<11. fst (run example_world example_input) ! j = Returned S_verifyConditions)"
proof -
  have d: "\<not> effective_dryRun example_input"
    by (simp add: effective_dryRun_def example_input_def)
  have p: "Returned S_publish \<in> set (fst (run example_world example_input))"
    by (simp add: example_run)
  have s: "site_of (Returned S_publish) = Some S_publish" by simp
  have l: "11 < length (fst (run example_world example_input))"
    by (simp add: example_run)
  have m: "is_mutation (fst (run example_world example_input) ! 11)"
    by (simp add: example_run is_mutation_def mutation_site_def)
  from side_effects_ordered [of example_world example_input] d p s l m
  show ?thesis by blast
qed

subsection \<open>Validation of branch sets\<close>

lemma accepted_iff:
  "accepted validRange packageVersion opts branches =
     (list_all maintenance_branchValidator (maintenance_branches branches)
      \<and> maintenance_branchesValidator validRange (normalize_maintenance (maintenance_branches branches))
      \<and> list_all (prerelease_branchValidator packageVersion opts) (prerelease_branches branches)
      \<and> prerelease_branchesValidator (normalize_prerelease (prerelease_branches branches))
      \<and> release_branchesValidator (release_branches branches))"
  by (auto simp: accepted_def validation_errors_def filter_empty_conv list_all_iff)

lemma getBranches_error_refused:
  "branch_errors w inp \<noteq> [] \<Longrightarrow> \<exists>e. getBranches_error w inp = Some e"
  by (simp add: getBranches_error_def split: option.splits)

lemma run_refused:
  assumes "branch_errors w inp \<noteq> []"
  shows "list_all (\<lambda>e. \<not> is_mutation e) (fst (run w inp))"
    and "(snd (run w inp) = Inr NoRelease \<and> fst (run w inp) = []) \<or> (\<exists>e. snd (run w inp) = Inl e)"
proof -
  from getBranches_error_refused [OF assms] obtain e where e: "getBranches_error w inp = Some e"
    by blast
  show "list_all (\<lambda>e. \<not> is_mutation e) (fst (run w inp))"
    using e by (auto simp: run_def step_simps not_mutation_simps split: option.splits)
  show "(snd (run w inp) = Inr NoRelease \<and> fst (run w inp) = []) \<or> (\<exists>e. snd (run w inp) = Inl e)"
    using e by (auto simp: run_def step_simps split: option.splits)
qed

lemma run_refused_error:
  assumes "branch_errors w inp \<noteq> []"
    and "\<not> (isCi (in_envCi inp) \<and> isPr (in_envCi inp) \<and> \<not> noCi (in_options inp)
            \<and> \<not> publishOnPr (in_options inp))"
    and "throws w S_verify = None" and "throws w S_getGitAuthUrl = None"
    and "throws w S_getBranches = None"
  shows "run w inp
         = ([Returned S_verify, Returned S_getGitAuthUrl, Threw S_getBranches],
            Inl (AggregateError (map branch_failure (branch_errors w inp))))"
  using assms
  by (auto simp: run_def and_then_def call_def getBranches_def getBranches_error_def)

text \<open>
  C4 (amended). The three validators of a branch list accept exactly when the maintenance
  ranges are pairwise distinct after normalisation by \<^verbatim>\<open>semver.validRange\<close>, the values of
  the field \<^verbatim>\<open>prerelease\<close> are pairwise distinct, and there are between 1 and 3 release
  branches. A branch set is accepted exactly when every maintenance branch and every
  prerelease branch passes the validator of its own category, the ranges of the maintenance
  branches (the declared range, or the name where none is declared) are pairwise distinct
  after normalisation by \<^verbatim>\<open>semver.validRange\<close>, the identifiers of the prerelease branches
  (the branch name where the field is \<^verbatim>\<open>true\<close>) are pairwise distinct, and there are between
  1 and 3 release branches. When the branch set is not accepted, the trace of \<^verbatim>\<open>run\<close> has
  no git mutation and \<^verbatim>\<open>run\<close> throws, unless it returned \<^verbatim>\<open>false\<close> at once for a pull
  request; and when the run is no such pull request and the calls before the validation do
  not fail, \<^verbatim>\<open>run\<close> throws the aggregate of the validation errors from the call of
  \<^verbatim>\<open>getBranches\<close>.
\<close>

theorem branch_set_validation:
  "maintenance_branchesValidator validRange ms = distinct (map (\<lambda>b. validRange (bs_range b)) ms)
   \<and> prerelease_branchesValidator ps = distinct (map bs_prerelease ps)
   \<and> release_branchesValidator rs = (1 \<le> length rs \<and> length rs \<le> 3)
   \<and> accepted validRange packageVersion opts branches
       = (list_all maintenance_branchValidator (maintenance_branches branches)
          \<and> list_all (prerelease_branchValidator packageVersion opts) (prerelease_branches branches)
          \<and> distinct (map (\<lambda>b. validRange (maintenance_range b)) (maintenance_branches branches))
          \<and> distinct (map preid (prerelease_branches branches))
          \<and> 1 \<le> length (release_branches branches) \<and> length (release_branches branches) \<le> 3)
   \<and> (\<not> accepted (w_validRange w) (in_packageVersion inp) (calculator_options (in_options inp))
            (w_remoteBranches w) \<longrightarrow>
        list_all (\<lambda>e. \<not> is_mutation e) (fst (run w inp))
        \<and> ((snd (run w inp) = Inr NoRelease \<and> fst (run w inp) = []) \<or> (\<exists>e. snd (run w inp) = Inl e))
        \<and> (\<not> (isCi (in_envCi inp) \<and> isPr (in_envCi inp) \<and> \<not> noCi (in_options inp)
                \<and> \<not> publishOnPr (in_options inp))
             \<and> throws w S_verify = None \<and> throws w S_getGitAuthUrl = None
             \<and> throws w S_getBranches = None \<longrightarrow>
             run w inp
             = ([Returned S_verify, Returned S_getGitAuthUrl, Threw S_getBranches],
                Inl (AggregateError
                       (map branch_failure
                          (validation_errors (w_validRange w) (in_packageVersion inp)
                             (calculator_options (in_options inp)) (w_remoteBranches w)))))))"
proof -
  have m: "maintenance_branchesValidator validRange ms = distinct (map (\<lambda>b. validRange (bs_range b)) ms)"
    for ms
    by (simp add: maintenance_branchesValidator_def length_uniqBy)
  have p: "prerelease_branchesValidator ps = distinct (map bs_prerelease ps)" for ps
    by (simp add: prerelease_branchesValidator_def length_uniqBy)
  have r: "release_branchesValidator rs = (1 \<le> length rs \<and> length rs \<le> 3)" for rs
    by (cases rs) (auto simp: release_branchesValidator_def)
  have nm: "map (\<lambda>b. validRange (bs_range b)) (normalize_maintenance xs)
      = map (\<lambda>b. validRange (maintenance_range b)) xs" for xs
    by (simp add: normalize_maintenance_def)
  have np: "map bs_prerelease (normalize_prerelease xs) = map preid xs" for xs
    by (simp add: normalize_prerelease_def)
  have a: "accepted validRange packageVersion opts branches
       = (list_all maintenance_branchValidator (maintenance_branches branches)
          \<and> list_all (prerelease_branchValidator packageVersion opts) (prerelease_branches branches)
          \<and> distinct (map (\<lambda>b. validRange (maintenance_range b)) (maintenance_branches branches))
          \<and> distinct (map preid (prerelease_branches branches))
          \<and> 1 \<le> length (release_branches branches) \<and> length (release_branches branches) \<le> 3)"
    unfolding accepted_iff m p r nm np by blast
  have e: "branch_errors w inp \<noteq> []"
    if "\<not> accepted (w_validRange w) (in_packageVersion inp) (calculator_options (in_options inp))
            (w_remoteBranches w)"
    using that by (simp add: accepted_def branch_errors_def)
  have g: "list_all (\<lambda>e. \<not> is_mutation e) (fst (run w inp))
        \<and> ((snd (run w inp) = Inr NoRelease \<and> fst (run w inp) = []) \<or> (\<exists>e. snd (run w inp) = Inl e))
        \<and> (\<not> (isCi (in_envCi inp) \<and> isPr (in_envCi inp) \<and> \<not> noCi (in_options inp)
                \<and> \<not> publishOnPr (in_options inp))
             \<and> throws w S_verify = None \<and> throws w S_getGitAuthUrl = None
             \<and> throws w S_getBranches = None \<longrightarrow>
             run w inp
             = ([Returned S_verify, Returned S_getGitAuthUrl, Threw S_getBranches],
                Inl (AggregateError
                       (map branch_failure
                          (validation_errors (w_validRange w) (in_packageVersion inp)
                             (calculator_options (in_options inp)) (w_remoteBranches w))))))"
    if "\<not> accepted (w_validRange w) (in_packageVersion inp) (calculator_options (in_options inp))
            (w_remoteBranches w)"
    using run_refused [OF e [OF that]] run_refused_error [OF e [OF that]]
    by (simp add: branch_errors_def)
  from m p r a g show ?thesis by blast
qed

lemma example_branch_set_classes:
  "maintenance_branches example_branch_set
     = [\<lparr>bs_name = ''1.x'', bs_range = Absent, bs_prerelease = Absent\<rparr>,
        \<lparr>bs_name = ''2.x'', bs_range = Absent, bs_prerelease = Absent\<rparr>]"
  "prerelease_branches example_branch_set
     = [\<lparr>bs_name = ''beta'', bs_range = Absent, bs_prerelease = Flag True\<rparr>,
        \<lparr>bs_name = ''alpha'', bs_range = Absent, bs_prerelease = Flag True\<rparr>]"
  "release_branches example_branch_set
     = [\<lparr>bs_name = ''master'', bs_range = Absent, bs_prerelease = Absent\<rparr>]"
  by (simp_all add: branches_eval example_branch_set_def is_digit_def digit_val_def)

theorem branch_set_validation_witness:
  "accepted example_validRange None default_options example_branch_set
   \<and> map (\<lambda>b. example_validRange (maintenance_range b)) (maintenance_branches example_branch_set)
       = [Some ''>=1.0.0 <2.0.0-0'', Some ''>=2.0.0 <3.0.0-0'']
   \<and> map preid (prerelease_branches example_branch_set) = [Text ''beta'', Text ''alpha'']
   \<and> length (release_branches example_branch_set) = 1
   \<and> \<not> accepted example_validRange None default_options duplicate_identifier_branch_set
   \<and> \<not> accepted example_validRange None default_options duplicate_range_branch_set
   \<and> \<not> accepted example_validRange None default_options four_release_branch_set
   \<and> run duplicate_range_world example_input
       = ([Returned S_verify, Returned S_getGitAuthUrl, Threw S_getBranches],
          Inl (AggregateError [getError ''EMAINTENANCEBRANCHES'']))
   \<and> list_all (\<lambda>e. \<not> is_mutation e) (fst (run duplicate_range_world example_input))"
proof -
  have a: "accepted example_validRange None default_options example_branch_set"
    by (simp add: branches_eval example_branch_set_def example_validRange_def default_options_def
        semver_eval)
  have b: "map (\<lambda>b. example_validRange (maintenance_range b)) (maintenance_branches example_branch_set)
       = [Some ''>=1.0.0 <2.0.0-0'', Some ''>=2.0.0 <3.0.0-0'']"
    "map preid (prerelease_branches example_branch_set) = [Text ''beta'', Text ''alpha'']"
    "length (release_branches example_branch_set) = 1"
    by (simp_all add: example_branch_set_classes maintenance_range_def preid_def example_validRange_def)
  have c: "\<not> accepted example_validRange None default_options duplicate_identifier_branch_set"
    "\<not> accepted example_validRange None default_options duplicate_range_branch_set"
    "\<not> accepted example_validRange None default_options four_release_branch_set"
    by (simp_all add: branches_eval duplicate_identifier_branch_set_def duplicate_range_branch_set_def
        four_release_branch_set_def example_validRange_def default_options_def semver_eval)
  have d: "w_validRange duplicate_range_world = example_validRange"
    "w_remoteBranches duplicate_range_world = duplicate_range_branch_set"
    "in_packageVersion example_input = None"
    "calculator_options (in_options example_input) = default_options"
    by (simp_all add: duplicate_range_world_def example_world_def example_input_def default_options_def)
  have n: "\<not> (isCi (in_envCi example_input) \<and> isPr (in_envCi example_input)
             \<and> \<not> noCi (in_options example_input) \<and> \<not> publishOnPr (in_options example_input))"
    "throws duplicate_range_world S_verify = None"
    "throws duplicate_range_world S_getGitAuthUrl = None"
    "throws duplicate_range_world S_getBranches = None"
    by (simp_all add: duplicate_range_world_def example_world_def example_input_def)
  have v: "validation_errors example_validRange None default_options duplicate_range_branch_set
      = [EMAINTENANCEBRANCHES
           [\<lparr>bs_name = ''1.x'', bs_range = Text ''1.x'', bs_prerelease = Absent\<rparr>,
            \<lparr>bs_name = ''old'', bs_range = Text ''1.x'', bs_prerelease = Absent\<rparr>]]"
    by (simp add: branches_eval duplicate_range_branch_set_def example_validRange_def
        default_options_def semver_eval)
  from branch_set_validation [where w = duplicate_range_world and inp = example_input] c(2) n
  have "list_all (\<lambda>e. \<not> is_mutation e) (fst (run duplicate_range_world example_input))
      \<and> run duplicate_range_world example_input
        = ([Returned S_verify, Returned S_getGitAuthUrl, Threw S_getBranches],
           Inl (AggregateError
                  (map branch_failure
                     (validation_errors example_validRange None default_options
                        duplicate_range_branch_set))))"
    unfolding d by blast
  then have "list_all (\<lambda>e. \<not> is_mutation e) (fst (run duplicate_range_world example_input))
      \<and> run duplicate_range_world example_input
        = ([Returned S_verify, Returned S_getGitAuthUrl, Threw S_getBranches],
           Inl (AggregateError [getError ''EMAINTENANCEBRANCHES'']))"
    by (simp add: v not_mutation_simps)
  with a b c show ?thesis by blast
qed

text \<open>
  C4 as stated fails in the direction "if": a branch set with one release branch and one
  prerelease branch whose identifier \<^verbatim>\<open>rc_1\<close> gives no valid version satisfies the three
  conditions and is refused by the validator of the prerelease branch.
\<close>

theorem valid_invariants_do_not_suffice:
  "\<not> accepted example_validRange None default_options invalid_identifier_branch_set
   \<and> maintenance_branches invalid_identifier_branch_set = []
   \<and> distinct (map (\<lambda>b. example_validRange (maintenance_range b))
                 (maintenance_branches invalid_identifier_branch_set))
   \<and> map preid (prerelease_branches invalid_identifier_branch_set) = [Text ''rc_1'']
   \<and> distinct (map preid (prerelease_branches invalid_identifier_branch_set))
   \<and> length (release_branches invalid_identifier_branch_set) = 1
   \<and> 1 \<le> length (release_branches invalid_identifier_branch_set)
   \<and> length (release_branches invalid_identifier_branch_set) \<le> 3
   \<and> validation_errors example_validRange None default_options invalid_identifier_branch_set
       = [EPRERELEASEBRANCH \<lparr>bs_name = ''beta'', bs_range = Absent, bs_prerelease = Text ''rc_1''\<rparr>]"
  by (simp add: branches_eval invalid_identifier_branch_set_def example_validRange_def
      default_options_def semver_eval)

subsection \<open>The check of the next version against the range of the branch\<close>

lemma publish_release_not_empty:
  "\<not> (b_type br \<noteq> PrereleaseBranch \<and> \<not> w_satisfies w (nr_version nr) (b_range br)) \<Longrightarrow>
   fst (publish_release w inp br lr commits nr added) \<noteq> []"
  by (auto simp: publish_release_def fst_and_then fst_call)

text \<open>
  C6 (amended). On the new-release path, once the next version \<open>v\<close> is computed, \<^verbatim>\<open>run\<close>
  throws the error \<^verbatim>\<open>EINVALIDNEXTVERSION\<close>, before any further call, exactly when the branch
  is not a prerelease branch (it is a release or a maintenance branch) and \<open>v\<close> does not
  satisfy the range of the branch; on a prerelease branch the check is not applied.
\<close>

theorem next_version_range_check:
  assumes "getNextVersion (calculator_context inp br lr ty (release_channel br)) = Inr v"
  shows "(next_release w inp br lr commits ty gitHead added
            = ([], Inl (Single (getError ''EINVALIDNEXTVERSION''))))
         = (b_type br \<noteq> PrereleaseBranch \<and> \<not> w_satisfies w v (b_range br))"
proof (cases "b_type br \<noteq> PrereleaseBranch \<and> \<not> w_satisfies w v (b_range br)")
  case True
  with assms show ?thesis
    by (simp add: next_release_def publish_release_def throw_def)
next
  case False
  let ?nr = "\<lparr>nr_type = ty, nr_channel = release_channel br, nr_gitHead = gitHead, nr_version = v,
             nr_gitTag = makeTag (tagFormat (in_options inp)) v,
             nr_name = makeTag (tagFormat (in_options inp)) v, nr_notes = []\<rparr>"
  from False have "fst (publish_release w inp br lr commits ?nr added) \<noteq> []"
    by (intro publish_release_not_empty) simp
  then have "publish_release w inp br lr commits ?nr added
      \<noteq> ([], Inl (Single (getError ''EINVALIDNEXTVERSION'')))" by auto
  with assms False show ?thesis by (simp add: next_release_def)
qed

lemma out_of_range_run:
  "run out_of_range_world example_input =
     ([Returned S_verify, Returned S_getGitAuthUrl, Returned S_getBranches, Returned S_verifyAuth,
       Returned S_verifyConditions, Returned S_getTagHead_last, Returned S_getCommits,
       Returned S_analyzeCommits, Returned S_getGitHead],
      Inl (Single (getError ''EINVALIDNEXTVERSION'')))"
  by (simp add: out_of_range_world_def bounded_release_branch_def run_eval example_run_eval
      calculator_eval semver_eval)

theorem next_version_range_check_witness:
  "getNextVersion
     (calculator_context example_input bounded_release_branch
        \<lparr>lr_version = Some ''1.0.0'', lr_channels = [None], lr_gitTag = Some ''v1.0.0'',
         lr_gitHead = Some ''v1.0.0''\<rparr> Major (release_channel bounded_release_branch))
     = Inr (Some ''2.0.0'')
   \<and> \<not> w_satisfies out_of_range_world (Some ''2.0.0'') (b_range bounded_release_branch)
   \<and> next_release out_of_range_world example_input bounded_release_branch
        \<lparr>lr_version = Some ''1.0.0'', lr_channels = [None], lr_gitTag = Some ''v1.0.0'',
         lr_gitHead = Some ''v1.0.0''\<rparr> [''feat: a feature''] Major ''abc123'' []
       = ([], Inl (Single (getError ''EINVALIDNEXTVERSION'')))"
proof -
  let ?lr = "\<lparr>lr_version = Some ''1.0.0'', lr_channels = [None], lr_gitTag = Some ''v1.0.0'',
         lr_gitHead = Some ''v1.0.0''\<rparr>"
  have v: "getNextVersion
     (calculator_context example_input bounded_release_branch ?lr Major
        (release_channel bounded_release_branch)) = Inr (Some ''2.0.0'')"
    by (simp add: calculator_context_def release_channel_def bounded_release_branch_def
        example_input_def calculator_eval semver_eval)
  have s: "\<not> w_satisfies out_of_range_world (Some ''2.0.0'') (b_range bounded_release_branch)"
    by (simp add: out_of_range_world_def example_world_def bounded_release_branch_def)
  have t: "b_type bounded_release_branch \<noteq> PrereleaseBranch"
    by (simp add: bounded_release_branch_def)
  from next_version_range_check [OF v, of out_of_range_world "[''feat: a feature'']" "''abc123''" "[]"] v s t
  show ?thesis by simp
qed

text \<open>
  C6 as stated fails: the check is applied on a release branch too. On the release branch
  \<^verbatim>\<open>master\<close> with range \<^verbatim>\<open>>=1.0.0 <2.0.0\<close> a major release after \<^verbatim>\<open>1.0.0\<close> makes \<^verbatim>\<open>run\<close>
  throw \<^verbatim>\<open>EINVALIDNEXTVERSION\<close>.
\<close>

theorem release_branch_version_checked:
  "b_type bounded_release_branch = ReleaseBranch
   \<and> find (\<lambda>b. b_name b = ciBranch example_input) (w_branches out_of_range_world)
       = Some bounded_release_branch
   \<and> run out_of_range_world example_input =
     ([Returned S_verify, Returned S_getGitAuthUrl, Returned S_getBranches, Returned S_verifyAuth,
       Returned S_verifyConditions, Returned S_getTagHead_last, Returned S_getCommits,
       Returned S_analyzeCommits, Returned S_getGitHead],
      Inl (Single (getError ''EINVALIDNEXTVERSION'')))"
  by (simp add: out_of_range_run)
     (simp add: bounded_release_branch_def out_of_range_world_def ciBranch_def example_input_def)

subsection \<open>The result of a run\<close>

lemma add_channel_result:
  "snd (add_channel w dry br) = Inr (added, br') \<Longrightarrow>
   (w_releaseToAdd w br = None \<and> added = []) \<or> (w_releaseToAdd w br \<noteq> None \<and> added = w_addChannel w)"
  by (auto simp: add_channel_def step_simps split: option.splits sum.splits if_splits)

lemma publish_release_result:
  "snd (publish_release w inp br lr commits nr added) = Inr result \<Longrightarrow>
   \<exists>nr'. nr_type nr' = nr_type nr \<and> result = Released lr commits nr' (added @ w_publish w)"
  by (auto simp: publish_release_def step_simps split: option.splits sum.splits if_splits)

lemma next_release_result:
  "snd (next_release w inp br lr commits ty gitHead added) = Inr result \<Longrightarrow>
   \<exists>nr. nr_type nr = ty \<and> result = Released lr commits nr (added @ w_publish w)"
  by (auto simp: next_release_def snd_throw split: sum.splits error.splits
      dest!: publish_release_result)

lemma new_release_result:
  "snd (new_release w inp br added) = Inr result \<Longrightarrow>
   (w_analyzeCommits w = None \<and> result = (if added = [] then NoRelease else ReleasesOnly added))
   \<or> (\<exists>lr nr. w_analyzeCommits w = Some (nr_type nr)
         \<and> result = Released lr (w_commits w) nr (added @ w_publish w))"
  by (auto simp: new_release_def step_simps split: option.splits sum.splits list.splits if_splits
      dest!: next_release_result)

lemma run_result:
  "snd (run w inp) = Inr result \<Longrightarrow>
   result = NoRelease
   \<or> (\<exists>br added br'. snd (add_channel w (effective_dryRun inp) br) = Inr (added, br')
         \<and> snd (new_release w inp br' added) = Inr result)"
  by (auto simp: run_def step_simps split: option.splits sum.splits if_splits prod.splits)

lemma new_release_no_bump:
  assumes "Returned S_getGitHead \<in> set (fst (new_release w inp br added))"
    and "w_analyzeCommits w = None"
  shows "snd (new_release w inp br added) = Inr (if added = [] then NoRelease else ReleasesOnly added)"
  using assms
  by (auto simp: new_release_def step_simps split: option.splits sum.splits list.splits if_splits)

text \<open>
  C5 (amended). A result of \<^verbatim>\<open>run\<close> is \<^verbatim>\<open>false\<close>, or the object \<^verbatim>\<open>{ releases }\<close> holding
  the non-empty add-channel results (only when commit analysis yields no bump size), or the
  object with the four fields \<^verbatim>\<open>lastRelease\<close>, \<^verbatim>\<open>commits\<close>, \<^verbatim>\<open>nextRelease\<close> and \<^verbatim>\<open>releases\<close>.
  When commit analysis yields no bump size, the new-release path returns the add-channel
  results accumulated, as \<^verbatim>\<open>{ releases }\<close>, and \<^verbatim>\<open>false\<close> when there are none.
\<close>

theorem run_result_shapes:
  "(snd (run w inp) = Inr result \<longrightarrow>
      result = NoRelease
      \<or> (\<exists>rs. result = ReleasesOnly rs \<and> rs \<noteq> [] \<and> rs = w_addChannel w \<and> w_analyzeCommits w = None)
      \<or> (\<exists>lr nr rs. result = Released lr (w_commits w) nr rs
            \<and> w_analyzeCommits w = Some (nr_type nr)
            \<and> (rs = w_publish w \<or> rs = w_addChannel w @ w_publish w)))
   \<and> (Returned S_getGitHead \<in> set (fst (new_release w inp br added)) \<and> w_analyzeCommits w = None \<longrightarrow>
        snd (new_release w inp br added) = Inr (if added = [] then NoRelease else ReleasesOnly added))"
proof (intro conjI impI)
  assume r: "snd (run w inp) = Inr result"
  show "result = NoRelease
      \<or> (\<exists>rs. result = ReleasesOnly rs \<and> rs \<noteq> [] \<and> rs = w_addChannel w \<and> w_analyzeCommits w = None)
      \<or> (\<exists>lr nr rs. result = Released lr (w_commits w) nr rs
            \<and> w_analyzeCommits w = Some (nr_type nr)
            \<and> (rs = w_publish w \<or> rs = w_addChannel w @ w_publish w))"
  proof (cases "result = NoRelease")
    case True
    then show ?thesis by simp
  next
    case False
    with run_result [OF r] obtain br added br'
      where a: "snd (add_channel w (effective_dryRun inp) br) = Inr (added, br')"
        and n: "snd (new_release w inp br' added) = Inr result" by blast
    from add_channel_result [OF a] have ad: "added = [] \<or> added = w_addChannel w" by blast
    from new_release_result [OF n] show ?thesis
    proof
      assume "w_analyzeCommits w = None \<and> result = (if added = [] then NoRelease else ReleasesOnly added)"
      with False ad show ?thesis by (auto split: if_splits)
    next
      assume "\<exists>lr nr. w_analyzeCommits w = Some (nr_type nr)
         \<and> result = Released lr (w_commits w) nr (added @ w_publish w)"
      with ad show ?thesis by auto
    qed
  qed
next
  assume "Returned S_getGitHead \<in> set (fst (new_release w inp br added)) \<and> w_analyzeCommits w = None"
  then show "snd (new_release w inp br added) = Inr (if added = [] then NoRelease else ReleasesOnly added)"
    by (simp add: new_release_no_bump)
qed

lemma add_channel_run:
  "run add_channel_world example_input =
     ([Returned S_verify, Returned S_getGitAuthUrl, Returned S_getBranches, Returned S_verifyAuth,
       Returned S_verifyConditions, Returned S_add_getTagHead_next, Returned S_add_getTagHead_current,
       Returned S_add_getCommits, Returned S_add_generateNotes, Returned S_add_addNote,
       Returned S_add_push, Returned S_add_pushNotes, Returned S_addChannel, Returned S_add_success,
       Returned S_getTagHead_last, Returned S_getCommits, Returned S_analyzeCommits,
       Returned S_getGitHead],
      Inr (ReleasesOnly [example_release]))"
  by (simp add: add_channel_world_def promoted_branch_def run_eval example_run_eval)

theorem run_result_shapes_witness:
  "snd (run example_world example_input)
     = Inr (Released \<lparr>lr_version = None, lr_channels = [], lr_gitTag = None, lr_gitHead = None\<rparr>
             [''feat: a feature'']
             \<lparr>nr_type = Minor, nr_channel = None, nr_gitHead = ''abc123'', nr_version = Some ''1.0.0'',
              nr_gitTag = ''v1.0.0'', nr_name = ''v1.0.0'', nr_notes = ''notes''\<rparr>
             [example_release])
   \<and> w_analyzeCommits example_world = Some Minor
   \<and> w_commits example_world = [''feat: a feature'']
   \<and> w_publish example_world = [example_release]
   \<and> w_analyzeCommits add_channel_world = None
   \<and> Returned S_getGitHead \<in> set (fst (new_release add_channel_world example_input promoted_branch [example_release]))
   \<and> snd (new_release add_channel_world example_input promoted_branch [example_release])
       = Inr (ReleasesOnly [example_release])"
proof -
  have a: "w_analyzeCommits add_channel_world = None"
    by (simp add: add_channel_world_def)
  have g: "Returned S_getGitHead \<in> set (fst (new_release add_channel_world example_input promoted_branch [example_release]))"
    by (simp add: add_channel_world_def promoted_branch_def run_eval example_run_eval)
  have e: "w_analyzeCommits example_world = Some Minor" "w_commits example_world = [''feat: a feature'']"
    "w_publish example_world = [example_release]"
    by (simp_all add: example_world_def)
  from run_result_shapes [of add_channel_world example_input _ promoted_branch "[example_release]"] a g
  have "snd (new_release add_channel_world example_input promoted_branch [example_release])
       = Inr (ReleasesOnly [example_release])" by simp
  with a g e show ?thesis by (simp add: example_run)
qed

text \<open>
  C5 as stated fails in its first half: after an add-channel release and a commit analysis
  that yields no bump size, \<^verbatim>\<open>run\<close> returns the object \<^verbatim>\<open>{ releases }\<close>, which is neither
  \<^verbatim>\<open>false\<close> nor the object with four fields.
\<close>

theorem releases_only_result:
  "w_analyzeCommits add_channel_world = None
   \<and> run add_channel_world example_input =
     ([Returned S_verify, Returned S_getGitAuthUrl, Returned S_getBranches, Returned S_verifyAuth,
       Returned S_verifyConditions, Returned S_add_getTagHead_next, Returned S_add_getTagHead_current,
       Returned S_add_getCommits, Returned S_add_generateNotes, Returned S_add_addNote,
       Returned S_add_push, Returned S_add_pushNotes, Returned S_addChannel, Returned S_add_success,
       Returned S_getTagHead_last, Returned S_getCommits, Returned S_analyzeCommits,
       Returned S_getGitHead],
      Inr (ReleasesOnly [example_release]))
   \<and> ReleasesOnly [example_release] \<noteq> NoRelease"
  by (simp add: add_channel_run) (simp add: add_channel_world_def)

subsection \<open>The Fail step\<close>

lemma verify_auth_sites:
  assumes Q: "\<And>s. \<not> fail_site s \<Longrightarrow> s \<noteq> S_getConfig \<Longrightarrow> Q (Returned s) \<and> Q (Threw s)"
  shows "list_all Q (fst (verify_auth w))"
  using Q [of S_verifyAuth] Q [of S_isBranchUpToDate]
  by (simp add: verify_auth_def split: option.splits)

lemma add_channel_mutations_sites:
  assumes Q: "\<And>s. \<not> fail_site s \<Longrightarrow> s \<noteq> S_getConfig \<Longrightarrow> Q (Returned s) \<and> Q (Threw s)"
  shows "list_all Q (fst (add_channel_mutations w dry))"
  unfolding add_channel_mutations_def
  using Q [of S_add_addNote] Q [of S_add_push] Q [of S_add_pushNotes]
  by (cases dry) (auto intro!: list_all_and_then list_all_call list_all_returns)

lemma release_mutations_sites:
  assumes Q: "\<And>s. \<not> fail_site s \<Longrightarrow> s \<noteq> S_getConfig \<Longrightarrow> Q (Returned s) \<and> Q (Threw s)"
  shows "list_all Q (fst (release_mutations w dry))"
  unfolding release_mutations_def
  using Q [of S_tag] Q [of S_addNote] Q [of S_push] Q [of S_pushNotes]
  by (cases dry) (auto intro!: list_all_and_then list_all_call list_all_returns)

lemma add_channel_sites:
  assumes Q: "\<And>s. \<not> fail_site s \<Longrightarrow> s \<noteq> S_getConfig \<Longrightarrow> Q (Returned s) \<and> Q (Threw s)"
  shows "list_all Q (fst (add_channel w dry br))"
proof (cases "w_releaseToAdd w br")
  case None
  then show ?thesis by (simp add: add_channel_def list_all_returns)
next
  case (Some rta)
  show ?thesis
    unfolding add_channel_def Some option.case
    using Q [of S_add_getTagHead_next] Q [of S_add_getTagHead_current] Q [of S_add_getCommits]
      Q [of S_add_generateNotes] Q [of S_addChannel] Q [of S_add_success]
      add_channel_mutations_sites [of Q w dry, OF Q]
    apply -
    apply (rule list_all_and_then, simp add: list_all_call)
    apply (rule list_all_and_then, simp add: list_all_call)
    apply (simp only: split: if_split)
    apply (intro conjI impI)
     apply (rule list_all_throw)
    apply (intro list_all_and_then list_all_returns)
        apply (simp_all add: list_all_call)
    done
qed

lemma publish_release_sites:
  assumes Q: "\<And>s. \<not> fail_site s \<Longrightarrow> s \<noteq> S_getConfig \<Longrightarrow> Q (Returned s) \<and> Q (Threw s)"
  shows "list_all Q (fst (publish_release w inp br lr commits nr added))"
  unfolding publish_release_def
  using Q [of S_verifyRelease] Q [of S_generateNotes] Q [of S_prepare] Q [of S_publish]
    Q [of S_success] release_mutations_sites [of Q w "effective_dryRun inp", OF Q]
  apply -
  apply (simp only: split: if_split)
  apply (intro conjI impI)
   apply (rule list_all_throw)
  apply (intro list_all_and_then list_all_returns)
       apply (simp_all add: list_all_call)
  done

lemma next_release_sites:
  assumes Q: "\<And>s. \<not> fail_site s \<Longrightarrow> s \<noteq> S_getConfig \<Longrightarrow> Q (Returned s) \<and> Q (Threw s)"
  shows "list_all Q (fst (next_release w inp br lr commits ty gitHead added))"
  using publish_release_sites [of Q, OF Q]
  by (simp add: next_release_def fst_throw split: sum.splits error.splits)

lemma new_release_sites:
  assumes Q: "\<And>s. \<not> fail_site s \<Longrightarrow> s \<noteq> S_getConfig \<Longrightarrow> Q (Returned s) \<and> Q (Threw s)"
  shows "list_all Q (fst (new_release w inp br added))"
  unfolding new_release_def
  using Q [of S_getTagHead_last] Q [of S_getCommits] Q [of S_analyzeCommits] Q [of S_getGitHead]
    next_release_sites [of Q, OF Q]
  apply -
  apply (rule list_all_and_then)
   apply (simp add: step_simps split: option.splits list.splits)
  apply (rule list_all_and_then, simp add: list_all_call)+
  apply (simp add: list_all_returns split: option.splits)
  done

lemma run_sites:
  assumes Q: "\<And>s. \<not> fail_site s \<Longrightarrow> s \<noteq> S_getConfig \<Longrightarrow> Q (Returned s) \<and> Q (Threw s)"
  shows "list_all Q (fst (run w inp))"
proof (cases "isCi (in_envCi inp) \<and> isPr (in_envCi inp) \<and> \<not> noCi (in_options inp)
         \<and> \<not> publishOnPr (in_options inp)")
  case True
  then show ?thesis by (simp add: run_def fst_returns)
next
  case False
  then show ?thesis
    unfolding run_def
    using Q [of S_verify] Q [of S_getGitAuthUrl] Q [of S_getBranches] Q [of S_verifyConditions]
      verify_auth_sites [of Q, OF Q] add_channel_sites [of Q, OF Q] new_release_sites [of Q, OF Q]
    apply -
    apply (simp only: if_False)
    apply (rule list_all_and_then, simp add: list_all_call list_all_getBranches)+
    apply (simp split: option.splits add: fst_returns)
    apply (intro allI impI)
    apply (rule list_all_and_then, simp)
    apply (simp add: fst_returns)
    apply (intro impI)
    apply (rule list_all_and_then, simp add: list_all_call)
    apply (rule list_all_and_then, simp)
    apply (simp split: prod.splits)
    done
qed

lemma run_no_fail_calls: "fail_calls (fst (run w inp)) = []"
proof -
  have "list_all (\<lambda>e. \<not> (case site_of e of Some s \<Rightarrow> fail_site s | None \<Rightarrow> False)) (fst (run w inp))"
    by (rule run_sites) simp
  then show ?thesis by (simp add: fail_calls_def filter_empty_conv list_all_iff)
qed

lemma fail_calls_append: "fail_calls (t1 @ t2) = fail_calls t1 @ fail_calls t2"
  by (simp add: fail_calls_def)

text \<open>
  C9 (amended). When the configuration is loaded and \<^verbatim>\<open>run\<close> throws, the Fail step is
  called once, with the errors of the thrown value that are semantic-release errors, if
  there is such an error, and is not called otherwise; the thrown value is logged last and
  thrown again to the caller whatever the Fail step does, and what the Fail step throws is
  logged. When loading the configuration throws, the error is logged and thrown again, and
  the Fail step is not called, whatever the error is. A run that returns calls no Fail
  step.
\<close>

theorem fail_step_on_error:
  "(\<forall>err. throws w S_getConfig = None \<and> snd (run w inp) = Inl err \<longrightarrow>
      snd (semantic_release w inp) = Inl err
      \<and> fail_calls (fst (semantic_release w inp))
          = (if filter semanticRelease (extractErrors err) = [] then []
             else [if throws w (S_fail (filter semanticRelease (extractErrors err))) = None
                   then Returned (S_fail (filter semanticRelease (extractErrors err)))
                   else Threw (S_fail (filter semanticRelease (extractErrors err)))])
      \<and> last (fst (semantic_release w inp)) = LogErrors err
      \<and> (\<forall>e. filter semanticRelease (extractErrors err) \<noteq> []
             \<and> throws w (S_fail (filter semanticRelease (extractErrors err))) = Some e \<longrightarrow>
             LogErrors e \<in> set (fst (semantic_release w inp))))
   \<and> (\<forall>err. throws w S_getConfig = Some err \<longrightarrow>
          semantic_release w inp = ([Threw S_getConfig, LogErrors err], Inl err)
          \<and> fail_calls (fst (semantic_release w inp)) = [])
   \<and> (\<forall>result. throws w S_getConfig = None \<and> snd (run w inp) = Inr result \<longrightarrow>
          snd (semantic_release w inp) = Inr result
          \<and> fail_calls (fst (semantic_release w inp)) = [])"
proof -
  have nf: "fail_calls (fst (run w inp)) = []" by (rule run_no_fail_calls)
  have thrown: "snd (semantic_release w inp) = Inl err
      \<and> fail_calls (fst (semantic_release w inp))
          = (if filter semanticRelease (extractErrors err) = [] then []
             else [if throws w (S_fail (filter semanticRelease (extractErrors err))) = None
                   then Returned (S_fail (filter semanticRelease (extractErrors err)))
                   else Threw (S_fail (filter semanticRelease (extractErrors err)))])
      \<and> last (fst (semantic_release w inp)) = LogErrors err
      \<and> (\<forall>e. filter semanticRelease (extractErrors err) \<noteq> []
             \<and> throws w (S_fail (filter semanticRelease (extractErrors err))) = Some e \<longrightarrow>
             LogErrors e \<in> set (fst (semantic_release w inp)))"
    if h: "throws w S_getConfig = None \<and> snd (run w inp) = Inl err" for err
  proof -
    obtain t where run: "run w inp = (t, Inl err)"
      using h by (cases "run w inp") auto
    then have sr: "semantic_release w inp
        = (Returned S_getConfig # t @ callFail w err @ [LogErrors err], Inl err)"
      using h by (simp add: semantic_release_def)
    have nt: "fail_calls t = []" using nf run by simp
    have cf: "fail_calls (callFail w err)
        = (if filter semanticRelease (extractErrors err) = [] then []
           else [if throws w (S_fail (filter semanticRelease (extractErrors err))) = None
                 then Returned (S_fail (filter semanticRelease (extractErrors err)))
                 else Threw (S_fail (filter semanticRelease (extractErrors err)))])"
      by (auto simp: callFail_def fail_calls_def Let_def split: option.splits)
    have fc: "fail_calls (fst (semantic_release w inp)) = fail_calls (callFail w err)"
      using nt by (simp add: sr fail_calls_append) (simp add: fail_calls_def)
    have lg: "LogErrors e \<in> set (fst (semantic_release w inp))"
      if "filter semanticRelease (extractErrors err) \<noteq> []"
        and "throws w (S_fail (filter semanticRelease (extractErrors err))) = Some e" for e
      using that by (simp add: sr callFail_def Let_def)
    from sr fc cf lg show ?thesis by simp
  qed
  have config: "semantic_release w inp = ([Threw S_getConfig, LogErrors err], Inl err)
      \<and> fail_calls (fst (semantic_release w inp)) = []"
    if "throws w S_getConfig = Some err" for err
    using that by (simp add: semantic_release_def fail_calls_def)
  have returned: "snd (semantic_release w inp) = Inr result
      \<and> fail_calls (fst (semantic_release w inp)) = []"
    if h: "throws w S_getConfig = None \<and> snd (run w inp) = Inr result" for result
  proof -
    obtain t where run: "run w inp = (t, Inr result)"
      using h by (cases "run w inp") auto
    then have sr: "semantic_release w inp = (Returned S_getConfig # t, Inr result)"
      using h by (simp add: semantic_release_def)
    have nt: "fail_calls t = []" using nf run by simp
    have "fail_calls (Returned S_getConfig # t) = fail_calls t" by (simp add: fail_calls_def)
    with sr nt show ?thesis by simp
  qed
  from thrown config returned show ?thesis by blast
qed

lemma mixed_failure_run:
  "semantic_release mixed_failure_world example_input =
     ([Returned S_getConfig, Returned S_verify, Returned S_getGitAuthUrl, Returned S_getBranches,
       Returned S_verifyAuth, Threw S_verifyConditions,
       Threw (S_fail [SemanticReleaseError ''ENONPMTOKEN'']),
       LogErrors (Single (OtherError ''ETIMEDOUT'')),
       LogErrors (AggregateError [SemanticReleaseError ''ENONPMTOKEN'', OtherError ''ECONNREFUSED''])],
      Inl (AggregateError [SemanticReleaseError ''ENONPMTOKEN'', OtherError ''ECONNREFUSED'']))"
  by (simp add: mixed_failure_world_def run_eval example_run_eval)

lemma plugin_failure_run:
  "semantic_release plugin_failure_world example_input =
     ([Returned S_getConfig, Returned S_verify, Returned S_getGitAuthUrl, Returned S_getBranches,
       Returned S_verifyAuth, Threw S_verifyConditions,
       LogErrors (Single (OtherError ''ECONNREFUSED''))],
      Inl (Single (OtherError ''ECONNREFUSED'')))"
  by (simp add: plugin_failure_world_def run_eval example_run_eval)

lemma example_semantic_release:
  "snd (run example_world example_input)
     = Inr (Released \<lparr>lr_version = None, lr_channels = [], lr_gitTag = None, lr_gitHead = None\<rparr>
              [''feat: a feature'']
              \<lparr>nr_type = Minor, nr_channel = None, nr_gitHead = ''abc123'',
                 nr_version = Some ''1.0.0'', nr_gitTag = ''v1.0.0'', nr_name = ''v1.0.0'',
                 nr_notes = ''notes''\<rparr>
              [example_release])"
  by (simp add: example_run)

theorem fail_step_on_error_witness:
  "throws mixed_failure_world S_getConfig = None
   \<and> snd (run mixed_failure_world example_input)
       = Inl (AggregateError [SemanticReleaseError ''ENONPMTOKEN'', OtherError ''ECONNREFUSED''])
   \<and> snd (semantic_release mixed_failure_world example_input)
       = Inl (AggregateError [SemanticReleaseError ''ENONPMTOKEN'', OtherError ''ECONNREFUSED''])
   \<and> fail_calls (fst (semantic_release mixed_failure_world example_input))
       = [Threw (S_fail [SemanticReleaseError ''ENONPMTOKEN''])]
   \<and> LogErrors (Single (OtherError ''ETIMEDOUT''))
       \<in> set (fst (semantic_release mixed_failure_world example_input))
   \<and> throws config_failure_world S_getConfig = Some (Single (SemanticReleaseError ''EPLUGINSCONF''))
   \<and> semantic_release config_failure_world example_input
       = ([Threw S_getConfig, LogErrors (Single (SemanticReleaseError ''EPLUGINSCONF''))],
          Inl (Single (SemanticReleaseError ''EPLUGINSCONF'')))
   \<and> fail_calls (fst (semantic_release config_failure_world example_input)) = []
   \<and> throws example_world S_getConfig = None
   \<and> fail_calls (fst (semantic_release example_world example_input)) = []"
proof -
  let ?err = "AggregateError [SemanticReleaseError ''ENONPMTOKEN'', OtherError ''ECONNREFUSED'']"
  have c: "throws mixed_failure_world S_getConfig = None"
    by (simp add: mixed_failure_world_def)
  have r: "snd (run mixed_failure_world example_input) = Inl ?err"
    by (simp add: mixed_failure_world_def run_eval example_run_eval)
  have f: "filter semanticRelease (extractErrors ?err) = [SemanticReleaseError ''ENONPMTOKEN'']"
    by simp
  have t: "throws mixed_failure_world (S_fail [SemanticReleaseError ''ENONPMTOKEN''])
      = Some (Single (OtherError ''ETIMEDOUT''))"
    by (simp add: mixed_failure_world_def)
  have g: "throws config_failure_world S_getConfig = Some (Single (SemanticReleaseError ''EPLUGINSCONF''))"
    by (simp add: config_failure_world_def)
  have e: "throws example_world S_getConfig = None"
    by (simp add: example_world_def)
  from fail_step_on_error [of mixed_failure_world example_input] c r
  have m: "snd (semantic_release mixed_failure_world example_input) = Inl ?err
      \<and> fail_calls (fst (semantic_release mixed_failure_world example_input))
          = (if filter semanticRelease (extractErrors ?err) = [] then []
             else [if throws mixed_failure_world (S_fail (filter semanticRelease (extractErrors ?err))) = None
                   then Returned (S_fail (filter semanticRelease (extractErrors ?err)))
                   else Threw (S_fail (filter semanticRelease (extractErrors ?err)))])
      \<and> last (fst (semantic_release mixed_failure_world example_input)) = LogErrors ?err
      \<and> (\<forall>e. filter semanticRelease (extractErrors ?err) \<noteq> []
             \<and> throws mixed_failure_world (S_fail (filter semanticRelease (extractErrors ?err))) = Some e \<longrightarrow>
             LogErrors e \<in> set (fst (semantic_release mixed_failure_world example_input)))"
    by blast
  from fail_step_on_error [of config_failure_world example_input] g
  have k: "semantic_release config_failure_world example_input
       = ([Threw S_getConfig, LogErrors (Single (SemanticReleaseError ''EPLUGINSCONF''))],
          Inl (Single (SemanticReleaseError ''EPLUGINSCONF'')))
      \<and> fail_calls (fst (semantic_release config_failure_world example_input)) = []"
    by blast
  from fail_step_on_error [of example_world example_input] e example_semantic_release
  have x: "fail_calls (fst (semantic_release example_world example_input)) = []"
    by blast
  from k have k1: "semantic_release config_failure_world example_input
       = ([Threw S_getConfig, LogErrors (Single (SemanticReleaseError ''EPLUGINSCONF''))],
          Inl (Single (SemanticReleaseError ''EPLUGINSCONF'')))"
    and k2: "fail_calls (fst (semantic_release config_failure_world example_input)) = []"
    by blast+
  from m c r t g e x k2 have "throws mixed_failure_world S_getConfig = None
   \<and> snd (run mixed_failure_world example_input) = Inl ?err
   \<and> snd (semantic_release mixed_failure_world example_input) = Inl ?err
   \<and> fail_calls (fst (semantic_release mixed_failure_world example_input))
       = [Threw (S_fail [SemanticReleaseError ''ENONPMTOKEN''])]
   \<and> LogErrors (Single (OtherError ''ETIMEDOUT''))
       \<in> set (fst (semantic_release mixed_failure_world example_input))
   \<and> throws config_failure_world S_getConfig = Some (Single (SemanticReleaseError ''EPLUGINSCONF''))
   \<and> fail_calls (fst (semantic_release config_failure_world example_input)) = []
   \<and> throws example_world S_getConfig = None
   \<and> fail_calls (fst (semantic_release example_world example_input)) = []"
    unfolding f by simp
  with k1 show ?thesis by blast
qed

text \<open>
  C9 as stated fails: when the VerifyConditions step throws an error that is no
  semantic-release error, the Fail step is not called; of an aggregate of a
  semantic-release error and another error, the Fail step receives the first alone; and
  when loading the configuration throws a semantic-release error, the Fail step is not
  called.
\<close>

theorem fail_step_not_always_called:
  "run plugin_failure_world example_input =
     ([Returned S_verify, Returned S_getGitAuthUrl, Returned S_getBranches, Returned S_verifyAuth,
       Threw S_verifyConditions],
      Inl (Single (OtherError ''ECONNREFUSED'')))
   \<and> semantic_release plugin_failure_world example_input =
     ([Returned S_getConfig, Returned S_verify, Returned S_getGitAuthUrl, Returned S_getBranches,
       Returned S_verifyAuth, Threw S_verifyConditions,
       LogErrors (Single (OtherError ''ECONNREFUSED''))],
      Inl (Single (OtherError ''ECONNREFUSED'')))
   \<and> fail_calls (fst (semantic_release plugin_failure_world example_input)) = []
   \<and> extractErrors (AggregateError [SemanticReleaseError ''ENONPMTOKEN'', OtherError ''ECONNREFUSED''])
       = [SemanticReleaseError ''ENONPMTOKEN'', OtherError ''ECONNREFUSED'']
   \<and> snd (run mixed_failure_world example_input)
       = Inl (AggregateError [SemanticReleaseError ''ENONPMTOKEN'', OtherError ''ECONNREFUSED''])
   \<and> fail_calls (fst (semantic_release mixed_failure_world example_input))
       = [Threw (S_fail [SemanticReleaseError ''ENONPMTOKEN''])]
   \<and> semantic_release config_failure_world example_input
       = ([Threw S_getConfig, LogErrors (Single (SemanticReleaseError ''EPLUGINSCONF''))],
          Inl (Single (SemanticReleaseError ''EPLUGINSCONF'')))"
  by (simp add: plugin_failure_run mixed_failure_run fail_calls_def)
     (simp add: plugin_failure_world_def mixed_failure_world_def config_failure_world_def
        run_eval example_run_eval)

subsection \<open>Notes\<close>

lemma map_of_assign: "map_of (assign k v ps) k' = (if k' = k then Some v else map_of ps k')"
  by (induction ps) auto

lemma merge_props_other:
  "merge_props dp sp = Some z \<Longrightarrow> k \<notin> fst ` set sp \<Longrightarrow> map_of z k = map_of dp k"
proof (induction sp arbitrary: dp)
  case Nil
  then show ?case by simp
next
  case (Cons p sp)
  show ?case
  proof (cases "fst p = ''__proto__'' \<and> is_object (snd p)")
    case True
    with Cons show ?thesis by simp
  next
    case False
    with Cons.prems(1) obtain v where v: "merge_value (map_of dp (fst p)) (snd p) = Some v"
      and m: "merge_props (assign (fst p) v dp) sp = Some z"
      by (auto split: option.splits)
    from Cons.prems(2) have "k \<noteq> fst p" "k \<notin> fst ` set sp" by auto
    with Cons.IH [OF m] show ?thesis by (simp add: map_of_assign)
  qed
qed

lemma merge_props_key:
  assumes "merge_props dp sp = Some z" and "distinct (map fst sp)" and "(k, v) \<in> set sp"
    and "\<not> (k = ''__proto__'' \<and> is_object v)"
  shows "map_of z k = merge_value (map_of dp k) v"
  using assms
proof (induction sp arbitrary: dp)
  case Nil
  then show ?case by simp
next
  case (Cons p sp)
  show ?case
  proof (cases "fst p = k")
    case True
    with Cons.prems(2,3) have pv: "snd p = v"
      by (cases p) (auto simp: image_iff)
    from True Cons.prems(2) have notin: "k \<notin> fst ` set sp" by auto
    from True pv Cons.prems(1,4) obtain w where w: "merge_value (map_of dp k) v = Some w"
      and m: "merge_props (assign k w dp) sp = Some z"
      by (auto split: option.splits)
    from merge_props_other [OF m notin] w show ?thesis by (simp add: map_of_assign)
  next
    case False
    with Cons.prems(3) have mem: "(k, v) \<in> set sp" by auto
    from Cons.prems(2) have dis: "distinct (map fst sp)" by simp
    show ?thesis
    proof (cases "fst p = ''__proto__'' \<and> is_object (snd p)")
      case True
      with Cons.prems(1) have "merge_props dp sp = Some z" by simp
      from Cons.IH [OF this dis mem Cons.prems(4)] show ?thesis .
    next
      case skip: False
      with Cons.prems(1) obtain w where m: "merge_props (assign (fst p) w dp) sp = Some z"
        by (auto split: option.splits)
      from Cons.IH [OF m dis mem Cons.prems(4)] False show ?thesis by (simp add: map_of_assign)
    qed
  qed
qed

lemma merge_value_scalar: "\<not> is_object v \<Longrightarrow> merge_value d v = Some v"
  by (cases v) auto

lemma merge_elems_scalars:
  "list_all (\<lambda>v. \<not> is_object v) ss \<Longrightarrow> merge_elems ds ss = Some (ss @ drop (length ss) ds)"
proof (induction ss arbitrary: ds)
  case Nil
  then show ?case by simp
next
  case (Cons s ss)
  then have "merge_elems (tl ds) ss = Some (ss @ drop (length ss) (tl ds))" by simp
  with Cons.prems show ?case by (simp add: merge_value_scalar drop_Suc)
qed

lemma getNote_value:
  assumes "json_parse a = Some (JObj x)" and "json_parse b = Some (JObj y)"
    and "merge_props x y = Some z"
  shows "getNote json_parse (Stdout a) (Stdout b) = Value (JObj z)"
  using assms by (simp add: getNote_def handleError_def)

text \<open>
  C8. \<^verbatim>\<open>getNote\<close> parses the legacy note and the note of the tag as JSON, a missing note
  (exit code 1) reading as the empty object and not as an error, and merges the second into
  the first: a key of the legacy note alone keeps its value, a key of the tag's note with a
  value that is no array or object takes that value, in general a key of the tag's note
  takes the merge of the two values, and an array of such values replaces the positions it
  covers of the legacy array and leaves the others, so that \<^verbatim>\<open>["a"]\<close> merged with \<^verbatim>\<open>["b"]\<close>
  gives \<^verbatim>\<open>["b"]\<close>.
\<close>

theorem note_merge:
  assumes "json_parse ''{}'' = Some (JObj [])"
    and "json_parse a = Some (JObj x)" and "json_parse b = Some (JObj y)"
    and "distinct (map fst y)" and "merge_props x y = Some z"
  shows "getNote json_parse (Failed (Some 1)) (Failed (Some 1)) = Value (JObj [])
         \<and> getNote json_parse (Stdout a) (Failed (Some 1)) = Value (JObj x)
         \<and> getNote json_parse (Failed (Some 1)) (Stdout b) = getNote json_parse (Stdout ''{}'') (Stdout b)
         \<and> getNote json_parse (Stdout a) (Stdout b) = Value (JObj z)
         \<and> (\<forall>k. k \<notin> fst ` set y \<longrightarrow> map_of z k = map_of x k)
         \<and> (\<forall>k v. (k, v) \<in> set y \<and> \<not> is_object v \<longrightarrow> map_of z k = Some v)
         \<and> (\<forall>k v. (k, v) \<in> set y \<and> k \<noteq> ''__proto__'' \<longrightarrow> map_of z k = merge_value (map_of x k) v)
         \<and> (\<forall>ds ss. list_all (\<lambda>v. \<not> is_object v) ss \<longrightarrow>
               merge_value (Some (JArr ds)) (JArr ss) = Some (JArr (ss @ drop (length ss) ds)))"
proof -
  have 1: "getNote json_parse (Failed (Some 1)) (Failed (Some 1)) = Value (JObj [])"
    using assms(1) by (simp add: getNote_def handleError_def)
  have 2: "getNote json_parse (Stdout a) (Failed (Some 1)) = Value (JObj x)"
    using assms(1,2) by (simp add: getNote_def handleError_def)
  have 3: "getNote json_parse (Failed (Some 1)) (Stdout b) = getNote json_parse (Stdout ''{}'') (Stdout b)"
    by (simp add: getNote_def handleError_def)
  have 4: "getNote json_parse (Stdout a) (Stdout b) = Value (JObj z)"
    by (rule getNote_value [OF assms(2,3,5)])
  have 5: "map_of z k = map_of x k" if "k \<notin> fst ` set y" for k
    using merge_props_other [OF assms(5) that] .
  have 6: "map_of z k = Some v" if "(k, v) \<in> set y \<and> \<not> is_object v" for k v
    using merge_props_key [OF assms(5,4), of k v] that by (simp add: merge_value_scalar)
  have 7: "map_of z k = merge_value (map_of x k) v" if "(k, v) \<in> set y \<and> k \<noteq> ''__proto__''" for k v
    using merge_props_key [OF assms(5,4), of k v] that by simp
  have 8: "merge_value (Some (JArr ds)) (JArr ss) = Some (JArr (ss @ drop (length ss) ds))"
    if "list_all (\<lambda>v. \<not> is_object v) ss" for ds ss
    using that by (simp add: merge_elems_scalars)
  from 1 2 3 4 5 6 7 8 show ?thesis by blast
qed

theorem note_merge_witness:
  "getNote example_json_parse (Failed (Some 1)) (Failed (Some 1)) = Value (JObj [])
   \<and> getNote example_json_parse (Stdout ''{\"channels\":[\"a\"]}'') (Stdout ''{\"channels\":[\"b\"]}'')
       = Value (JObj [(''channels'', JArr [JStr ''b''])])
   \<and> getNote example_json_parse (Stdout ''{\"channels\":[\"a\",\"c\"]}'') (Stdout ''{\"channels\":[\"b\"]}'')
       = Value (JObj [(''channels'', JArr [JStr ''b'', JStr ''c''])])
   \<and> getNote example_json_parse (Stdout ''{\"channels\":[\"b\"]}'') (Stdout ''{\"channels\":[\"a\",\"c\"]}'')
       = Value (JObj [(''channels'', JArr [JStr ''a'', JStr ''c''])])"
proof -
  have e: "example_json_parse ''{}'' = Some (JObj [])"
    by (simp add: example_json_parse_def)
  have a: "example_json_parse ''{\"channels\":[\"a\"]}'' = Some (JObj [(''channels'', JArr [JStr ''a''])])"
    and b: "example_json_parse ''{\"channels\":[\"b\"]}'' = Some (JObj [(''channels'', JArr [JStr ''b''])])"
    and c: "example_json_parse ''{\"channels\":[\"a\",\"c\"]}''
              = Some (JObj [(''channels'', JArr [JStr ''a'', JStr ''c''])])"
    by (simp_all add: example_json_parse_def)
  have d: "distinct (map fst [(''channels'', JArr [JStr ''b''])])"
    "distinct (map fst [(''channels'', JArr [JStr ''a'', JStr ''c''])])" by simp_all
  have m1: "merge_props [(''channels'', JArr [JStr ''a''])] [(''channels'', JArr [JStr ''b''])]
      = Some [(''channels'', JArr [JStr ''b''])]"
    and m2: "merge_props [(''channels'', JArr [JStr ''a'', JStr ''c''])] [(''channels'', JArr [JStr ''b''])]
      = Some [(''channels'', JArr [JStr ''b'', JStr ''c''])]"
    and m3: "merge_props [(''channels'', JArr [JStr ''b''])] [(''channels'', JArr [JStr ''a'', JStr ''c''])]
      = Some [(''channels'', JArr [JStr ''a'', JStr ''c''])]"
    by simp_all
  from note_merge [OF e a b d(1) m1] note_merge [OF e c b d(1) m2] note_merge [OF e b c d(2) m3]
  show ?thesis by simp
qed

subsection \<open>The tag resolver\<close>

lemma resolve_tags_append:
  assumes "resolve_tags json_parse notes fmt acc tags = Value rts"
  shows "\<exists>new. rts = acc @ new
           \<and> map rt_gitTag new = filter (\<lambda>t. tag_version fmt t \<noteq> None) tags
           \<and> list_all (\<lambda>rt. tag_version fmt (rt_gitTag rt) = Some (rt_version rt)
                 \<and> (\<exists>note. getNote json_parse (fst (notes (rt_gitTag rt))) (snd (notes (rt_gitTag rt)))
                             = Value note
                           \<and> rt_channels rt = channels_of note)) new"
  using assms
proof (induction tags arbitrary: acc)
  case Nil
  then show ?case by simp
next
  case (Cons tag tags)
  show ?case
  proof (cases "tag_version fmt tag")
    case None
    with Cons.prems have "resolve_tags json_parse notes fmt acc tags = Value rts" by simp
    from Cons.IH [OF this] None show ?thesis by simp
  next
    case (Some v)
    with Cons.prems obtain nt
      where n: "getNote json_parse (fst (notes tag)) (snd (notes tag)) = Value nt"
        and r: "resolve_tags json_parse notes fmt
                  (acc @ [\<lparr>rt_gitTag = tag, rt_version = v, rt_channels = channels_of nt\<rparr>]) tags
                = Value rts"
      by (auto split: outcome.splits)
    from Cons.IH [OF r] obtain new where new: "rts = (acc @ [\<lparr>rt_gitTag = tag, rt_version = v, rt_channels = channels_of nt\<rparr>]) @ new"
      "map rt_gitTag new = filter (\<lambda>t. tag_version fmt t \<noteq> None) tags"
      "list_all (\<lambda>rt. tag_version fmt (rt_gitTag rt) = Some (rt_version rt)
                 \<and> (\<exists>note. getNote json_parse (fst (notes (rt_gitTag rt))) (snd (notes (rt_gitTag rt)))
                             = Value note
                           \<and> rt_channels rt = channels_of note)) new"
      by blast
    let ?new = "\<lparr>rt_gitTag = tag, rt_version = v, rt_channels = channels_of nt\<rparr> # new"
    from new Some n have "rts = acc @ ?new
           \<and> map rt_gitTag ?new = filter (\<lambda>t. tag_version fmt t \<noteq> None) (tag # tags)
           \<and> list_all (\<lambda>rt. tag_version fmt (rt_gitTag rt) = Some (rt_version rt)
                 \<and> (\<exists>note. getNote json_parse (fst (notes (rt_gitTag rt))) (snd (notes (rt_gitTag rt)))
                             = Value note
                           \<and> rt_channels rt = channels_of note)) ?new"
      by auto
    then show ?thesis by blast
  qed
qed

lemma tag_version_Some:
  "(tag_version fmt tag = Some v)
   = (match_tag fmt tag = Some v \<and> v \<noteq> [] \<and> (\<exists>s. semver_valid (semver_clean v) = Some s \<and> s \<noteq> []))"
  by (auto simp: tag_version_def split: option.splits)

text \<open>
  C7. The tags that the resolver keeps for a branch are, in order, the candidate tags that
  match the regular expression of the tag template and whose captured version passes
  \<^verbatim>\<open>semver.valid(semver.clean(version))\<close>; every other tag is dropped. Each kept tag carries
  the captured version, and its channels are the \<^verbatim>\<open>channels\<close> of the merged note, or \<^verbatim>\<open>[null]\<close>
  when the merged note has no \<^verbatim>\<open>channels\<close> (or a falsy one).
\<close>

theorem resolved_tags:
  assumes "resolve_tags json_parse notes fmt [] tags = Value rts"
  shows "map rt_gitTag rts = filter (\<lambda>t. tag_version fmt t \<noteq> None) tags
         \<and> (\<forall>rt\<in>set rts.
               match_tag fmt (rt_gitTag rt) = Some (rt_version rt)
               \<and> semver_valid (semver_clean (rt_version rt)) \<noteq> None
               \<and> (\<exists>ps. getNote json_parse (fst (notes (rt_gitTag rt))) (snd (notes (rt_gitTag rt)))
                          = Value (JObj ps)
                        \<and> rt_channels rt
                            = (case map_of ps ''channels'' of
                                 None \<Rightarrow> JArr [JNull]
                               | Some c \<Rightarrow> if falsy c then JArr [JNull] else c)))
         \<and> (\<forall>t. tag_version fmt t \<noteq> None \<longrightarrow>
               (\<exists>v. match_tag fmt t = Some v \<and> semver_valid (semver_clean v) \<noteq> None))"
proof -
  from resolve_tags_append [OF assms] obtain new where new: "rts = new"
    "map rt_gitTag new = filter (\<lambda>t. tag_version fmt t \<noteq> None) tags"
    "list_all (\<lambda>rt. tag_version fmt (rt_gitTag rt) = Some (rt_version rt)
                 \<and> (\<exists>note. getNote json_parse (fst (notes (rt_gitTag rt))) (snd (notes (rt_gitTag rt)))
                             = Value note
                           \<and> rt_channels rt = channels_of note)) new"
    by auto
  have obj: "\<exists>ps. nt = JObj ps" if "getNote json_parse l c = Value nt" for l c nt
  proof -
    have m: "\<exists>ps. z = JObj ps" if "merge x y = Some z" for x y z
      using that by (cases x; cases y) auto
    from that show ?thesis
      by (auto simp: getNote_def note_catch_def split: sum.splits option.splits if_splits dest: m)
  qed
  have each: "match_tag fmt (rt_gitTag rt) = Some (rt_version rt)
               \<and> semver_valid (semver_clean (rt_version rt)) \<noteq> None
               \<and> (\<exists>ps. getNote json_parse (fst (notes (rt_gitTag rt))) (snd (notes (rt_gitTag rt)))
                          = Value (JObj ps)
                        \<and> rt_channels rt
                            = (case map_of ps ''channels'' of
                                 None \<Rightarrow> JArr [JNull]
                               | Some c \<Rightarrow> if falsy c then JArr [JNull] else c))"
    if "rt \<in> set rts" for rt
  proof -
    from that new(1,3) have tv: "tag_version fmt (rt_gitTag rt) = Some (rt_version rt)"
      and "\<exists>note. getNote json_parse (fst (notes (rt_gitTag rt))) (snd (notes (rt_gitTag rt))) = Value note
            \<and> rt_channels rt = channels_of note"
      by (auto simp: list_all_iff)
    then obtain nt where n: "getNote json_parse (fst (notes (rt_gitTag rt))) (snd (notes (rt_gitTag rt))) = Value nt"
      and c: "rt_channels rt = channels_of nt" by blast
    from obj [OF n] obtain ps where ps: "nt = JObj ps" by blast
    from tv have "match_tag fmt (rt_gitTag rt) = Some (rt_version rt)"
      "semver_valid (semver_clean (rt_version rt)) \<noteq> None"
      by (auto simp: tag_version_Some)
    with n c ps show ?thesis by (auto simp: channels_of_def)
  qed
  have kept: "\<exists>v. match_tag fmt t = Some v \<and> semver_valid (semver_clean v) \<noteq> None"
    if "tag_version fmt t \<noteq> None" for t
    using that by (auto simp: tag_version_Some)
  from new(1,2) each kept show ?thesis by blast
qed

lemmas tags_eval =
  tag_version_def match_tag_def tagRegexp_def semver_clean_def semver_valid_def channels_of_def
  getNote_def handleError_def note_catch_def

theorem resolved_tags_witness:
  "resolve_tags example_json_parse example_notes (''v'', []) []
     [''v1.0.0'', ''latest'', ''v1.1.0'', ''vnext'']
   = Value [\<lparr>rt_gitTag = ''v1.0.0'', rt_version = ''1.0.0'', rt_channels = JArr [JNull]\<rparr>,
            \<lparr>rt_gitTag = ''v1.1.0'', rt_version = ''1.1.0'', rt_channels = JArr [JNull, JStr ''next'']\<rparr>]
   \<and> filter (\<lambda>t. tag_version (''v'', []) t \<noteq> None) [''v1.0.0'', ''latest'', ''v1.1.0'', ''vnext'']
       = [''v1.0.0'', ''v1.1.0'']
   \<and> match_tag (''v'', []) ''vnext'' = Some ''next''
   \<and> semver_valid (semver_clean ''next'') = None
   \<and> match_tag (''v'', []) ''latest'' = None"
proof -
  let ?tags = "[''v1.0.0'', ''latest'', ''v1.1.0'', ''vnext'']"
  have r: "resolve_tags example_json_parse example_notes (''v'', []) [] ?tags
   = Value [\<lparr>rt_gitTag = ''v1.0.0'', rt_version = ''1.0.0'', rt_channels = JArr [JNull]\<rparr>,
            \<lparr>rt_gitTag = ''v1.1.0'', rt_version = ''1.1.0'', rt_channels = JArr [JNull, JStr ''next'']\<rparr>]"
    by (simp add: tags_eval example_notes_def example_json_parse_def semver_eval)
  have m: "match_tag (''v'', []) ''vnext'' = Some ''next''" "semver_valid (semver_clean ''next'') = None"
    "match_tag (''v'', []) ''latest'' = None"
    by (simp_all add: tags_eval semver_eval)
  from resolved_tags [OF r] r m show ?thesis by simp
qed

end
